theory Spec2Isabelle
  imports Complex_Main
begin

section \<open>Solar plant simulation: data model\<close>

text \<open>
  The embedding follows the main script of the simulation (the global \<open>state\<close> object and the
  functions that mutate it) and the conversation-history part of \<open>ai-assistant.js\<close>.

  Conventions of the embedding:
  \<^item> JavaScript numbers are real numbers; a \<open>Date\<close> is its millisecond count (\<open>int\<close>), read in a
    zone without offset, so \<open>getHours\<close> is \<open>(ms div 3600000) mod 24\<close>.
  \<^item> Every \<open>new Date()\<close> and \<open>Date.now()\<close> evaluated while one handler runs returns the same
    reading \<open>now\<close>, a parameter of the handler.
  \<^item> \<open>Math.random()\<close> reads the next element of a sequence \<open>rng\<close> carried in the state together
    with the read position \<open>rpos\<close>. The sequence holds the values that the functions below
    read, in the order they read them; the calls made while drawing the map are left out.
  \<^item> An equipment id such as \<open>Panel-3\<close> is the pair \<open>(Panel, 3)\<close>; \<open>startsWith('Panel-')\<close> and
    \<open>split('-')[0]\<close> read its first component.
  \<^item> A template literal is the list of its pieces (literal text and interpolated values).
  \<^item> Of the DOM only the alert list is kept (field \<open>alerts\<close>); rendering is left out, as are the
    drone, settings and download fields of \<open>state\<close>, which none of the functions below reads.
\<close>

datatype anomaly_type = PanelFault | DustAccumulation | DustStorm | InverterOverload | CloudCover

datatype severity = Info | Warning | Critical

datatype equipment_status = Healthy | Degraded | Faulty

datatype resolver = ByUser | ByAutoTimeout

datatype equipment_kind = Panel | Inverter | Battery | Transformer

type_synonym equipment_id = "equipment_kind \<times> nat"

datatype location =
    Section nat
  | SectionCell nat nat
  | EntireFacility
  | Regional
  | InverterUnit nat
  | MultipleSections

datatype piece =
    Txt string
  | Num int
  | Pad2 nat
  | Fixed real nat
  | Unit equipment_id
  | Place location
  | TypeName anomaly_type
  | LocalTime int

type_synonym message = "piece list"

datatype log_type =
    LogInfo | LogSystem | LogControl | LogAnomaly | LogResolution | LogEscalation
  | LogAlert severity
  | LogOther string

datatype factor = Temp | Dust | Cloud | Humidity

record log_entry =
  logTimestamp :: int
  logMessage :: message
  logType :: log_type

record alert =
  alertTime :: "nat \<times> nat"
  alertMessage :: message
  alertSeverity :: severity

record env_factors =
  temperature :: real
  dustLevel :: real
  cloudCover :: real
  humidity :: real

record overrides =
  dustOverride :: "real option"
  cloudOverride :: "real option"

text \<open>
  An anomaly object. \<open>impact\<close> is the number in front of the percent sign of the source's
  string (\<open>'15%'\<close> is \<open>15\<close>). \<open>affectedEquipment\<close> is \<open>[]\<close> where the source leaves the property
  undefined: every read of it is guarded by a truthiness test, so both behave alike.
\<close>

record anomaly =
  aid :: int
  atype :: anomaly_type
  aname :: string
  location :: location
  impact :: real
  severity :: severity
  timestamp :: int
  active :: bool
  escalationLevel :: nat
  lastEscalation :: int
  affectedEquipment :: "equipment_id list"
  resolvedAt :: "int option"
  resolvedBy :: "resolver option"
  causedBy :: "anomaly_type option"

record equipment =
  ename :: equipment_id
  health :: real
  status :: equipment_status
  issues :: "string list"
  anomalyRef :: "int option"

text \<open>
  The global \<open>state\<close>. \<open>equipmentHealth\<close> is an object used as a dictionary; its keys keep
  their insertion order, which \<open>Object.keys\<close> and \<open>Object.entries\<close> expose, so it is an
  association list.
\<close>

record state =
  simulationTime :: "int option"
  capacity :: real
  currentGeneration :: real
  dailyCumulative :: real
  lastUpdateTime :: int
  environmentalFactors :: env_factors
  manualEnvironmentControl :: bool
  simulatedEnvironmentalFactors :: env_factors
  anomalyOverrides :: overrides
  anomalies :: "anomaly list"
  equipmentHealth :: "(equipment_id \<times> equipment) list"
  logs :: "log_entry list"
  alerts :: "alert list"
  rng :: "nat \<Rightarrow> real"
  rpos :: nat

section \<open>Clock, random source, dictionary\<close>

definition getHours :: "int \<Rightarrow> nat" where
  "getHours t = nat ((t div 3600000) mod 24)"

definition getMinutes :: "int \<Rightarrow> nat" where
  "getMinutes t = nat ((t div 60000) mod 60)"

definition getCurrentTime :: "int \<Rightarrow> state \<Rightarrow> int" where
  "getCurrentTime now s = (case simulationTime s of Some t \<Rightarrow> t | None \<Rightarrow> now)"

text \<open>\<open>draw k s\<close> is the value of the \<open>k\<close>-th next call of \<open>Math.random()\<close>; \<open>skip k\<close> records
  that \<open>k\<close> calls were made.\<close>

definition draw :: "nat \<Rightarrow> state \<Rightarrow> real" where
  "draw k s = rng s (rpos s + k)"

definition skip :: "nat \<Rightarrow> state \<Rightarrow> state" where
  "skip k s = s\<lparr>rpos := rpos s + k\<rparr>"

text \<open>\<open>Math.floor(r * n)\<close> for a draw \<open>r\<close>.\<close>

definition floorRandom :: "real \<Rightarrow> nat \<Rightarrow> nat" where
  "floorRandom r n = nat \<lfloor>r * real n\<rfloor>"

text \<open>Assignment to properties of \<open>state.equipmentHealth[k]\<close>, where the key exists.\<close>

fun modifyEquipment ::
  "equipment_id \<Rightarrow> (equipment \<Rightarrow> equipment) \<Rightarrow> (equipment_id \<times> equipment) list
    \<Rightarrow> (equipment_id \<times> equipment) list" where
  "modifyEquipment k f [] = []"
| "modifyEquipment k f (entry # rest) =
     (if fst entry = k then (fst entry, f (snd entry)) # rest
      else entry # modifyEquipment k f rest)"

definition hasEquipment :: "state \<Rightarrow> equipment_id \<Rightarrow> bool" where
  "hasEquipment s k = (map_of (equipmentHealth s) k \<noteq> None)"

text \<open>Mutation of the anomaly object stored at index \<open>i\<close> of \<open>state.anomalies\<close>.\<close>

definition modifyAnomaly :: "nat \<Rightarrow> (anomaly \<Rightarrow> anomaly) \<Rightarrow> state \<Rightarrow> state" where
  "modifyAnomaly i f s = s\<lparr>anomalies := (anomalies s)[i := f (anomalies s ! i)]\<rparr>"

section \<open>Log and alerts\<close>

definition log' :: "int \<Rightarrow> message \<Rightarrow> log_type \<Rightarrow> state \<Rightarrow> state" where
  "log' now msg ty s =
     s\<lparr>logs := logs s @ [\<lparr>logTimestamp = now, logMessage = msg, logType = ty\<rparr>]\<rparr>"

text \<open>\<open>addAlert\<close>: the new entry goes first in the DOM list, the message is logged, and the
  list keeps its first 20 entries.\<close>

definition addAlert :: "int \<Rightarrow> message \<Rightarrow> severity \<Rightarrow> state \<Rightarrow> state" where
  "addAlert now msg sev s =
     (let time = getCurrentTime now s;
          entry = \<lparr>alertTime = (getHours time, getMinutes time), alertMessage = msg,
                   alertSeverity = sev\<rparr>;
          s1 = log' now msg (LogAlert sev) s
      in s1\<lparr>alerts := take 20 (entry # alerts s1)\<rparr>)"

section \<open>Generation\<close>

fun anomalyFactor :: "real \<Rightarrow> anomaly list \<Rightarrow> real" where
  "anomalyFactor f [] = f"
| "anomalyFactor f (a # rest) =
     anomalyFactor
       (if active a \<and> atype a \<noteq> DustStorm \<and> atype a \<noteq> CloudCover
        then f * (1 - impact a / 100) else f)
       rest"

definition calculateSolarGeneration :: "int \<Rightarrow> state \<Rightarrow> real" where
  "calculateSolarGeneration time s =
     (let hour = real (getHours time) + real (getMinutes time) / 60;
          baseGeneration =
            (if hour \<ge> 6 \<and> hour \<le> 18 then sin (((hour - 6) / 12) * pi) * capacity s else 0);
          effectiveDust =
            (case dustOverride (anomalyOverrides s) of
               Some d \<Rightarrow> d | None \<Rightarrow> dustLevel (environmentalFactors s));
          effectiveCloud =
            (case cloudOverride (anomalyOverrides s) of
               Some c \<Rightarrow> c | None \<Rightarrow> cloudCover (environmentalFactors s));
          tempFactor = 1 - max 0 ((temperature (environmentalFactors s) - 25) * 0.004);
          dustFactor = 1 - (effectiveDust / 100) * 0.3;
          cloudFactor = 1 - (effectiveCloud / 100) * 0.5
      in baseGeneration * tempFactor * dustFactor * cloudFactor
           * anomalyFactor 1 (anomalies s))"

definition updateSimulation :: "int \<Rightarrow> state \<Rightarrow> state" where
  "updateSimulation now s =
     (let currentTime = getCurrentTime now s;
          s1 = s\<lparr>currentGeneration := calculateSolarGeneration currentTime s\<rparr>;
          lastHour = getHours (lastUpdateTime s1);
          currentHour = getHours currentTime;
          s2 =
            (if lastHour = 23 \<and> currentHour = 0
             then addAlert now [Txt ''Midnight - Daily cumulative reset''] Info
                    (s1\<lparr>dailyCumulative := 0\<rparr>)
             else s1\<lparr>dailyCumulative :=
                      dailyCumulative s1
                        + currentGeneration s1
                            * (real_of_int (currentTime - lastUpdateTime s1) / 3600000)\<rparr>)
      in s2\<lparr>lastUpdateTime := currentTime\<rparr>)"

section \<open>Anomaly engine\<close>

text \<open>The table \<open>anomalyTypes\<close> of \<open>generateAnomaly\<close>. Building the object literal evaluates
  its three random locations, whatever the selected type: \<open>r1\<close>, \<open>r2\<close>, \<open>r3\<close> are those draws.\<close>

definition anomalyTypes ::
  "real \<Rightarrow> real \<Rightarrow> real \<Rightarrow> anomaly_type \<Rightarrow> string \<times> location \<times> real \<times> severity" where
  "anomalyTypes r1 r2 r3 t =
     (case t of
        PanelFault \<Rightarrow> (''Panel Fault'', Section (floorRandom r1 10 + 1), 15, Critical)
      | DustAccumulation \<Rightarrow> (''Dust Accumulation'', Section (floorRandom r2 10 + 1), 10, Warning)
      | DustStorm \<Rightarrow> (''Dust Storm'', EntireFacility, 30, Warning)
      | InverterOverload \<Rightarrow>
          (''Inverter Overload'', InverterUnit (floorRandom r3 5 + 1), 20, Critical)
      | CloudCover \<Rightarrow> (''Cloud Cover Spike'', Regional, 40, Info))"

text \<open>The impact percentage that the tables give each type.\<close>

definition impactOf :: "anomaly_type \<Rightarrow> real" where
  "impactOf t = fst (snd (snd (anomalyTypes 0 0 0 t)))"

text \<open>The table of \<open>generateAnomalyForEquipment\<close>: three types only; a lookup of another type
  yields \<open>undefined\<close>.\<close>

definition anomalyTypesForEquipment ::
  "real \<Rightarrow> real \<Rightarrow> real \<Rightarrow> anomaly_type \<Rightarrow> (string \<times> location \<times> real \<times> severity) option" where
  "anomalyTypesForEquipment r1 r2 r3 t =
     (case t of
        PanelFault \<Rightarrow> Some (''Panel Fault'', Section (floorRandom r1 10 + 1), 15, Critical)
      | DustAccumulation \<Rightarrow>
          Some (''Dust Accumulation'', Section (floorRandom r2 10 + 1), 10, Warning)
      | InverterOverload \<Rightarrow>
          Some (''Inverter Overload'', InverterUnit (floorRandom r3 4 + 1), 20, Critical)
      | DustStorm \<Rightarrow> None
      | CloudCover \<Rightarrow> None)"

definition maxEscalation :: "anomaly_type \<Rightarrow> nat" where
  "maxEscalation t = (if t = DustStorm \<or> t = CloudCover then 1 else 3)"

definition panelIds :: "state \<Rightarrow> equipment_id list" where
  "panelIds s = filter (\<lambda>k. fst k = Panel) (map fst (equipmentHealth s))"

text \<open>What \<open>generateAnomaly\<close> assigns to a panel it selects (lines 670-682).\<close>

definition claimPanel :: "anomaly_type \<Rightarrow> int \<Rightarrow> equipment \<Rightarrow> equipment" where
  "claimPanel t anomalyId e =
     (let e1 = (if t = DustAccumulation
                then e\<lparr>status := Degraded, issues := [''dust accumulation'']\<rparr>
                else e\<lparr>status := Faulty, issues := [''panel fault'']\<rparr>);
          e2 = e1\<lparr>anomalyRef := Some anomalyId\<rparr>;
          healthReduction = (if t = DustAccumulation then 30 else 50)
      in e2\<lparr>health := max 20 (health e2 - healthReduction)\<rparr>)"

text \<open>What \<open>generateDustAccumulationAfterStorm\<close> assigns to a panel it selects.\<close>

definition claimAfterStorm :: "int \<Rightarrow> equipment \<Rightarrow> equipment" where
  "claimAfterStorm anomalyId e =
     e\<lparr>status := Degraded, issues := [''dust accumulation''], anomalyRef := Some anomalyId,
       health := max 20 (health e - 25)\<rparr>"

text \<open>
  The selection loop \<open>for (i = 0; i < numToAffect && i < panelIds.length; i++)\<close>, written
  twice in the source (in \<open>generateAnomaly\<close> and in \<open>generateDustAccumulationAfterStorm\<close>) with
  a different assignment to the selected panel, here \<open>claim\<close>. The first argument counts the
  iterations left; \<open>affected\<close> is \<open>anomaly.affectedEquipment\<close>. Each iteration draws one index;
  a panel that is already in \<open>affected\<close> is passed over and the iteration is spent.
\<close>

fun selectPanels ::
  "nat \<Rightarrow> (equipment \<Rightarrow> equipment) \<Rightarrow> equipment_id list \<Rightarrow> equipment_id list \<Rightarrow> state
    \<Rightarrow> equipment_id list \<times> state" where
  "selectPanels 0 claim ids affected s = (affected, s)"
| "selectPanels (Suc n) claim ids affected s =
     (let randomIndex = floorRandom (draw 0 s) (length ids);
          s1 = skip 1 s
      in if randomIndex < length ids \<and> ids ! randomIndex \<notin> set affected
            \<and> hasEquipment s1 (ids ! randomIndex)
         then selectPanels n claim ids (affected @ [ids ! randomIndex])
                (s1\<lparr>equipmentHealth :=
                      modifyEquipment (ids ! randomIndex) claim (equipmentHealth s1)\<rparr>)
         else selectPanels n claim ids affected s1)"

definition newAnomaly ::
  "int \<Rightarrow> anomaly_type \<Rightarrow> string \<times> location \<times> real \<times> severity \<Rightarrow> int \<Rightarrow> anomaly" where
  "newAnomaly ident t entry now =
     \<lparr>aid = ident, atype = t, aname = fst entry, location = fst (snd entry),
      impact = fst (snd (snd entry)), severity = snd (snd (snd entry)), timestamp = now,
      active = True, escalationLevel = 0, lastEscalation = now, affectedEquipment = [],
      resolvedAt = None, resolvedBy = None, causedBy = None\<rparr>"

text \<open>\<open>generateAnomaly\<close>, lines 634-646: the override a dust storm or a cloud spike sets.\<close>

definition applyEnvironmentOverride :: "int \<Rightarrow> anomaly_type \<Rightarrow> state \<Rightarrow> state" where
  "applyEnvironmentOverride now t s =
     (if t = DustStorm then
        updateSimulation now
          (s\<lparr>anomalyOverrides := (anomalyOverrides s)
                \<lparr>dustOverride := Some (min 100 (dustLevel (environmentalFactors s) + 50))\<rparr>\<rparr>)
      else if t = CloudCover then
        updateSimulation now
          (s\<lparr>anomalyOverrides := (anomalyOverrides s)
                \<lparr>cloudOverride := Some (min 100 (cloudCover (environmentalFactors s) + 60))\<rparr>\<rparr>)
      else s)"

text \<open>\<open>generateAnomaly\<close>, lines 648-699: the equipment the anomaly at index \<open>i\<close> claims. For an
  inverter overload the unit is the number in the anomaly's location.\<close>

definition affectEquipment :: "anomaly_type \<Rightarrow> nat \<Rightarrow> state \<Rightarrow> state" where
  "affectEquipment t i s =
     (if t = PanelFault \<or> t = DustAccumulation then
        let startRow = floorRandom (draw 0 s) 8;
            startCol = floorRandom (draw 1 s) 8;
            clusterSize = floorRandom (draw 2 s) 3 + 2;
            ids = panelIds s;
            numToAffect = floorRandom (draw 3 s) 3 + 2;
            (affected, s1) =
              selectPanels (min numToAffect (length ids))
                (claimPanel t (aid (anomalies s ! i))) ids [] (skip 4 s)
        in modifyAnomaly i
             (\<lambda>a. a\<lparr>affectedEquipment := affected,
                     location := SectionCell (startRow + 1) (startCol + 1)\<rparr>) s1
      else if t = InverterOverload then
        (case location (anomalies s ! i) of
           InverterUnit n \<Rightarrow>
             (let inverterId = (Inverter, n);
                  s1 = modifyAnomaly i (\<lambda>a. a\<lparr>affectedEquipment := [inverterId]\<rparr>) s
              in s1\<lparr>equipmentHealth :=
                      modifyEquipment inverterId
                        (\<lambda>e. e\<lparr>status := Faulty, anomalyRef := Some (aid (anomalies s ! i)),
                                health := max 30 (health e - 40)\<rparr>)
                        (equipmentHealth s1)\<rparr>)
         | _ \<Rightarrow> s)
      else s)"

text \<open>\<open>generateAnomaly\<close>; \<open>selected\<close> is the value of the type selector, \<open>None\<close> when it is
  empty.\<close>

definition generateAnomaly :: "int \<Rightarrow> anomaly_type option \<Rightarrow> state \<Rightarrow> state" where
  "generateAnomaly now selected s =
     (case selected of
        None \<Rightarrow> addAlert now [Txt ''Please select an anomaly type''] Warning s
      | Some t \<Rightarrow>
          (let anomaly = newAnomaly now t
                           (anomalyTypes (draw 0 s) (draw 1 s) (draw 2 s) t) now;
               i = length (anomalies s);
               s1 = (skip 3 s)\<lparr>anomalies := anomalies s @ [anomaly]\<rparr>;
               s2 = applyEnvironmentOverride now t s1;
               s3 = affectEquipment t i s2;
               created = anomalies s3 ! i;
               s4 = addAlert now
                      [Txt ''Anomaly generated: '', Txt (aname created), Txt '' at '',
                       Place (location created)]
                      (severity created) s3;
               s5 = log' now [Txt ''Anomaly generated: '', Txt (aname created)] LogAnomaly s4
           in updateSimulation now s5))"

text \<open>\<open>generateDustAccumulationAfterStorm\<close>.\<close>

definition generateDustAccumulationAfterStorm :: "int \<Rightarrow> state \<Rightarrow> state" where
  "generateDustAccumulationAfterStorm now s =
     (let anomaly = (newAnomaly now DustAccumulation
                       (''Dust Accumulation'', MultipleSections, 10, Warning) now)
                    \<lparr>causedBy := Some DustStorm\<rparr>;
          ids = panelIds s;
          numToAffect = floorRandom (draw 0 s) 5 + 4;
          (affected, s1) =
            selectPanels (min numToAffect (length ids)) (claimAfterStorm (aid anomaly)) ids []
              (skip 1 s);
          s2 = s1\<lparr>anomalies := anomalies s1 @ [anomaly\<lparr>affectedEquipment := affected\<rparr>]\<rparr>;
          s3 = addAlert now
                 [Txt ''Dust accumulation detected on '', Num (int (length affected)),
                  Txt '' panels after dust storm'']
                 Warning s2;
          s4 = log' now
                 [Txt ''Dust accumulation anomaly generated after dust storm on '',
                  Num (int (length affected)), Txt '' panels'']
                 LogAnomaly s3
      in updateSimulation now s4)"

text \<open>The release of claimed equipment on resolution: every unit of the list that exists
  becomes healthy with a fresh health of \<open>96 + Math.random() * 4\<close>.\<close>

fun restoreEquipment :: "equipment_id list \<Rightarrow> state \<Rightarrow> state" where
  "restoreEquipment [] s = s"
| "restoreEquipment (equipmentId # rest) s =
     (if hasEquipment s equipmentId then
        restoreEquipment rest
          ((skip 1 s)\<lparr>equipmentHealth :=
              modifyEquipment equipmentId
                (\<lambda>e. e\<lparr>status := Healthy, anomalyRef := None, issues := [],
                        health := 96 + draw 0 s * 4\<rparr>)
                (equipmentHealth s)\<rparr>)
      else restoreEquipment rest s)"

text \<open>The effects of a resolution, written twice in the source (\<open>checkAnomalies\<close>, lines
  743-768, and \<open>correctAnomaly\<close>, lines 852-877).\<close>

definition clearEffects :: "int \<Rightarrow> anomaly \<Rightarrow> state \<Rightarrow> state" where
  "clearEffects now anomaly s =
     (if atype anomaly = PanelFault \<or> atype anomaly = DustAccumulation
         \<or> atype anomaly = InverterOverload then
        restoreEquipment (affectedEquipment anomaly) s
      else if atype anomaly = DustStorm then
        generateDustAccumulationAfterStorm now
          (updateSimulation now
             (s\<lparr>anomalyOverrides := (anomalyOverrides s)\<lparr>dustOverride := None\<rparr>\<rparr>))
      else if atype anomaly = CloudCover then
        updateSimulation now
          (s\<lparr>anomalyOverrides := (anomalyOverrides s)\<lparr>cloudOverride := None\<rparr>\<rparr>)
      else s)"

text \<open>The alert and the log line of an automatic resolution (lines 734-741).\<close>

definition announceTimeout :: "int \<Rightarrow> anomaly \<Rightarrow> state \<Rightarrow> state" where
  "announceTimeout now anomaly s =
     (if atype anomaly = DustStorm \<or> atype anomaly = CloudCover then
        log' now
          [Txt ''Environmental anomaly cleared after 200 seconds: '', Txt (aname anomaly)]
          LogResolution
          (addAlert now [Txt ''Environmental condition cleared: '', Txt (aname anomaly)] Info s)
      else
        log' now
          [Txt ''Anomaly auto-corrected after 200 seconds: '', Txt (aname anomaly)]
          LogResolution
          (addAlert now [Txt ''Anomaly auto-corrected after timeout: '', Txt (aname anomaly)]
             Info s))"

text \<open>The alert and the log line of an escalation to \<open>level\<close> (lines 781-795).\<close>

definition announceEscalation :: "int \<Rightarrow> anomaly \<Rightarrow> nat \<Rightarrow> real \<Rightarrow> state \<Rightarrow> state" where
  "announceEscalation now anomaly level timeSinceStart s =
     (let s1 =
        (if atype anomaly = DustStorm \<or> atype anomaly = CloudCover then
           addAlert now
             [Txt (aname anomaly), Txt '' ongoing for '', Num \<lfloor>timeSinceStart / 60\<rfloor>,
              Txt '' minutes - Environmental condition'']
             Warning s
         else if level = 1 then
           addAlert now
             [Txt ''ESCALATION: '', Txt (aname anomaly), Txt '' has been active for '',
              Num \<lfloor>timeSinceStart / 60\<rfloor>, Txt '' minutes'']
             Warning s
         else if level = 2 then
           addAlert now
             [Txt ''CRITICAL ESCALATION: '', Txt (aname anomaly),
              Txt '' requires immediate attention!'']
             Critical s
         else if level = 3 then
           addAlert now
             [Txt ''MAXIMUM ESCALATION: '', Txt (aname anomaly), Txt '' will auto-correct in '',
              Num \<lceil>(200 - timeSinceStart) / 60\<rceil>, Txt '' minutes'']
             Critical s
         else s)
      in log' now
           [Txt ''Anomaly escalated: '', Txt (aname anomaly), Txt '' - Level '', Num (int level)]
           LogEscalation s1)"

text \<open>The callback of the \<open>forEach\<close> of \<open>checkAnomalies\<close>, for the anomaly at index \<open>i\<close>.
  The branch of the 200 seconds ends with \<open>return\<close>, so the escalation test is reached
  only when it was not taken.\<close>

definition checkAnomaly :: "int \<Rightarrow> nat \<Rightarrow> state \<Rightarrow> state" where
  "checkAnomaly now i s =
     (let anomaly = anomalies s ! i in
      if active anomaly then
        let timeSinceStart = real_of_int (now - timestamp anomaly) / 1000;
            timeSinceLastEscalation = real_of_int (now - lastEscalation anomaly) / 1000
        in
          if timeSinceStart \<ge> 200 then
            clearEffects now anomaly
              (announceTimeout now anomaly
                 (modifyAnomaly i
                    (\<lambda>a. a\<lparr>active := False, resolvedAt := Some now,
                            resolvedBy := Some ByAutoTimeout\<rparr>) s))
          else if timeSinceLastEscalation \<ge> 60 \<and> escalationLevel anomaly < 3 then
            let maxEsc = maxEscalation (atype anomaly)
            in
              if escalationLevel anomaly < maxEsc then
                announceEscalation now anomaly (escalationLevel anomaly + 1) timeSinceStart
                  (modifyAnomaly i
                     (\<lambda>a. a\<lparr>escalationLevel := escalationLevel a + 1,
                             lastEscalation := now\<rparr>) s)
              else s
          else s
      else s)"

text \<open>\<open>forEach\<close> visits the indices below the length the array had when the call began: an
  anomaly appended by the cascade during the sweep is not visited. \<open>sweepPrefix now k\<close> is
  the state after the callbacks of the first \<open>k\<close> anomalies.\<close>

definition sweepPrefix :: "int \<Rightarrow> nat \<Rightarrow> state \<Rightarrow> state" where
  "sweepPrefix now k s = fold (checkAnomaly now) [0..<k] s"

definition checkAnomalies :: "int \<Rightarrow> state \<Rightarrow> state" where
  "checkAnomalies now s = updateSimulation now (sweepPrefix now (length (anomalies s)) s)"

text \<open>\<open>Array.prototype.find\<close> returns the first match; its index locates the object that
  \<open>correctAnomaly\<close> then mutates.\<close>

fun findIndex :: "('a \<Rightarrow> bool) \<Rightarrow> 'a list \<Rightarrow> nat option" where
  "findIndex P [] = None"
| "findIndex P (x # xs) = (if P x then Some 0 else map_option Suc (findIndex P xs))"

definition correctAnomaly :: "int \<Rightarrow> int \<Rightarrow> state \<Rightarrow> state" where
  "correctAnomaly now anomalyId s =
     (case findIndex (\<lambda>a. aid a = anomalyId) (anomalies s) of
        None \<Rightarrow> s
      | Some i \<Rightarrow>
          (let anomaly = anomalies s ! i in
           if active anomaly then
             let s1 = modifyAnomaly i
                        (\<lambda>a. a\<lparr>active := False, resolvedAt := Some now,
                                resolvedBy := Some ByUser\<rparr>) s;
                 s2 = addAlert now [Txt ''Anomaly corrected: '', Txt (aname anomaly)] Info s1;
                 s3 = log' now [Txt ''Anomaly manually corrected: '', Txt (aname anomaly)]
                        LogResolution s2;
                 s4 = clearEffects now anomaly s3
             in updateSimulation now s4
           else s))"

section \<open>Equipment health\<close>

text \<open>A \<open>TypeError\<close> thrown by a property access on \<open>undefined\<close> ends the handler with the state
  as it was at the throw.\<close>

datatype outcome = Completed state | TypeError state

text \<open>What \<open>generateAnomalyForEquipment\<close> assigns to the unit (lines 966-987).\<close>

definition claimForEquipment :: "anomaly_type \<Rightarrow> int \<Rightarrow> equipment \<Rightarrow> equipment" where
  "claimForEquipment t anomalyId e =
     (if t = PanelFault then
        e\<lparr>status := Faulty, anomalyRef := Some anomalyId, issues := [''Panel fault detected''],
          health := max 20 (health e - 30)\<rparr>
      else if t = DustAccumulation then
        e\<lparr>status := Degraded, anomalyRef := Some anomalyId, issues := [''Dust accumulation''],
          health := max 20 (health e - 25)\<rparr>
      else if t = InverterOverload then
        e\<lparr>status := Faulty, anomalyRef := Some anomalyId, issues := [''Overload detected''],
          health := max 30 (health e - 40)\<rparr>
      else e)"

text \<open>\<open>generateAnomalyForEquipment\<close>. The id is \<open>state.anomalies.length + 1\<close>. The value it
  returns (the id) is not used by its caller.\<close>

definition generateAnomalyForEquipment ::
  "int \<Rightarrow> anomaly_type \<Rightarrow> equipment_id \<Rightarrow> state \<Rightarrow> outcome" where
  "generateAnomalyForEquipment now t equipmentId s =
     (let s0 = skip 3 s in
      case anomalyTypesForEquipment (draw 0 s) (draw 1 s) (draw 2 s) t of
        None \<Rightarrow> TypeError s0
      | Some anomalyData \<Rightarrow>
          if \<not> hasEquipment s0 equipmentId then TypeError s0
          else
            let anomaly = (newAnomaly (int (length (anomalies s0)) + 1) t anomalyData now)
                            \<lparr>affectedEquipment := [equipmentId]\<rparr>;
                s1 = s0\<lparr>equipmentHealth :=
                          modifyEquipment equipmentId (claimForEquipment t (aid anomaly))
                            (equipmentHealth s0)\<rparr>;
                s2 = s1\<lparr>anomalies := anomalies s1 @ [anomaly]\<rparr>
            in Completed (updateSimulation now s2))"

definition hasActiveAnomaly :: "state \<Rightarrow> equipment_id \<Rightarrow> bool" where
  "hasActiveAnomaly s k =
     list_ex (\<lambda>a. active a \<and> k \<in> set (affectedEquipment a)) (anomalies s)"

text \<open>The anomaly type that \<open>monitorEquipmentHealth\<close> picks for a unit (lines 1008-1016),
  with the state after the draw that only a panel costs.\<close>

definition chooseAnomalyType :: "equipment_id \<Rightarrow> state \<Rightarrow> anomaly_type \<times> state" where
  "chooseAnomalyType equipmentId s =
     (let kind = fst equipmentId in
      if kind = Panel then
        (if draw 0 s > 0.3 then DustAccumulation else PanelFault, skip 1 s)
      else if kind = Inverter then (InverterOverload, s)
      else (PanelFault, s))"

text \<open>The alert and the log line of an automatic generation (lines 1022-1023); \<open>h\<close> is the
  health of the unit when they are written.\<close>

definition announceAutoGenerated ::
  "int \<Rightarrow> anomaly_type \<Rightarrow> equipment_id \<Rightarrow> equipment_id \<Rightarrow> real \<Rightarrow> state \<Rightarrow> state" where
  "announceAutoGenerated now anomalyType equipmentId equipmentName h s =
     log' now
       [Txt ''Auto-generated '', TypeName anomalyType, Txt '' for '', Unit equipmentId,
        Txt '' (health: '', Fixed h 1, Txt ''%)'']
       LogAnomaly
       (addAlert now
          [Txt ''Auto-generated '', TypeName anomalyType, Txt '' for '', Unit equipmentName,
           Txt '' (health dropped to '', Fixed h 1, Txt ''%)'']
          Warning s)"

text \<open>The callback of the \<open>forEach\<close> of \<open>monitorEquipmentHealth\<close> for one entry. The entry's
  value is the equipment object itself, so its fields are read from the current state.\<close>

definition monitorEquipment :: "int \<Rightarrow> equipment_id \<Rightarrow> state \<Rightarrow> outcome" where
  "monitorEquipment now equipmentId s =
     (case map_of (equipmentHealth s) equipmentId of
        None \<Rightarrow> Completed s
      | Some equipment \<Rightarrow>
          if status equipment = Healthy \<and> health equipment < 80 then
            if \<not> hasActiveAnomaly s equipmentId then
              let (anomalyType, s1) = chooseAnomalyType equipmentId s
              in case generateAnomalyForEquipment now anomalyType equipmentId s1 of
                   TypeError s2 \<Rightarrow> TypeError s2
                 | Completed s2 \<Rightarrow>
                     (let h = (case map_of (equipmentHealth s2) equipmentId of
                                 Some e \<Rightarrow> health e | None \<Rightarrow> health equipment)
                      in Completed
                           (announceAutoGenerated now anomalyType equipmentId
                              (ename equipment) h s2))
            else Completed s
          else Completed s)"

fun monitorLoop :: "int \<Rightarrow> equipment_id list \<Rightarrow> state \<Rightarrow> state" where
  "monitorLoop now [] s = s"
| "monitorLoop now (equipmentId # rest) s =
     (case monitorEquipment now equipmentId s of
        TypeError s1 \<Rightarrow> s1
      | Completed s1 \<Rightarrow> monitorLoop now rest s1)"

definition monitorEquipmentHealth :: "int \<Rightarrow> state \<Rightarrow> state" where
  "monitorEquipmentHealth now s = monitorLoop now (map fst (equipmentHealth s)) s"

text \<open>\<open>degradeEquipmentHealth\<close>. The order that \<open>sort\<close> with a random comparator leaves is
  not determined by the language, and neither is the number of comparisons (each one call of
  \<open>Math.random()\<close>): they are the inputs \<open>shuffled\<close> and \<open>comparisons\<close>. The step relation
  below asks that \<open>shuffled\<close> be a rearrangement of the degradable units.\<close>

definition degradable :: "state \<Rightarrow> equipment_id list" where
  "degradable s =
     map fst
       (filter
          (\<lambda>entry. status (snd entry) = Healthy \<and> health (snd entry) > 80
                    \<and> \<not> hasActiveAnomaly s (fst entry))
          (equipmentHealth s))"

fun degradeLoop :: "equipment_id list \<Rightarrow> state \<Rightarrow> state" where
  "degradeLoop [] s = s"
| "degradeLoop (equipmentId # rest) s =
     degradeLoop rest
       ((skip 1 s)\<lparr>equipmentHealth :=
           modifyEquipment equipmentId
             (\<lambda>e. e\<lparr>health := max 75 (health e - (0.1 + draw 0 s * 0.4))\<rparr>)
             (equipmentHealth s)\<rparr>)"

definition degradeEquipmentHealth :: "equipment_id list \<Rightarrow> nat \<Rightarrow> state \<Rightarrow> state" where
  "degradeEquipmentHealth shuffled comparisons s =
     (let equipmentToDegrade = nat \<lceil>real (length (degradable s)) * 0.25\<rceil>;
          selectedEquipment = take equipmentToDegrade shuffled
      in degradeLoop selectedEquipment (skip comparisons s))"

section \<open>Time controls, environment, random events\<close>

fun resetEquipment :: "equipment_id list \<Rightarrow> state \<Rightarrow> state" where
  "resetEquipment [] s = s"
| "resetEquipment (k # rest) s =
     resetEquipment rest
       ((skip 1 s)\<lparr>equipmentHealth :=
           modifyEquipment k
             (\<lambda>e. e\<lparr>health := 95 + draw 0 s * 5, status := Healthy, anomalyRef := None,
                     issues := []\<rparr>)
             (equipmentHealth s)\<rparr>)"

definition initializeSystemState :: "int \<Rightarrow> bool \<Rightarrow> state \<Rightarrow> state" where
  "initializeSystemState now preserveLogs s =
     (let currentTime = getCurrentTime now s;
          s1 = s\<lparr>currentGeneration := 0, dailyCumulative := 0, lastUpdateTime := currentTime,
                 anomalies := []\<rparr>;
          s2 = resetEquipment (map fst (equipmentHealth s1)) s1;
          s3 = (if manualEnvironmentControl s2 then
                  s2\<lparr>environmentalFactors :=
                       \<lparr>temperature = 30, dustLevel = 5, cloudCover = 7, humidity = 10\<rparr>\<rparr>
                else s2);
          s4 = s3\<lparr>anomalyOverrides := \<lparr>dustOverride = None, cloudOverride = None\<rparr>\<rparr>;
          s5 = (if \<not> preserveLogs then s4\<lparr>logs := []\<rparr> else s4)
      in log' now [Txt ''System initialized at '', LocalTime currentTime] LogSystem s5)"

text \<open>\<open>handleTimeChange\<close>: \<open>setHours(hours, minutes, 0, 0)\<close> on today's date.\<close>

definition handleTimeChange :: "int \<Rightarrow> nat \<Rightarrow> nat \<Rightarrow> state \<Rightarrow> state" where
  "handleTimeChange now hours minutes s =
     (let newTime = (now div 86400000) * 86400000 + int hours * 3600000 + int minutes * 60000;
          s1 = initializeSystemState now True (s\<lparr>simulationTime := Some newTime\<rparr>);
          s2 = addAlert now
                 [Txt ''System initialized with simulation time '', Num (int hours), Txt '':'',
                  Pad2 minutes]
                 Info s1
      in updateSimulation now s2)"

definition resetTime :: "int \<Rightarrow> state \<Rightarrow> state" where
  "resetTime now s =
     (let s1 = initializeSystemState now True (s\<lparr>simulationTime := None\<rparr>);
          s2 = addAlert now
                 [Txt ''System initialized with current time - Real-time mode active'']
                 Info s1
      in updateSimulation now s2)"

text \<open>\<open>advanceTime\<close>: \<open>setHours(getHours() + 1)\<close> adds one hour.\<close>

definition advanceTime :: "int \<Rightarrow> state \<Rightarrow> state" where
  "advanceTime now s =
     (let currentTime = getCurrentTime now s;
          newTime = currentTime + 3600000;
          s1 = s\<lparr>simulationTime := Some newTime\<rparr>;
          s2 = (if getHours newTime = 0 then
                  addAlert now [Txt ''Midnight - Daily cumulative reset''] Info
                    (s1\<lparr>dailyCumulative := 0\<rparr>)
                else s1);
          s3 = log' now
                 [Txt ''Time advanced to '', Pad2 (getHours newTime), Txt '':'',
                  Pad2 (getMinutes newTime)]
                 LogSystem s2;
          s4 = addAlert now
                 [Txt ''Time advanced to '', Pad2 (getHours newTime), Txt '':'',
                  Pad2 (getMinutes newTime)]
                 Info s3
      in updateSimulation now s4)"

text \<open>The one-second interval of \<open>startSimulation\<close>.\<close>

definition tick :: "int \<Rightarrow> state \<Rightarrow> state" where
  "tick now s =
     (case simulationTime s of
        None \<Rightarrow> updateSimulation now s
      | Some t \<Rightarrow> updateSimulation now (s\<lparr>simulationTime := Some (t + 1000)\<rparr>))"

definition updateEnvironmentalFactors :: "int \<Rightarrow> state \<Rightarrow> state" where
  "updateEnvironmentalFactors now s =
     (if \<not> manualEnvironmentControl s then
        let sim = simulatedEnvironmentalFactors s;
            sim' =
              \<lparr>temperature =
                 25 + draw 0 s * 20
                   + (sin (real (getHours (getCurrentTime now s)) / 24 * pi * 2 - pi / 2) + 1) * 5,
               dustLevel = max 0 (min 100 (dustLevel sim + (draw 1 s - 0.4) * 10)),
               cloudCover = max 0 (min 100 (cloudCover sim + (draw 2 s - 0.5) * 15)),
               humidity = 20 + draw 3 s * 30\<rparr>
        in (skip 4 s)\<lparr>simulatedEnvironmentalFactors := sim', environmentalFactors := sim'\<rparr>
      else s)"

text \<open>\<open>toggleManualControl\<close>; \<open>checked\<close> is the state of the toggle.\<close>

definition toggleManualControl :: "int \<Rightarrow> bool \<Rightarrow> state \<Rightarrow> state" where
  "toggleManualControl now checked s =
     (let s1 = s\<lparr>manualEnvironmentControl := checked\<rparr> in
      if manualEnvironmentControl s1 then
        log' now [Txt ''Manual environmental control enabled''] LogControl
          (addAlert now [Txt ''Manual environmental control enabled''] Info s1)
      else
        log' now [Txt ''Manual environmental control disabled''] LogControl
          (addAlert now [Txt ''Returned to automatic simulation''] Info
             (s1\<lparr>environmentalFactors := simulatedEnvironmentalFactors s1\<rparr>)))"

definition resetEnvironment :: "int \<Rightarrow> state \<Rightarrow> state" where
  "resetEnvironment now s =
     log' now [Txt ''Environmental factors reset''] LogControl
       (addAlert now [Txt ''Environmental factors reset to simulation values''] Info
          (s\<lparr>environmentalFactors := simulatedEnvironmentalFactors s\<rparr>))"

text \<open>\<open>updateFactorFromSlider\<close> and \<open>updateFactorFromInput\<close>, which change the state alike;
  \<open>numValue\<close> is the parsed number.\<close>

definition updateFactor :: "int \<Rightarrow> factor \<Rightarrow> real \<Rightarrow> state \<Rightarrow> state" where
  "updateFactor now f numValue s =
     (if \<not> manualEnvironmentControl s then s
      else
        let env = environmentalFactors s;
            env' = (case f of
                      Temp \<Rightarrow> env\<lparr>temperature := numValue\<rparr>
                    | Dust \<Rightarrow> env\<lparr>dustLevel := numValue\<rparr>
                    | Cloud \<Rightarrow> env\<lparr>cloudCover := numValue\<rparr>
                    | Humidity \<Rightarrow> env\<lparr>humidity := numValue\<rparr>)
        in updateSimulation now (s\<lparr>environmentalFactors := env'\<rparr>))"

text \<open>\<open>generateRandomEvent\<close>: it only raises alerts. An index outside the event list gives
  \<open>undefined\<close>, whose property read throws before any alert.\<close>

definition generateRandomEvent :: "int \<Rightarrow> state \<Rightarrow> state" where
  "generateRandomEvent now s =
     (if list_ex active (anomalies s) then
        (if draw 0 s > 0.8 then
           let anomalyEvents =
                 [([Txt ''System performance degraded due to active anomalies''], Warning),
                  ([Txt ''Monitoring active anomalies for changes''], Info),
                  ([Txt ''Maintenance team notified of ongoing issues''], Info)];
               k = floorRandom (draw 1 s) (length anomalyEvents);
               s1 = skip 2 s
           in if k < length anomalyEvents
              then addAlert now (fst (anomalyEvents ! k)) (snd (anomalyEvents ! k)) s1
              else s1
         else skip 1 s)
      else
        let effectiveTemp = temperature (environmentalFactors s);
            effectiveDust =
              (case dustOverride (anomalyOverrides s) of
                 Some d \<Rightarrow> d | None \<Rightarrow> dustLevel (environmentalFactors s));
            events =
              [([Txt ''System operating normally''], Info),
               ([Txt ''Maintenance check scheduled''], Info),
               ([Txt ''Grid synchronization stable''], Info)]
              @ (if effectiveTemp > 35
                 then [([Txt ''Temperature rising above optimal''], Warning)] else [])
              @ (if effectiveDust > 30
                 then [([Txt ''Dust accumulation detected''], Warning)] else [])
              @ (if effectiveTemp \<le> 30 \<and> effectiveDust \<le> 20
                 then [([Txt ''Operating conditions optimal''], Info)] else [])
        in if draw 0 s > 0.7 then
             let k = floorRandom (draw 1 s) (length events);
                 s1 = skip 2 s
             in if k < length events
                then addAlert now (fst (events ! k)) (snd (events ! k)) s1
                else s1
           else skip 1 s)"

section \<open>Start-up and the reachable states\<close>

definition equipmentIds :: "equipment_id list" where
  "equipmentIds =
     map (Pair Panel) [1..<21] @ map (Pair Inverter) [1..<6]
       @ map (Pair Battery) [1..<4] @ map (Pair Transformer) [1..<3]"

text \<open>\<open>initializeEquipment\<close>, on the empty dictionary: each key is new and goes last.\<close>

fun createEquipment :: "equipment_id list \<Rightarrow> state \<Rightarrow> state" where
  "createEquipment [] s = s"
| "createEquipment (k # rest) s =
     createEquipment rest
       ((skip 1 s)\<lparr>equipmentHealth :=
           equipmentHealth s
             @ [(k, \<lparr>ename = k, health = 95 + draw 0 s * 5, status = Healthy, issues = [],
                     anomalyRef = None\<rparr>)]\<rparr>)"

definition initializeEquipment :: "state \<Rightarrow> state" where
  "initializeEquipment s = createEquipment equipmentIds s"

text \<open>The \<open>state\<close> literal, evaluated when the script loads at \<open>loaded\<close>, with the sequence
  \<open>source\<close> that \<open>Math.random()\<close> will read.\<close>

definition initialState :: "int \<Rightarrow> (nat \<Rightarrow> real) \<Rightarrow> state" where
  "initialState loaded source =
     \<lparr>simulationTime = None, capacity = 100, currentGeneration = 0, dailyCumulative = 0,
      lastUpdateTime = loaded,
      environmentalFactors = \<lparr>temperature = 30, dustLevel = 5, cloudCover = 7, humidity = 10\<rparr>,
      manualEnvironmentControl = True,
      simulatedEnvironmentalFactors =
        \<lparr>temperature = 35, dustLevel = 20, cloudCover = 10, humidity = 30\<rparr>,
      anomalyOverrides = \<lparr>dustOverride = None, cloudOverride = None\<rparr>,
      anomalies = [], equipmentHealth = [], logs = [], alerts = [],
      rng = source, rpos = 0\<rparr>"

definition init :: "int \<Rightarrow> state \<Rightarrow> state" where
  "init now s = log' now [Txt ''System initialized''] LogInfo (initializeEquipment s)"

text \<open>\<open>Math.random()\<close> returns a number in \<open>[0, 1)\<close>.\<close>

definition randomSource :: "(nat \<Rightarrow> real) \<Rightarrow> bool" where
  "randomSource source = (\<forall>n. 0 \<le> source n \<and> source n < 1)"

text \<open>The handlers that timers and controls call. The handlers of the drone scan, the log
  download, the settings and the assistant write only fields that are left out here, alerts
  and log lines: \<open>Notice\<close> and \<open>LogLine\<close> stand for what they do to the state.\<close>

datatype event =
    Tick
  | EnvironmentTick
  | AnomalyCheck
  | RandomEvent
  | HealthMonitor
  | Degradation "equipment_id list" nat
  | GenerateAnomaly "anomaly_type option"
  | CorrectAnomaly int
  | TimeChange nat nat
  | TimeReset
  | TimeAdvance
  | ManualToggle bool
  | EnvironmentReset
  | FactorInput factor real
  | Notice message severity
  | LogLine message string

fun handle :: "int \<Rightarrow> event \<Rightarrow> state \<Rightarrow> state" where
  "handle now Tick s = tick now s"
| "handle now EnvironmentTick s = updateEnvironmentalFactors now s"
| "handle now AnomalyCheck s = checkAnomalies now s"
| "handle now RandomEvent s = generateRandomEvent now s"
| "handle now HealthMonitor s = monitorEquipmentHealth now s"
| "handle now (Degradation shuffled comparisons) s =
     degradeEquipmentHealth shuffled comparisons s"
| "handle now (GenerateAnomaly selected) s = generateAnomaly now selected s"
| "handle now (CorrectAnomaly anomalyId) s = correctAnomaly now anomalyId s"
| "handle now (TimeChange hours minutes) s = handleTimeChange now hours minutes s"
| "handle now TimeReset s = resetTime now s"
| "handle now TimeAdvance s = advanceTime now s"
| "handle now (ManualToggle checked) s = toggleManualControl now checked s"
| "handle now EnvironmentReset s = resetEnvironment now s"
| "handle now (FactorInput f numValue) s = updateFactor now f numValue s"
| "handle now (Notice msg sev) s = addAlert now msg sev s"
| "handle now (LogLine msg ty) s = log' now msg (LogOther ty) s"

fun admissible :: "event \<Rightarrow> state \<Rightarrow> bool" where
  "admissible (Degradation shuffled comparisons) s =
     (distinct shuffled \<and> set shuffled = set (degradable s))"
| "admissible _ s = True"

text \<open>The states the page can be in: the state after \<open>init\<close>, and every state a handler
  leaves when it runs to completion in a reachable state.\<close>

inductive reachable :: "state \<Rightarrow> bool" where
  reachable_init:
    "randomSource source \<Longrightarrow> reachable (init now (initialState loaded source))"
| reachable_handle:
    "reachable s \<Longrightarrow> admissible e s \<Longrightarrow> reachable (handle now e s)"

section \<open>Predicates of the properties\<close>

definition healthInRange :: "equipment \<Rightarrow> bool" where
  "healthInRange e = (20 \<le> health e \<and> health e \<le> 100)"

definition allHealthInRange :: "state \<Rightarrow> bool" where
  "allHealthInRange s = list_all (\<lambda>entry. healthInRange (snd entry)) (equipmentHealth s)"

text \<open>A unit as a resolution leaves it.\<close>

definition released :: "equipment \<Rightarrow> bool" where
  "released e =
     (status e = Healthy \<and> anomalyRef e = None \<and> issues e = []
      \<and> 96 \<le> health e \<and> health e \<le> 100)"

text \<open>A unit as the cascade of a dust storm resolved at \<open>now\<close> leaves it: degraded, marked
  with the cascade's anomaly id, which is \<open>now\<close>, and 25 below the health it had, so at most
  75.\<close>

definition reclaimed :: "int \<Rightarrow> equipment \<Rightarrow> bool" where
  "reclaimed now e =
     (status e = Degraded \<and> anomalyRef e = Some now \<and> issues e = [''dust accumulation'']
      \<and> 20 \<le> health e \<and> health e \<le> 75)"

definition escalationWithinCap :: "anomaly \<Rightarrow> bool" where
  "escalationWithinCap a = (escalationLevel a \<le> maxEscalation (atype a))"

text \<open>What the callback of \<open>checkAnomalies\<close> does to the anomaly object it is called on.\<close>

definition anomalyAfterCheck :: "int \<Rightarrow> anomaly \<Rightarrow> anomaly" where
  "anomalyAfterCheck now a =
     (if active a then
        if real_of_int (now - timestamp a) / 1000 \<ge> 200 then
          a\<lparr>active := False, resolvedAt := Some now, resolvedBy := Some ByAutoTimeout\<rparr>
        else if real_of_int (now - lastEscalation a) / 1000 \<ge> 60 \<and> escalationLevel a < 3
                \<and> escalationLevel a < maxEscalation (atype a) then
          a\<lparr>escalationLevel := escalationLevel a + 1, lastEscalation := now\<rparr>
        else a
      else a)"

text \<open>An anomaly as the storm cascade appends it at \<open>now\<close>.\<close>

definition cascadeAnomaly :: "int \<Rightarrow> anomaly \<Rightarrow> bool" where
  "cascadeAnomaly now a =
     (aid a = now \<and> atype a = DustAccumulation \<and> active a \<and> escalationLevel a = 0
      \<and> causedBy a = Some DustStorm)"

section \<open>Conversation history of the assistant\<close>

record chat_message =
  role :: string
  content :: string

text \<open>The loop of \<open>validateConversationHistory\<close> over the stored history, with its two local
  variables \<open>expectedRole\<close> and \<open>fixed\<close>. A message whose role is neither expected nor one of
  the two repaired cases is passed over.\<close>

fun validateLoop ::
  "chat_message list \<Rightarrow> string \<Rightarrow> chat_message list \<Rightarrow> chat_message list" where
  "validateLoop [] expectedRole fixed = fixed"
| "validateLoop (msg # rest) expectedRole fixed =
     (if role msg = expectedRole then
        validateLoop rest (if expectedRole = ''user'' then ''assistant'' else ''user'')
          (fixed @ [msg])
      else if role msg = ''user'' \<and> expectedRole = ''assistant'' then
        validateLoop rest ''assistant''
          (fixed @ [\<lparr>role = ''assistant'', content = ''I understand.''\<rparr>, msg])
      else if role msg = ''assistant'' \<and> expectedRole = ''user'' then
        validateLoop rest expectedRole fixed
      else validateLoop rest expectedRole fixed)"

definition validateConversationHistory :: "chat_message list \<Rightarrow> chat_message list" where
  "validateConversationHistory conversationHistory =
     (if length conversationHistory = 0 then conversationHistory
      else
        let fixed = validateLoop conversationHistory ''user'' []
        in if length fixed > 0 \<and> role (last fixed) = ''user''
           then fixed @ [\<lparr>role = ''assistant'', content = ''I understand. Please continue.''\<rparr>]
           else fixed)"

datatype send_result = Message string | Error string

text \<open>\<open>sendMessage\<close> as far as the history goes. \<open>isConnected\<close> is what \<open>checkConnection\<close>
  returned; \<open>response\<close> is the outcome of the request: \<open>Inr\<close> the assistant's text, \<open>Inl\<close> the
  message of the error thrown inside the \<open>try\<close> block. \<open>slice(-25)\<close> keeps the last 25.\<close>

definition sendMessage ::
  "bool \<Rightarrow> string + string \<Rightarrow> string \<Rightarrow> chat_message list
    \<Rightarrow> send_result \<times> chat_message list" where
  "sendMessage isConnected response prompt conversationHistory =
     (if \<not> isConnected then
        (Error ''LLM server not available. Please ensure it is running on http://127.0.0.1:1234'',
         conversationHistory)
      else
        let validated = validateConversationHistory conversationHistory in
        case response of
          Inl err \<Rightarrow> (Error (''Failed to communicate with LLM: '' @ err), validated)
        | Inr assistantMessage \<Rightarrow>
            (let pushed = validated @ [\<lparr>role = ''user'', content = prompt\<rparr>,
                                       \<lparr>role = ''assistant'', content = assistantMessage\<rparr>]
             in (Message assistantMessage,
                 if length pushed > 25 then drop (length pushed - 25) pushed else pushed)))"

text \<open>Alternation as the assistant's history needs it: user, assistant, user, assistant, ...,
  closed by an assistant message. The empty history is the degenerate case.\<close>

fun strictAlternation :: "chat_message list \<Rightarrow> bool" where
  "strictAlternation [] = True"
| "strictAlternation [m] = False"
| "strictAlternation (u # a # rest) =
     (role u = ''user'' \<and> role a = ''assistant'' \<and> strictAlternation rest)"

definition pendingUser :: "chat_message list \<Rightarrow> bool" where
  "pendingUser fixed =
     (\<exists>P u. fixed = P @ [u] \<and> strictAlternation P \<and> role u = ''user'')"

text \<open>A corrupted history: an orphaned assistant message, a user message with its answer, then
  two user messages in a row, the last one without an answer.\<close>

definition corruptedHistory :: "chat_message list" where
  "corruptedHistory =
     [\<lparr>role = ''assistant'', content = ''orphan''\<rparr>,
      \<lparr>role = ''user'', content = ''first''\<rparr>,
      \<lparr>role = ''assistant'', content = ''answer''\<rparr>,
      \<lparr>role = ''user'', content = ''second''\<rparr>,
      \<lparr>role = ''user'', content = ''third''\<rparr>]"

text \<open>A stored history as \<open>slice(-25)\<close> leaves it after thirteen exchanges: 25 entries, the
  first of them an assistant message whose user message was cut off.\<close>

definition longHistory :: "chat_message list" where
  "longHistory =
     concat (replicate 12 [\<lparr>role = ''assistant'', content = ''reply''\<rparr>,
                           \<lparr>role = ''user'', content = ''question''\<rparr>])
       @ [\<lparr>role = ''assistant'', content = ''reply''\<rparr>]"

section \<open>Concrete plants\<close>

text \<open>A random source that always returns 0, and the plant right after start-up at 11:00:00
  with that source: every unit has health 95.\<close>

definition zeros :: "nat \<Rightarrow> real" where
  "zeros n = 0"

definition freshPlant :: state where
  "freshPlant = init 39600000 (initialState 39600000 zeros)"

definition healthyUnit :: "real \<Rightarrow> equipment_id \<Rightarrow> equipment_id \<times> equipment" where
  "healthyUnit h k =
     (k, \<lparr>ename = k, health = h, status = Healthy, issues = [], anomalyRef = None\<rparr>)"

text \<open>A dust storm raised by hand 100 ms after start-up, and the sweep 200 seconds later.\<close>

definition stormPlant :: state where
  "stormPlant = handle 39600100 (GenerateAnomaly (Some DustStorm)) freshPlant"

definition afterStormPlant :: state where
  "afterStormPlant = handle 39800100 AnomalyCheck stormPlant"

text \<open>The sweep one minute after the storm was raised.\<close>

definition escalatedPlant :: state where
  "escalatedPlant = handle 39660100 AnomalyCheck stormPlant"

text \<open>Two panel faults raised by hand, one after the other.\<close>

definition faultPlant :: state where
  "faultPlant = handle 39600100 (GenerateAnomaly (Some PanelFault)) freshPlant"

definition doubleFaultPlant :: state where
  "doubleFaultPlant = handle 39600200 (GenerateAnomaly (Some PanelFault)) faultPlant"

text \<open>A panel fault and then a dust storm raised by hand, 100 ms apart; and two dust storms
  raised by hand, 100 ms apart. Either plant is swept at 11:03:20.200, when both of its
  anomalies are 200 seconds old or older.\<close>

definition faultStormPlant :: state where
  "faultStormPlant = handle 39600200 (GenerateAnomaly (Some DustStorm)) faultPlant"

definition twoStormsPlant :: state where
  "twoStormsPlant = handle 39600200 (GenerateAnomaly (Some DustStorm)) stormPlant"

definition afterTwoStormsPlant :: state where
  "afterTwoStormsPlant = handle 39800200 AnomalyCheck twoStormsPlant"

text \<open>Start-up at 11:00:00, an update at 12:00:00, an update at 22:59:59.900; the next
  handler runs at 23:00:00.100.\<close>

definition eveningPlant :: state where
  "eveningPlant = handle 82799900 Tick (handle 43200000 Tick freshPlant)"

section \<open>What each handler leaves unchanged\<close>

lemma log'_frame [simp]:
  "anomalies (log' now msg ty s) = anomalies s"
  "equipmentHealth (log' now msg ty s) = equipmentHealth s"
  "rng (log' now msg ty s) = rng s"
  "rpos (log' now msg ty s) = rpos s"
  "anomalyOverrides (log' now msg ty s) = anomalyOverrides s"
  "environmentalFactors (log' now msg ty s) = environmentalFactors s"
  "simulatedEnvironmentalFactors (log' now msg ty s) = simulatedEnvironmentalFactors s"
  "manualEnvironmentControl (log' now msg ty s) = manualEnvironmentControl s"
  "simulationTime (log' now msg ty s) = simulationTime s"
  "capacity (log' now msg ty s) = capacity s"
  "currentGeneration (log' now msg ty s) = currentGeneration s"
  "dailyCumulative (log' now msg ty s) = dailyCumulative s"
  "lastUpdateTime (log' now msg ty s) = lastUpdateTime s"
  "alerts (log' now msg ty s) = alerts s"
  by (simp_all add: log'_def)

lemma addAlert_frame [simp]:
  "anomalies (addAlert now msg sev s) = anomalies s"
  "equipmentHealth (addAlert now msg sev s) = equipmentHealth s"
  "rng (addAlert now msg sev s) = rng s"
  "rpos (addAlert now msg sev s) = rpos s"
  "anomalyOverrides (addAlert now msg sev s) = anomalyOverrides s"
  "environmentalFactors (addAlert now msg sev s) = environmentalFactors s"
  "simulatedEnvironmentalFactors (addAlert now msg sev s) = simulatedEnvironmentalFactors s"
  "manualEnvironmentControl (addAlert now msg sev s) = manualEnvironmentControl s"
  "simulationTime (addAlert now msg sev s) = simulationTime s"
  "capacity (addAlert now msg sev s) = capacity s"
  "currentGeneration (addAlert now msg sev s) = currentGeneration s"
  "dailyCumulative (addAlert now msg sev s) = dailyCumulative s"
  "lastUpdateTime (addAlert now msg sev s) = lastUpdateTime s"
  by (simp_all add: addAlert_def Let_def)

lemma getCurrentTime_frame [simp]:
  "getCurrentTime now (log' now' msg ty s) = getCurrentTime now s"
  "getCurrentTime now (addAlert now' msg sev s) = getCurrentTime now s"
  by (simp_all add: getCurrentTime_def)

lemma updateSimulation_frame [simp]:
  "anomalies (updateSimulation now s) = anomalies s"
  "equipmentHealth (updateSimulation now s) = equipmentHealth s"
  "rng (updateSimulation now s) = rng s"
  "rpos (updateSimulation now s) = rpos s"
  "anomalyOverrides (updateSimulation now s) = anomalyOverrides s"
  "environmentalFactors (updateSimulation now s) = environmentalFactors s"
  "simulatedEnvironmentalFactors (updateSimulation now s) = simulatedEnvironmentalFactors s"
  "manualEnvironmentControl (updateSimulation now s) = manualEnvironmentControl s"
  "simulationTime (updateSimulation now s) = simulationTime s"
  "capacity (updateSimulation now s) = capacity s"
  by (simp_all add: updateSimulation_def Let_def)

lemma hasEquipment_frame [simp]:
  "hasEquipment (log' now msg ty s) k = hasEquipment s k"
  "hasEquipment (addAlert now msg sev s) k = hasEquipment s k"
  "hasEquipment (updateSimulation now s) k = hasEquipment s k"
  "hasEquipment (skip n s) k = hasEquipment s k"
  by (simp_all add: hasEquipment_def skip_def)

lemma skip_frame [simp]:
  "anomalies (skip n s) = anomalies s"
  "equipmentHealth (skip n s) = equipmentHealth s"
  "rng (skip n s) = rng s"
  "anomalyOverrides (skip n s) = anomalyOverrides s"
  "environmentalFactors (skip n s) = environmentalFactors s"
  "manualEnvironmentControl (skip n s) = manualEnvironmentControl s"
  "simulationTime (skip n s) = simulationTime s"
  by (simp_all add: skip_def)

lemma modifyAnomaly_frame [simp]:
  "equipmentHealth (modifyAnomaly i f s) = equipmentHealth s"
  "rng (modifyAnomaly i f s) = rng s"
  "rpos (modifyAnomaly i f s) = rpos s"
  "anomalyOverrides (modifyAnomaly i f s) = anomalyOverrides s"
  "anomalies (modifyAnomaly i f s) = (anomalies s)[i := f (anomalies s ! i)]"
  by (simp_all add: modifyAnomaly_def)

lemma announce_frame [simp]:
  "anomalies (announceTimeout now a s) = anomalies s"
  "equipmentHealth (announceTimeout now a s) = equipmentHealth s"
  "rng (announceTimeout now a s) = rng s"
  "rpos (announceTimeout now a s) = rpos s"
  "anomalyOverrides (announceTimeout now a s) = anomalyOverrides s"
  "anomalies (announceEscalation now a level t s) = anomalies s"
  "equipmentHealth (announceEscalation now a level t s) = equipmentHealth s"
  "rng (announceEscalation now a level t s) = rng s"
  "rpos (announceEscalation now a level t s) = rpos s"
  "anomalyOverrides (announceEscalation now a level t s) = anomalyOverrides s"
  by (simp_all add: announceTimeout_def announceEscalation_def Let_def)

lemma announceAutoGenerated_frame [simp]:
  "anomalies (announceAutoGenerated now t k nm h s) = anomalies s"
  "equipmentHealth (announceAutoGenerated now t k nm h s) = equipmentHealth s"
  "rng (announceAutoGenerated now t k nm h s) = rng s"
  by (simp_all add: announceAutoGenerated_def)

lemma chooseAnomalyType_frame [simp]:
  "anomalies (snd (chooseAnomalyType k s)) = anomalies s"
  "equipmentHealth (snd (chooseAnomalyType k s)) = equipmentHealth s"
  "rng (snd (chooseAnomalyType k s)) = rng s"
  by (simp_all add: chooseAnomalyType_def Let_def)

lemma map_fst_modifyEquipment [simp]: "map fst (modifyEquipment k f xs) = map fst xs"
  by (induction xs) auto

lemma map_of_modifyEquipment:
  "map_of (modifyEquipment k f xs) k' =
     (if k' = k then map_option f (map_of xs k) else map_of xs k')"
  by (induction xs) auto

lemma selectPanels_frame [simp]:
  "anomalies (snd (selectPanels n claim ids affected s)) = anomalies s"
  "rng (snd (selectPanels n claim ids affected s)) = rng s"
  "anomalyOverrides (snd (selectPanels n claim ids affected s)) = anomalyOverrides s"
  "map fst (equipmentHealth (snd (selectPanels n claim ids affected s)))
     = map fst (equipmentHealth s)"
  by (induction n claim ids affected s rule: selectPanels.induct; simp add: Let_def)+

lemma restoreEquipment_frame [simp]:
  "anomalies (restoreEquipment ks s) = anomalies s"
  "rng (restoreEquipment ks s) = rng s"
  "anomalyOverrides (restoreEquipment ks s) = anomalyOverrides s"
  "map fst (equipmentHealth (restoreEquipment ks s)) = map fst (equipmentHealth s)"
  by (induction ks s rule: restoreEquipment.induct; simp)+

lemma generateDustAccumulationAfterStorm_frame [simp]:
  "rng (generateDustAccumulationAfterStorm now s) = rng s"
  "anomalyOverrides (generateDustAccumulationAfterStorm now s) = anomalyOverrides s"
  "map fst (equipmentHealth (generateDustAccumulationAfterStorm now s))
     = map fst (equipmentHealth s)"
  by (simp_all add: generateDustAccumulationAfterStorm_def Let_def case_prod_beta)

lemma plain_handlers_frame [simp]:
  "anomalies (tick now s) = anomalies s"
  "equipmentHealth (tick now s) = equipmentHealth s"
  "rng (tick now s) = rng s"
  "anomalies (advanceTime now s) = anomalies s"
  "equipmentHealth (advanceTime now s) = equipmentHealth s"
  "rng (advanceTime now s) = rng s"
  "anomalies (updateEnvironmentalFactors now s) = anomalies s"
  "equipmentHealth (updateEnvironmentalFactors now s) = equipmentHealth s"
  "rng (updateEnvironmentalFactors now s) = rng s"
  "anomalies (toggleManualControl now checked s) = anomalies s"
  "equipmentHealth (toggleManualControl now checked s) = equipmentHealth s"
  "rng (toggleManualControl now checked s) = rng s"
  "anomalies (resetEnvironment now s) = anomalies s"
  "equipmentHealth (resetEnvironment now s) = equipmentHealth s"
  "rng (resetEnvironment now s) = rng s"
  "anomalies (updateFactor now f numValue s) = anomalies s"
  "equipmentHealth (updateFactor now f numValue s) = equipmentHealth s"
  "rng (updateFactor now f numValue s) = rng s"
  "anomalies (generateRandomEvent now s) = anomalies s"
  "equipmentHealth (generateRandomEvent now s) = equipmentHealth s"
  "rng (generateRandomEvent now s) = rng s"
  by (simp_all add: tick_def advanceTime_def updateEnvironmentalFactors_def
      toggleManualControl_def resetEnvironment_def updateFactor_def generateRandomEvent_def
      Let_def split: option.split)

lemma applyEnvironmentOverride_frame [simp]:
  "anomalies (applyEnvironmentOverride now t s) = anomalies s"
  "equipmentHealth (applyEnvironmentOverride now t s) = equipmentHealth s"
  "rng (applyEnvironmentOverride now t s) = rng s"
  "rpos (applyEnvironmentOverride now t s) = rpos s"
  by (simp_all add: applyEnvironmentOverride_def)

lemma affectEquipment_frame [simp]:
  "rng (affectEquipment t i s) = rng s"
  "map fst (equipmentHealth (affectEquipment t i s)) = map fst (equipmentHealth s)"
  "length (anomalies (affectEquipment t i s)) = length (anomalies s)"
  by (simp_all add: affectEquipment_def Let_def case_prod_beta split: location.split)

lemma generateAnomaly_frame [simp]:
  "rng (generateAnomaly now selected s) = rng s"
  "map fst (equipmentHealth (generateAnomaly now selected s)) = map fst (equipmentHealth s)"
  by (simp_all add: generateAnomaly_def Let_def split: option.split)

lemma clearEffects_frame [simp]:
  "rng (clearEffects now a s) = rng s"
  "map fst (equipmentHealth (clearEffects now a s)) = map fst (equipmentHealth s)"
  by (simp_all add: clearEffects_def)

lemma checkAnomaly_frame [simp]:
  "rng (checkAnomaly now i s) = rng s"
  "map fst (equipmentHealth (checkAnomaly now i s)) = map fst (equipmentHealth s)"
  by (simp_all add: checkAnomaly_def Let_def)

lemma sweepPrefix_Suc: "sweepPrefix now (Suc k) s = checkAnomaly now k (sweepPrefix now k s)"
  by (simp add: sweepPrefix_def)

lemma sweepPrefix_0 [simp]: "sweepPrefix now 0 s = s"
  by (simp add: sweepPrefix_def)

lemma sweepPrefix_frame [simp]:
  "rng (sweepPrefix now k s) = rng s"
  "map fst (equipmentHealth (sweepPrefix now k s)) = map fst (equipmentHealth s)"
  by (induction k; simp add: sweepPrefix_Suc)+

lemma checkAnomalies_frame [simp]:
  "rng (checkAnomalies now s) = rng s"
  "map fst (equipmentHealth (checkAnomalies now s)) = map fst (equipmentHealth s)"
  by (simp_all add: checkAnomalies_def)

lemma correctAnomaly_frame [simp]:
  "rng (correctAnomaly now anomalyId s) = rng s"
  "map fst (equipmentHealth (correctAnomaly now anomalyId s)) = map fst (equipmentHealth s)"
  by (simp_all add: correctAnomaly_def Let_def split: option.split)

text \<open>The state an outcome carries, whichever way the handler ended.\<close>

lemma generateAnomalyForEquipment_rng:
  "generateAnomalyForEquipment now t k s = Completed s' \<or>
   generateAnomalyForEquipment now t k s = TypeError s' \<Longrightarrow> rng s' = rng s"
  by (auto simp: generateAnomalyForEquipment_def Let_def split: option.splits if_splits)

lemma monitorEquipment_cases:
  assumes "monitorEquipment now k s = r"
  obtains (unchanged) "r = Completed s"
  | (threw) s2 where
      "generateAnomalyForEquipment now (fst (chooseAnomalyType k s)) k
         (snd (chooseAnomalyType k s)) = TypeError s2"
      "r = TypeError s2"
  | (generated) s2 nm h where
      "generateAnomalyForEquipment now (fst (chooseAnomalyType k s)) k
         (snd (chooseAnomalyType k s)) = Completed s2"
      "r = Completed (announceAutoGenerated now (fst (chooseAnomalyType k s)) k nm h s2)"
proof (cases "map_of (equipmentHealth s) k")
  case None
  then have "r = Completed s" using assms by (simp add: monitorEquipment_def)
  then show ?thesis by (rule unchanged)
next
  case (Some equipment)
  show ?thesis
  proof (cases "status equipment = Healthy \<and> health equipment < 80 \<and> \<not> hasActiveAnomaly s k")
    case False
    then have "r = Completed s" using assms Some by (auto simp: monitorEquipment_def)
    then show ?thesis by (rule unchanged)
  next
    case True
    show ?thesis
    proof (cases "generateAnomalyForEquipment now (fst (chooseAnomalyType k s)) k
        (snd (chooseAnomalyType k s))")
      case (TypeError s2)
      moreover have "r = TypeError s2"
        using assms Some True TypeError by (simp add: monitorEquipment_def case_prod_beta)
      ultimately show ?thesis by (rule threw)
    next
      case (Completed s2)
      moreover have "r = Completed (announceAutoGenerated now (fst (chooseAnomalyType k s)) k
          (ename equipment)
          (case map_of (equipmentHealth s2) k of Some e \<Rightarrow> health e
           | None \<Rightarrow> health equipment) s2)"
        using assms Some True Completed
        by (simp add: monitorEquipment_def case_prod_beta Let_def)
      ultimately show ?thesis by (rule generated)
    qed
  qed
qed

lemma monitorEquipment_rng:
  "monitorEquipment now k s = Completed s' \<or> monitorEquipment now k s = TypeError s'
   \<Longrightarrow> rng s' = rng s"
proof -
  assume "monitorEquipment now k s = Completed s' \<or> monitorEquipment now k s = TypeError s'"
  then obtain r where r: "monitorEquipment now k s = r" "r = Completed s' \<or> r = TypeError s'"
    by auto
  from r(1) show ?thesis
  proof (cases rule: monitorEquipment_cases)
    case unchanged
    then show ?thesis using r(2) by simp
  next
    case (threw s2)
    then show ?thesis
      using r(2) generateAnomalyForEquipment_rng[OF disjI2, OF threw(1)] by simp
  next
    case (generated s2 nm h)
    then show ?thesis
      using r(2) generateAnomalyForEquipment_rng[OF disjI1, OF generated(1)] by auto
  qed
qed

lemma monitorLoop_rng [simp]: "rng (monitorLoop now ks s) = rng s"
proof (induction ks arbitrary: s)
  case Nil
  show ?case by simp
next
  case (Cons k ks)
  show ?case
  proof (cases "monitorEquipment now k s")
    case (Completed s1)
    then show ?thesis using Cons.IH[of s1] monitorEquipment_rng[of now k s s1] by simp
  next
    case (TypeError s1)
    then show ?thesis using monitorEquipment_rng[of now k s s1] by simp
  qed
qed

lemma degradeLoop_frame [simp]:
  "rng (degradeLoop ks s) = rng s"
  "anomalies (degradeLoop ks s) = anomalies s"
  by (induction ks s rule: degradeLoop.induct; simp)+

lemma resetEquipment_frame [simp]:
  "rng (resetEquipment ks s) = rng s"
  "anomalies (resetEquipment ks s) = anomalies s"
  by (induction ks s rule: resetEquipment.induct; simp)+

lemma createEquipment_frame [simp]:
  "rng (createEquipment ks s) = rng s"
  "anomalies (createEquipment ks s) = anomalies s"
  by (induction ks s rule: createEquipment.induct; simp)+

lemma initializeSystemState_frame [simp]:
  "rng (initializeSystemState now preserveLogs s) = rng s"
  "anomalies (initializeSystemState now preserveLogs s) = []"
  by (simp_all add: initializeSystemState_def Let_def)

lemma handle_rng [simp]: "rng (handle now e s) = rng s"
  by (cases e)
    (simp_all add: monitorEquipmentHealth_def degradeEquipmentHealth_def Let_def
      handleTimeChange_def resetTime_def)

lemma reachable_randomSource: "reachable s \<Longrightarrow> randomSource (rng s)"
  by (induction rule: reachable.induct)
    (simp_all add: init_def initializeEquipment_def initialState_def)

lemma capacity_frame [simp]:
  "capacity (skip n s) = capacity s"
  "capacity (modifyAnomaly i f s) = capacity s"
  "environmentalFactors (modifyAnomaly i f s) = environmentalFactors s"
  "capacity (applyEnvironmentOverride now t s) = capacity s"
  "environmentalFactors (applyEnvironmentOverride now t s) = environmentalFactors s"
  by (simp_all add: skip_def modifyAnomaly_def applyEnvironmentOverride_def)

lemma selectPanels_environment [simp]:
  "environmentalFactors (snd (selectPanels n claim ids affected s)) = environmentalFactors s"
  "capacity (snd (selectPanels n claim ids affected s)) = capacity s"
  by (induction n claim ids affected s rule: selectPanels.induct; simp add: Let_def)+

lemma affectEquipment_environment [simp]:
  "environmentalFactors (affectEquipment t i s) = environmentalFactors s"
  "anomalyOverrides (affectEquipment t i s) = anomalyOverrides s"
  "capacity (affectEquipment t i s) = capacity s"
  by (simp_all add: affectEquipment_def Let_def case_prod_beta split: location.split)

lemma generateAnomaly_environment [simp]:
  "environmentalFactors (generateAnomaly now selected s) = environmentalFactors s"
  "capacity (generateAnomaly now selected s) = capacity s"
  "selected \<noteq> Some DustStorm \<Longrightarrow> selected \<noteq> Some CloudCover
   \<Longrightarrow> anomalyOverrides (generateAnomaly now selected s) = anomalyOverrides s"
  by (simp_all add: generateAnomaly_def Let_def applyEnvironmentOverride_def split: option.split)

section \<open>Equipment health stays within bounds\<close>

lemma allHealthInRange_frame [simp]:
  "allHealthInRange (updateSimulation now s) = allHealthInRange s"
  "allHealthInRange (log' now msg ty s) = allHealthInRange s"
  "allHealthInRange (addAlert now msg sev s) = allHealthInRange s"
  "allHealthInRange (skip n s) = allHealthInRange s"
  "allHealthInRange (modifyAnomaly i f s) = allHealthInRange s"
  "allHealthInRange (announceTimeout now a s) = allHealthInRange s"
  "allHealthInRange (announceEscalation now a level t s) = allHealthInRange s"
  "allHealthInRange (applyEnvironmentOverride now ty' s) = allHealthInRange s"
  "allHealthInRange (s\<lparr>anomalyOverrides := ov\<rparr>) = allHealthInRange s"
  "allHealthInRange (s\<lparr>anomalies := as\<rparr>) = allHealthInRange s"
  "allHealthInRange (s\<lparr>simulationTime := st\<rparr>) = allHealthInRange s"
  "allHealthInRange (s\<lparr>environmentalFactors := ef\<rparr>) = allHealthInRange s"
  "allHealthInRange (s\<lparr>logs := lg\<rparr>) = allHealthInRange s"
  by (simp_all add: allHealthInRange_def)

lemma modifyEquipment_within:
  "list_all (\<lambda>entry. healthInRange (snd entry)) xs
   \<Longrightarrow> (\<And>e. healthInRange e \<Longrightarrow> healthInRange (f e))
   \<Longrightarrow> list_all (\<lambda>entry. healthInRange (snd entry)) (modifyEquipment k f xs)"
  by (induction xs) auto

lemma claims_within:
  "healthInRange e \<Longrightarrow> healthInRange (claimPanel t i e)"
  "healthInRange e \<Longrightarrow> healthInRange (claimAfterStorm i e)"
  "healthInRange e \<Longrightarrow> healthInRange (claimForEquipment t i e)"
  by (auto simp: healthInRange_def claimPanel_def claimAfterStorm_def claimForEquipment_def
      Let_def)

lemma randomSource_draw: "randomSource (rng s) \<Longrightarrow> 0 \<le> draw k s \<and> draw k s < 1"
  by (simp add: randomSource_def draw_def)

lemma selectPanels_within:
  "(\<And>e. healthInRange e \<Longrightarrow> healthInRange (claim e)) \<Longrightarrow> allHealthInRange s
   \<Longrightarrow> allHealthInRange (snd (selectPanels n claim ids affected s))"
proof (induction n claim ids affected s rule: selectPanels.induct)
  case (1 claim ids affected s)
  then show ?case by simp
next
  case (2 n claim ids affected s)
  let ?j = "floorRandom (draw 0 s) (length ids)"
  have a: "allHealthInRange (skip 1 s)"
    using "2.prems"(2) by (simp add: allHealthInRange_def)
  have b: "allHealthInRange
      ((skip 1 s)\<lparr>equipmentHealth :=
          modifyEquipment (ids ! ?j) claim (equipmentHealth (skip 1 s))\<rparr>)"
    using "2.prems" by (simp add: allHealthInRange_def modifyEquipment_within)
  show ?case
    using "2.IH"(1)[OF refl refl _ "2.prems"(1) b] "2.IH"(2)[OF refl refl _ "2.prems"(1) a]
    by (simp add: Let_def)
qed

lemma restoreEquipment_within:
  "randomSource (rng s) \<Longrightarrow> allHealthInRange s \<Longrightarrow> allHealthInRange (restoreEquipment ks s)"
proof (induction ks s rule: restoreEquipment.induct)
  case (1 s)
  then show ?case by simp
next
  case (2 k rest s)
  have d: "0 \<le> draw 0 s \<and> draw 0 s < 1"
    using "2.prems"(1) by (rule randomSource_draw)
  have "allHealthInRange
      ((skip 1 s)\<lparr>equipmentHealth :=
          modifyEquipment k
            (\<lambda>e. e\<lparr>status := Healthy, anomalyRef := None, issues := [],
                    health := 96 + draw 0 s * 4\<rparr>)
            (equipmentHealth s)\<rparr>)"
    using "2.prems"(2) d unfolding allHealthInRange_def
    by (simp, intro modifyEquipment_within) (simp_all add: healthInRange_def)
  then show ?case using "2.IH" "2.prems" by simp
qed

lemma generateDustAccumulationAfterStorm_within:
  "allHealthInRange s \<Longrightarrow> allHealthInRange (generateDustAccumulationAfterStorm now s)"
proof -
  assume a: "allHealthInRange s"
  have "allHealthInRange (skip 1 s)" using a by (simp add: allHealthInRange_def)
  then have "allHealthInRange
      (snd (selectPanels (min (floorRandom (draw 0 s) 5 + 4) (length (panelIds s)))
              (claimAfterStorm now) (panelIds s) [] (skip 1 s)))"
    by (intro selectPanels_within claims_within)
  then show ?thesis
    by (simp add: generateDustAccumulationAfterStorm_def Let_def case_prod_beta
        allHealthInRange_def newAnomaly_def)
qed

lemma affectEquipment_within:
  "allHealthInRange s \<Longrightarrow> allHealthInRange (affectEquipment t i s)"
proof -
  assume a: "allHealthInRange s"
  have "allHealthInRange (skip 4 s)" using a by (simp add: allHealthInRange_def)
  then have p: "allHealthInRange
      (snd (selectPanels n (claimPanel t j) ids [] (skip 4 s)))" for n j ids
    by (intro selectPanels_within claims_within)
  have q: "list_all (\<lambda>entry. healthInRange (snd entry))
      (modifyEquipment k (\<lambda>e. e\<lparr>status := Faulty, anomalyRef := r,
          health := max 30 (health e - 40)\<rparr>) (equipmentHealth s))" for k r
    using a unfolding allHealthInRange_def
    by (intro modifyEquipment_within) (simp_all add: healthInRange_def)
  consider (panel) "t = PanelFault \<or> t = DustAccumulation"
    | (inverter) "t = InverterOverload" | (other) "t = DustStorm \<or> t = CloudCover"
    by (cases t) auto
  then show ?thesis
  proof cases
    case panel
    then show ?thesis using p
      by (simp add: affectEquipment_def Let_def case_prod_beta allHealthInRange_def)
  next
    case inverter
    show ?thesis
    proof (cases "location (anomalies s ! i)")
      case (InverterUnit n)
      then show ?thesis using inverter q
        by (simp add: affectEquipment_def Let_def allHealthInRange_def)
    qed (use inverter a in \<open>simp_all add: affectEquipment_def\<close>)
  next
    case other
    then show ?thesis using a by (auto simp: affectEquipment_def)
  qed
qed

lemma generateAnomaly_within:
  "allHealthInRange s \<Longrightarrow> allHealthInRange (generateAnomaly now selected s)"
proof (cases selected)
  case None
  assume "allHealthInRange s"
  then show ?thesis using None by (simp add: generateAnomaly_def allHealthInRange_def)
next
  case (Some t)
  assume a: "allHealthInRange s"
  show ?thesis using Some a
    by (simp add: generateAnomaly_def Let_def affectEquipment_within)
qed

lemma clearEffects_within:
  "randomSource (rng s) \<Longrightarrow> allHealthInRange s \<Longrightarrow> allHealthInRange (clearEffects now a s)"
  by (simp add: clearEffects_def restoreEquipment_within
      generateDustAccumulationAfterStorm_within)

lemma checkAnomaly_within:
  "randomSource (rng s) \<Longrightarrow> allHealthInRange s \<Longrightarrow> allHealthInRange (checkAnomaly now i s)"
  by (simp add: checkAnomaly_def Let_def clearEffects_within)

lemma sweepPrefix_within:
  "randomSource (rng s) \<Longrightarrow> allHealthInRange s \<Longrightarrow> allHealthInRange (sweepPrefix now k s)"
  by (induction k) (simp_all add: sweepPrefix_Suc checkAnomaly_within)

lemma checkAnomalies_within:
  "randomSource (rng s) \<Longrightarrow> allHealthInRange s \<Longrightarrow> allHealthInRange (checkAnomalies now s)"
  by (simp add: checkAnomalies_def sweepPrefix_within)

lemma correctAnomaly_within:
  "randomSource (rng s) \<Longrightarrow> allHealthInRange s
   \<Longrightarrow> allHealthInRange (correctAnomaly now anomalyId s)"
  by (simp add: correctAnomaly_def Let_def clearEffects_within
      split: option.split)

lemma generateAnomalyForEquipment_within:
  "allHealthInRange s \<Longrightarrow>
   generateAnomalyForEquipment now t k s = Completed s'
     \<or> generateAnomalyForEquipment now t k s = TypeError s'
   \<Longrightarrow> allHealthInRange s'"
proof -
  assume a: "allHealthInRange s"
    and g: "generateAnomalyForEquipment now t k s = Completed s'
      \<or> generateAnomalyForEquipment now t k s = TypeError s'"
  have m: "list_all (\<lambda>entry. healthInRange (snd entry))
      (modifyEquipment k (claimForEquipment t j) (equipmentHealth s))" for j
    using a unfolding allHealthInRange_def by (intro modifyEquipment_within claims_within)
  from g show ?thesis
    using a m
    by (auto simp: generateAnomalyForEquipment_def Let_def allHealthInRange_def
        split: option.splits if_splits)
qed

lemma monitorEquipment_within:
  "allHealthInRange s \<Longrightarrow>
   monitorEquipment now k s = Completed s' \<or> monitorEquipment now k s = TypeError s'
   \<Longrightarrow> allHealthInRange s'"
proof -
  assume a: "allHealthInRange s"
    and "monitorEquipment now k s = Completed s' \<or> monitorEquipment now k s = TypeError s'"
  then obtain r where r: "monitorEquipment now k s = r" "r = Completed s' \<or> r = TypeError s'"
    by auto
  have b: "allHealthInRange (snd (chooseAnomalyType k s))"
    using a by (simp add: allHealthInRange_def)
  from r(1) show ?thesis
  proof (cases rule: monitorEquipment_cases)
    case unchanged
    then show ?thesis using r(2) a by simp
  next
    case (threw s2)
    then show ?thesis
      using r(2) generateAnomalyForEquipment_within[OF b disjI2, OF threw(1)] by simp
  next
    case (generated s2 nm h)
    then show ?thesis
      using r(2) generateAnomalyForEquipment_within[OF b disjI1, OF generated(1)]
      by (auto simp: allHealthInRange_def)
  qed
qed

lemma monitorLoop_within:
  "allHealthInRange s \<Longrightarrow> allHealthInRange (monitorLoop now ks s)"
proof (induction ks arbitrary: s)
  case Nil
  then show ?case by simp
next
  case (Cons k ks)
  show ?case
  proof (cases "monitorEquipment now k s")
    case (Completed s1)
    then have "allHealthInRange s1"
      using monitorEquipment_within[OF Cons.prems, of now k s1] by simp
    then show ?thesis using Completed Cons.IH by simp
  next
    case (TypeError s1)
    then have "allHealthInRange s1"
      using monitorEquipment_within[OF Cons.prems, of now k s1] by simp
    then show ?thesis using TypeError by simp
  qed
qed

lemma degradeLoop_within:
  "randomSource (rng s) \<Longrightarrow> allHealthInRange s \<Longrightarrow> allHealthInRange (degradeLoop ks s)"
proof (induction ks s rule: degradeLoop.induct)
  case (1 s)
  then show ?case by simp
next
  case (2 k rest s)
  have d: "0 \<le> draw 0 s \<and> draw 0 s < 1"
    using "2.prems"(1) by (rule randomSource_draw)
  have "allHealthInRange
      ((skip 1 s)\<lparr>equipmentHealth :=
          modifyEquipment k (\<lambda>e. e\<lparr>health := max 75 (health e - (0.1 + draw 0 s * 0.4))\<rparr>)
            (equipmentHealth s)\<rparr>)"
    using "2.prems"(2) d unfolding allHealthInRange_def
    by (simp, intro modifyEquipment_within) (auto simp: healthInRange_def)
  then show ?case using "2.IH" "2.prems" by simp
qed

lemma resetEquipment_within:
  "randomSource (rng s) \<Longrightarrow> allHealthInRange s \<Longrightarrow> allHealthInRange (resetEquipment ks s)"
proof (induction ks s rule: resetEquipment.induct)
  case (1 s)
  then show ?case by simp
next
  case (2 k rest s)
  have d: "0 \<le> draw 0 s \<and> draw 0 s < 1"
    using "2.prems"(1) by (rule randomSource_draw)
  have "allHealthInRange
      ((skip 1 s)\<lparr>equipmentHealth :=
          modifyEquipment k
            (\<lambda>e. e\<lparr>health := 95 + draw 0 s * 5, status := Healthy, anomalyRef := None,
                    issues := []\<rparr>)
            (equipmentHealth s)\<rparr>)"
    using "2.prems"(2) d unfolding allHealthInRange_def
    by (simp, intro modifyEquipment_within) (auto simp: healthInRange_def)
  then show ?case using "2.IH" "2.prems" by simp
qed

lemma createEquipment_within:
  "randomSource (rng s) \<Longrightarrow> allHealthInRange s \<Longrightarrow> allHealthInRange (createEquipment ks s)"
proof (induction ks s rule: createEquipment.induct)
  case (1 s)
  then show ?case by simp
next
  case (2 k rest s)
  have d: "0 \<le> draw 0 s \<and> draw 0 s < 1"
    using "2.prems"(1) by (rule randomSource_draw)
  have "allHealthInRange
      ((skip 1 s)\<lparr>equipmentHealth :=
          equipmentHealth s
            @ [(k, \<lparr>ename = k, health = 95 + draw 0 s * 5, status = Healthy, issues = [],
                    anomalyRef = None\<rparr>)]\<rparr>)"
    using "2.prems"(2) d by (simp add: allHealthInRange_def healthInRange_def)
  then show ?case using "2.IH" "2.prems" by simp
qed

lemma initializeSystemState_within:
  "randomSource (rng s) \<Longrightarrow> allHealthInRange s
   \<Longrightarrow> allHealthInRange (initializeSystemState now preserveLogs s)"
proof -
  assume r: "randomSource (rng s)" and a: "allHealthInRange s"
  let ?s1 = "s\<lparr>currentGeneration := 0, dailyCumulative := 0,
      lastUpdateTime := getCurrentTime now s, anomalies := []\<rparr>"
  have "allHealthInRange (resetEquipment (map fst (equipmentHealth ?s1)) ?s1)"
    using r a by (intro resetEquipment_within) (simp_all add: allHealthInRange_def)
  then show ?thesis
    by (simp add: initializeSystemState_def Let_def allHealthInRange_def)
qed

lemma plain_handlers_within [simp]:
  "allHealthInRange (tick now s) = allHealthInRange s"
  "allHealthInRange (advanceTime now s) = allHealthInRange s"
  "allHealthInRange (updateEnvironmentalFactors now s) = allHealthInRange s"
  "allHealthInRange (toggleManualControl now checked s) = allHealthInRange s"
  "allHealthInRange (resetEnvironment now s) = allHealthInRange s"
  "allHealthInRange (updateFactor now f numValue s) = allHealthInRange s"
  "allHealthInRange (generateRandomEvent now s) = allHealthInRange s"
  by (simp_all add: allHealthInRange_def)

lemma handle_within:
  "randomSource (rng s) \<Longrightarrow> allHealthInRange s \<Longrightarrow> allHealthInRange (handle now e s)"
proof (cases e)
  case (Degradation shuffled comparisons)
  assume "randomSource (rng s)" "allHealthInRange s"
  then show ?thesis using Degradation
    by (simp add: degradeEquipmentHealth_def Let_def degradeLoop_within)
next
  case (TimeChange hours minutes)
  assume "randomSource (rng s)" "allHealthInRange s"
  then show ?thesis using TimeChange
    by (simp add: handleTimeChange_def Let_def initializeSystemState_within)
next
  case TimeReset
  assume "randomSource (rng s)" "allHealthInRange s"
  then show ?thesis using TimeReset
    by (simp add: resetTime_def Let_def initializeSystemState_within)
qed (simp_all add: checkAnomalies_within correctAnomaly_within generateAnomaly_within
      monitorEquipmentHealth_def monitorLoop_within)

lemma reachable_allHealthInRange: "reachable s \<Longrightarrow> allHealthInRange s"
proof (induction rule: reachable.induct)
  case (reachable_init source now loaded)
  have "allHealthInRange (createEquipment equipmentIds (initialState loaded source))"
    using reachable_init
    by (intro createEquipment_within) (simp_all add: initialState_def allHealthInRange_def)
  then show ?case by (simp add: init_def initializeEquipment_def)
next
  case (reachable_handle s e now)
  then show ?case by (intro handle_within reachable_randomSource)
qed

section \<open>The anomaly list after each handler\<close>

lemma cascadeAnomaly_withinCap: "cascadeAnomaly now a \<Longrightarrow> escalationWithinCap a"
  by (simp add: cascadeAnomaly_def escalationWithinCap_def)

lemma anomalyAfterCheck_withinCap:
  "escalationWithinCap a \<Longrightarrow> escalationWithinCap (anomalyAfterCheck now a)"
  by (simp add: anomalyAfterCheck_def escalationWithinCap_def)

lemma anomalyAfterCheck_atype [simp]: "atype (anomalyAfterCheck now a) = atype a"
  by (simp add: anomalyAfterCheck_def)

lemma generateDustAccumulationAfterStorm_anomalies:
  "anomalies (generateDustAccumulationAfterStorm now s) =
     anomalies s
       @ [(newAnomaly now DustAccumulation
             (''Dust Accumulation'', MultipleSections, 10, Warning) now)
          \<lparr>affectedEquipment :=
              fst (selectPanels (min (floorRandom (draw 0 s) 5 + 4) (length (panelIds s)))
                     (claimAfterStorm now) (panelIds s) [] (skip 1 s)),
            causedBy := Some DustStorm\<rparr>]"
  by (simp add: generateDustAccumulationAfterStorm_def Let_def case_prod_beta newAnomaly_def)

lemma generateDustAccumulationAfterStorm_appends:
  "\<exists>a. anomalies (generateDustAccumulationAfterStorm now s) = anomalies s @ [a]
       \<and> cascadeAnomaly now a"
  by (simp add: generateDustAccumulationAfterStorm_anomalies cascadeAnomaly_def newAnomaly_def)

lemma clearEffects_appends:
  "\<exists>ext. anomalies (clearEffects now a s) = anomalies s @ ext
         \<and> list_all (cascadeAnomaly now) ext"
proof (cases "atype a = DustStorm")
  case True
  obtain x where "anomalies (generateDustAccumulationAfterStorm now
        (updateSimulation now (s\<lparr>anomalyOverrides := (anomalyOverrides s)\<lparr>dustOverride := None\<rparr>\<rparr>)))
      = anomalies s @ [x]" and "cascadeAnomaly now x"
    using generateDustAccumulationAfterStorm_appends[of now
        "updateSimulation now (s\<lparr>anomalyOverrides := (anomalyOverrides s)\<lparr>dustOverride := None\<rparr>\<rparr>)"]
    by auto
  then show ?thesis using True
    by (intro exI[of _ "[x]"]) (simp add: clearEffects_def)
next
  case False
  then show ?thesis
    by (intro exI[of _ "[]"]) (simp add: clearEffects_def)
qed

lemma checkAnomaly_anomalies:
  "\<exists>ext. anomalies (checkAnomaly now i s)
           = (anomalies s)[i := anomalyAfterCheck now (anomalies s ! i)] @ ext
         \<and> list_all (cascadeAnomaly now) ext"
proof -
  let ?a = "anomalies s ! i"
  consider (resolve) "active ?a" "real_of_int (now - timestamp ?a) / 1000 \<ge> 200"
    | (escalate) "active ?a" "\<not> real_of_int (now - timestamp ?a) / 1000 \<ge> 200"
        "real_of_int (now - lastEscalation ?a) / 1000 \<ge> 60 \<and> escalationLevel ?a < 3
         \<and> escalationLevel ?a < maxEscalation (atype ?a)"
    | (idle) "\<not> active ?a \<or> (\<not> real_of_int (now - timestamp ?a) / 1000 \<ge> 200
        \<and> \<not> (real_of_int (now - lastEscalation ?a) / 1000 \<ge> 60 \<and> escalationLevel ?a < 3
         \<and> escalationLevel ?a < maxEscalation (atype ?a)))"
    by blast
  then show ?thesis
  proof cases
    case resolve
    let ?s1 = "announceTimeout now ?a
        (modifyAnomaly i
           (\<lambda>a. a\<lparr>active := False, resolvedAt := Some now, resolvedBy := Some ByAutoTimeout\<rparr>) s)"
    obtain ext where "anomalies (clearEffects now ?a ?s1) = anomalies ?s1 @ ext"
      and "list_all (cascadeAnomaly now) ext"
      using clearEffects_appends by blast
    then show ?thesis using resolve
      by (intro exI[of _ ext]) (simp add: checkAnomaly_def anomalyAfterCheck_def Let_def)
  next
    case escalate
    then show ?thesis
      by (intro exI[of _ "[]"]) (simp add: checkAnomaly_def anomalyAfterCheck_def Let_def)
  next
    case idle
    then show ?thesis
      by (intro exI[of _ "[]"]) (auto simp: checkAnomaly_def anomalyAfterCheck_def Let_def)
  qed
qed

lemma checked_prefix_step:
  assumes "k < length xs"
  shows "(map f (take k xs) @ drop k xs)[k := f (xs ! k)]
           = map f (take (Suc k) xs) @ drop (Suc k) xs"
proof -
  have d: "drop k xs = xs ! k # drop (Suc k) xs"
    using assms by (simp add: Cons_nth_drop_Suc)
  have l: "length (map f (take k xs)) = k" using assms by simp
  have "(map f (take k xs) @ drop k xs)[k := f (xs ! k)]
      = map f (take k xs) @ (drop k xs)[0 := f (xs ! k)]"
    using l by (simp add: list_update_append)
  also have "\<dots> = map f (take k xs) @ f (xs ! k) # drop (Suc k) xs"
    using d by simp
  also have "\<dots> = map f (take (Suc k) xs) @ drop (Suc k) xs"
    using assms by (simp add: take_Suc_conv_app_nth)
  finally show ?thesis .
qed

lemma sweepPrefix_anomalies:
  "k \<le> length (anomalies s) \<Longrightarrow>
   \<exists>ext. anomalies (sweepPrefix now k s)
           = (map (anomalyAfterCheck now) (take k (anomalies s)) @ drop k (anomalies s)) @ ext
         \<and> list_all (cascadeAnomaly now) ext"
proof (induction k)
  case 0
  show ?case by (intro exI[of _ "[]"]) simp
next
  case (Suc k)
  let ?xs = "anomalies s" and ?f = "anomalyAfterCheck now"
  let ?p = "sweepPrefix now k s"
  from Suc obtain ext where p: "anomalies ?p = (map ?f (take k ?xs) @ drop k ?xs) @ ext"
    and e: "list_all (cascadeAnomaly now) ext"
    by auto
  have k: "k < length ?xs" using Suc.prems by simp
  have len: "length (map ?f (take k ?xs) @ drop k ?xs) = length ?xs" by simp
  have at: "anomalies ?p ! k = ?xs ! k"
    using k p by (simp add: nth_append)
  obtain ext' where q: "anomalies (checkAnomaly now k ?p)
        = (anomalies ?p)[k := ?f (anomalies ?p ! k)] @ ext'"
    and e': "list_all (cascadeAnomaly now) ext'"
    using checkAnomaly_anomalies by blast
  have "(anomalies ?p)[k := ?f (?xs ! k)]
      = (map ?f (take k ?xs) @ drop k ?xs)[k := ?f (?xs ! k)] @ ext"
    using k p len by (simp add: list_update_append)
  also have "\<dots> = (map ?f (take (Suc k) ?xs) @ drop (Suc k) ?xs) @ ext"
    using k by (simp only: checked_prefix_step)
  finally have "anomalies (checkAnomaly now k ?p)
      = (map ?f (take (Suc k) ?xs) @ drop (Suc k) ?xs) @ (ext @ ext')"
    using q at by simp
  then show ?case using e e'
    by (intro exI[of _ "ext @ ext'"]) (simp add: sweepPrefix_Suc)
qed

lemma checkAnomalies_anomalies:
  "\<exists>ext. anomalies (checkAnomalies now s) = map (anomalyAfterCheck now) (anomalies s) @ ext
         \<and> list_all (cascadeAnomaly now) ext"
  using sweepPrefix_anomalies[of "length (anomalies s)" s now]
  by (simp add: checkAnomalies_def)

section \<open>Anomalies appended by the handlers\<close>

lemma affectEquipment_anomalies:
  "\<exists>loc aff. anomalies (affectEquipment t i s)
      = (anomalies s)[i := (anomalies s ! i)\<lparr>affectedEquipment := aff, location := loc\<rparr>]"
proof -
  let ?a = "anomalies s ! i"
  have same: "\<exists>loc aff. anomalies s
      = (anomalies s)[i := ?a\<lparr>affectedEquipment := aff, location := loc\<rparr>]"
    by (intro exI[of _ "location ?a"] exI[of _ "affectedEquipment ?a"]) simp
  consider (panel) "t = PanelFault \<or> t = DustAccumulation"
    | (inverter) "t = InverterOverload" | (other) "t = DustStorm \<or> t = CloudCover"
    by (cases t) auto
  then show ?thesis
  proof cases
    case panel
    let ?loc = "SectionCell (floorRandom (draw 0 s) 8 + 1) (floorRandom (draw 1 s) 8 + 1)"
    let ?aff = "fst (selectPanels (min (floorRandom (draw 3 s) 3 + 2) (length (panelIds s)))
        (claimPanel t (aid ?a)) (panelIds s) [] (skip 4 s))"
    show ?thesis using panel
      by (intro exI[of _ ?loc] exI[of _ ?aff])
        (simp add: affectEquipment_def Let_def case_prod_beta)
  next
    case inverter
    show ?thesis
    proof (cases "location ?a")
      case (InverterUnit n)
      have eq: "?a\<lparr>affectedEquipment := [(Inverter, n)], location := InverterUnit n\<rparr>
          = ?a\<lparr>affectedEquipment := [(Inverter, n)]\<rparr>"
        using InverterUnit by (cases ?a) simp
      have "anomalies (affectEquipment t i s)
          = (anomalies s)[i := ?a\<lparr>affectedEquipment := [(Inverter, n)]\<rparr>]"
        using inverter InverterUnit by (simp add: affectEquipment_def Let_def)
      also have "\<dots> = (anomalies s)[i := ?a\<lparr>affectedEquipment := [(Inverter, n)],
          location := InverterUnit n\<rparr>]"
        by (simp only: eq)
      finally show ?thesis by blast
    qed (use inverter same in \<open>simp_all add: affectEquipment_def\<close>)
  next
    case other
    then show ?thesis using same by (auto simp: affectEquipment_def)
  qed
qed

lemma findIndex_less: "findIndex P xs = Some i \<Longrightarrow> i < length xs"
  by (induction xs arbitrary: i) (auto split: if_splits)

lemma generateAnomaly_anomalies:
  "\<exists>a. anomalies (generateAnomaly now (Some t) s) = anomalies s @ [a]
       \<and> aid a = now \<and> atype a = t \<and> active a \<and> escalationLevel a = 0
       \<and> timestamp a = now \<and> impact a = impactOf t"
proof -
  let ?new = "newAnomaly now t (anomalyTypes (draw 0 s) (draw 1 s) (draw 2 s) t) now"
  let ?s2 = "applyEnvironmentOverride now t ((skip 3 s)\<lparr>anomalies := anomalies s @ [?new]\<rparr>)"
  obtain loc aff where
    "anomalies (affectEquipment t (length (anomalies s)) ?s2)
      = (anomalies ?s2)[length (anomalies s) :=
          (anomalies ?s2 ! length (anomalies s))\<lparr>affectedEquipment := aff, location := loc\<rparr>]"
    using affectEquipment_anomalies by blast
  then have "anomalies (affectEquipment t (length (anomalies s)) ?s2)
      = anomalies s @ [?new\<lparr>affectedEquipment := aff, location := loc\<rparr>]"
    by simp
  moreover have "impact ?new = impactOf t"
    by (cases t) (simp_all add: newAnomaly_def anomalyTypes_def impactOf_def)
  ultimately show ?thesis
    by (intro exI[of _ "?new\<lparr>affectedEquipment := aff, location := loc\<rparr>"])
      (simp add: generateAnomaly_def Let_def newAnomaly_def)
qed

lemma generateAnomaly_None_anomalies [simp]:
  "anomalies (generateAnomaly now None s) = anomalies s"
  by (simp add: generateAnomaly_def)

lemma correctAnomaly_anomalies:
  "\<exists>ext. anomalies (correctAnomaly now anomalyId s)
      = (case findIndex (\<lambda>a. aid a = anomalyId) (anomalies s) of
           None \<Rightarrow> anomalies s
         | Some i \<Rightarrow>
             if active (anomalies s ! i)
             then (anomalies s)[i := (anomalies s ! i)
                    \<lparr>active := False, resolvedAt := Some now, resolvedBy := Some ByUser\<rparr>]
             else anomalies s) @ ext
      \<and> list_all (cascadeAnomaly now) ext"
proof (cases "findIndex (\<lambda>a. aid a = anomalyId) (anomalies s)")
  case None
  then show ?thesis by (intro exI[of _ "[]"]) (simp add: correctAnomaly_def)
next
  case (Some i)
  show ?thesis
  proof (cases "active (anomalies s ! i)")
    case False
    then show ?thesis using Some by (intro exI[of _ "[]"]) (simp add: correctAnomaly_def)
  next
    case True
    let ?a = "anomalies s ! i"
    let ?s3 = "log' now [Txt ''Anomaly manually corrected: '', Txt (aname ?a)] LogResolution
        (addAlert now [Txt ''Anomaly corrected: '', Txt (aname ?a)] Info
           (modifyAnomaly i
              (\<lambda>a. a\<lparr>active := False, resolvedAt := Some now, resolvedBy := Some ByUser\<rparr>) s))"
    obtain ext where "anomalies (clearEffects now ?a ?s3) = anomalies ?s3 @ ext"
      and "list_all (cascadeAnomaly now) ext"
      using clearEffects_appends by blast
    then show ?thesis using Some True
      by (intro exI[of _ ext]) (simp add: correctAnomaly_def Let_def)
  qed
qed

lemma generateAnomalyForEquipment_anomalies:
  "generateAnomalyForEquipment now t k s = Completed s' \<Longrightarrow>
   \<exists>a. anomalies s' = anomalies s @ [a] \<and> aid a = int (length (anomalies s)) + 1
       \<and> atype a = t \<and> active a \<and> escalationLevel a = 0 \<and> affectedEquipment a = [k]"
  by (auto simp: generateAnomalyForEquipment_def Let_def newAnomaly_def
      split: option.splits if_splits)

lemma generateAnomalyForEquipment_TypeError_anomalies:
  "generateAnomalyForEquipment now t k s = TypeError s' \<Longrightarrow> anomalies s' = anomalies s"
  by (auto simp: generateAnomalyForEquipment_def Let_def split: option.splits if_splits)

section \<open>Escalation stays within the cap\<close>

lemma list_all_update:
  "list_all P xs \<Longrightarrow> P y \<Longrightarrow> list_all P (xs[i := y])"
  using set_update_subset_insert[of xs i y] by (auto simp: list_all_iff)

lemma cascade_ext_withinCap:
  "list_all (cascadeAnomaly now) ext \<Longrightarrow> list_all escalationWithinCap ext"
  by (auto simp: list_all_iff cascadeAnomaly_withinCap)

lemma checkAnomalies_withinCap:
  "list_all escalationWithinCap (anomalies s)
   \<Longrightarrow> list_all escalationWithinCap (anomalies (checkAnomalies now s))"
proof -
  assume a: "list_all escalationWithinCap (anomalies s)"
  obtain ext where e: "anomalies (checkAnomalies now s)
      = map (anomalyAfterCheck now) (anomalies s) @ ext"
    and c: "list_all (cascadeAnomaly now) ext"
    using checkAnomalies_anomalies by blast
  have "list_all escalationWithinCap (map (anomalyAfterCheck now) (anomalies s))"
    using a by (auto simp: list_all_iff anomalyAfterCheck_withinCap)
  then show ?thesis using e cascade_ext_withinCap[OF c] by simp
qed

lemma generateAnomaly_withinCap:
  "list_all escalationWithinCap (anomalies s)
   \<Longrightarrow> list_all escalationWithinCap (anomalies (generateAnomaly now selected s))"
proof (cases selected)
  case None
  assume "list_all escalationWithinCap (anomalies s)"
  then show ?thesis using None by simp
next
  case (Some t)
  assume a: "list_all escalationWithinCap (anomalies s)"
  obtain x where "anomalies (generateAnomaly now (Some t) s) = anomalies s @ [x]"
    and "escalationLevel x = 0"
    using generateAnomaly_anomalies by blast
  then show ?thesis using a Some by (simp add: escalationWithinCap_def)
qed

lemma correctAnomaly_withinCap:
  "list_all escalationWithinCap (anomalies s)
   \<Longrightarrow> list_all escalationWithinCap (anomalies (correctAnomaly now anomalyId s))"
proof -
  assume a: "list_all escalationWithinCap (anomalies s)"
  let ?core = "case findIndex (\<lambda>a. aid a = anomalyId) (anomalies s) of
           None \<Rightarrow> anomalies s
         | Some i \<Rightarrow>
             if active (anomalies s ! i)
             then (anomalies s)[i := (anomalies s ! i)
                    \<lparr>active := False, resolvedAt := Some now, resolvedBy := Some ByUser\<rparr>]
             else anomalies s"
  obtain ext where e: "anomalies (correctAnomaly now anomalyId s) = ?core @ ext"
    and c: "list_all (cascadeAnomaly now) ext"
    using correctAnomaly_anomalies by blast
  have "list_all escalationWithinCap ?core"
  proof (cases "findIndex (\<lambda>a. aid a = anomalyId) (anomalies s)")
    case None
    then show ?thesis using a by simp
  next
    case (Some i)
    show ?thesis
    proof (cases "active (anomalies s ! i)")
      case True
      have "i < length (anomalies s)"
        using Some by (rule findIndex_less)
      then have "escalationWithinCap (anomalies s ! i)"
        using a by (simp add: list_all_length)
      then have "escalationWithinCap ((anomalies s ! i)
          \<lparr>active := False, resolvedAt := Some now, resolvedBy := Some ByUser\<rparr>)"
        by (simp add: escalationWithinCap_def)
      then show ?thesis using Some True a by (simp add: list_all_update)
    next
      case False
      then show ?thesis using Some a by simp
    qed
  qed
  then show ?thesis using e cascade_ext_withinCap[OF c] by simp
qed

lemma monitorEquipment_withinCap:
  "list_all escalationWithinCap (anomalies s) \<Longrightarrow>
   monitorEquipment now k s = Completed s' \<or> monitorEquipment now k s = TypeError s'
   \<Longrightarrow> list_all escalationWithinCap (anomalies s')"
proof -
  assume a: "list_all escalationWithinCap (anomalies s)"
    and "monitorEquipment now k s = Completed s' \<or> monitorEquipment now k s = TypeError s'"
  then obtain r where r: "monitorEquipment now k s = r" "r = Completed s' \<or> r = TypeError s'"
    by auto
  from r(1) show ?thesis
  proof (cases rule: monitorEquipment_cases)
    case unchanged
    then show ?thesis using r(2) a by simp
  next
    case (threw s2)
    then show ?thesis
      using r(2) a generateAnomalyForEquipment_TypeError_anomalies[OF threw(1)] by simp
  next
    case (generated s2 nm h)
    obtain x where "anomalies s2 = anomalies s @ [x]" and "escalationLevel x = 0"
      using generateAnomalyForEquipment_anomalies[OF generated(1)] by auto
    then show ?thesis using r(2) a generated(2) by (auto simp: escalationWithinCap_def)
  qed
qed

lemma monitorLoop_withinCap:
  "list_all escalationWithinCap (anomalies s)
   \<Longrightarrow> list_all escalationWithinCap (anomalies (monitorLoop now ks s))"
proof (induction ks arbitrary: s)
  case Nil
  then show ?case by simp
next
  case (Cons k ks)
  show ?case
  proof (cases "monitorEquipment now k s")
    case (Completed s1)
    then have "list_all escalationWithinCap (anomalies s1)"
      using monitorEquipment_withinCap[OF Cons.prems, of now k s1] by simp
    then show ?thesis using Completed Cons.IH by simp
  next
    case (TypeError s1)
    then have "list_all escalationWithinCap (anomalies s1)"
      using monitorEquipment_withinCap[OF Cons.prems, of now k s1] by simp
    then show ?thesis using TypeError by simp
  qed
qed

lemma handle_withinCap:
  "list_all escalationWithinCap (anomalies s)
   \<Longrightarrow> list_all escalationWithinCap (anomalies (handle now e s))"
  by (cases e)
    (simp_all add: checkAnomalies_withinCap generateAnomaly_withinCap correctAnomaly_withinCap
      monitorEquipmentHealth_def monitorLoop_withinCap degradeEquipmentHealth_def Let_def
      handleTimeChange_def resetTime_def)

lemma reachable_withinCap: "reachable s \<Longrightarrow> list_all escalationWithinCap (anomalies s)"
proof (induction rule: reachable.induct)
  case (reachable_init source now loaded)
  show ?case by (simp add: init_def initializeEquipment_def initialState_def)
next
  case (reachable_handle s e now)
  then show ?case by (intro handle_withinCap)
qed

section \<open>The sweep of \<open>checkAnomalies\<close>\<close>

lemma checkAnomalies_nth:
  assumes "i < length (anomalies s)"
  shows "anomalies (checkAnomalies now s) ! i = anomalyAfterCheck now (anomalies s ! i)"
proof -
  obtain ext where "anomalies (checkAnomalies now s)
      = map (anomalyAfterCheck now) (anomalies s) @ ext"
    using checkAnomalies_anomalies by blast
  then show ?thesis using assms by (simp add: nth_append)
qed

lemma sweepPrefix_nth_pending:
  assumes "k \<le> i" and "i < length (anomalies s)"
  shows "anomalies (sweepPrefix now k s) ! i = anomalies s ! i"
proof -
  have k: "k \<le> length (anomalies s)" using assms by simp
  obtain ext where "anomalies (sweepPrefix now k s)
      = (map (anomalyAfterCheck now) (take k (anomalies s)) @ drop k (anomalies s)) @ ext"
    using sweepPrefix_anomalies[OF k] by blast
  then show ?thesis using assms by (simp add: nth_append)
qed

lemma restoreEquipment_released:
  "randomSource (rng s) \<Longrightarrow>
   k \<in> set ks \<or> (\<forall>e. map_of (equipmentHealth s) k = Some e \<longrightarrow> released e) \<Longrightarrow>
   map_of (equipmentHealth (restoreEquipment ks s)) k = Some e' \<Longrightarrow> released e'"
proof (induction ks s rule: restoreEquipment.induct)
  case (1 s)
  then show ?case by simp
next
  case (2 x rest s)
  have d: "0 \<le> draw 0 s \<and> draw 0 s < 1"
    using "2.prems"(1) by (rule randomSource_draw)
  show ?case
  proof (cases "hasEquipment s x")
    case True
    let ?f = "\<lambda>e. e\<lparr>status := Healthy, anomalyRef := None, issues := [],
        health := 96 + draw 0 s * 4\<rparr>"
    let ?s1 = "(skip 1 s)\<lparr>equipmentHealth := modifyEquipment x ?f (equipmentHealth s)\<rparr>"
    have rel: "released (?f e)" for e using d by (simp add: released_def)
    have "k \<in> set rest \<or> (\<forall>e. map_of (equipmentHealth ?s1) k = Some e \<longrightarrow> released e)"
      using "2.prems"(2) rel by (auto simp: map_of_modifyEquipment)
    moreover have "randomSource (rng ?s1)" using "2.prems"(1) by simp
    moreover have "map_of (equipmentHealth (restoreEquipment rest ?s1)) k = Some e'"
      using "2.prems"(3) True by simp
    ultimately show ?thesis using "2.IH"(1)[OF True] by blast
  next
    case False
    then have "k \<noteq> x \<or> map_of (equipmentHealth s) k = None"
      by (auto simp: hasEquipment_def)
    then have "k \<in> set rest \<or> (\<forall>e. map_of (equipmentHealth s) k = Some e \<longrightarrow> released e)"
      using "2.prems"(2) by auto
    moreover have "map_of (equipmentHealth (restoreEquipment rest s)) k = Some e'"
      using "2.prems"(3) False by simp
    ultimately show ?thesis using "2.IH"(2)[OF False] "2.prems"(1) by blast
  qed
qed

lemma clearEffects_overrides:
  "(dustOverride (anomalyOverrides s) = None \<or> atype a = DustStorm
      \<longrightarrow> dustOverride (anomalyOverrides (clearEffects now a s)) = None)
   \<and> (cloudOverride (anomalyOverrides s) = None \<or> atype a = CloudCover
      \<longrightarrow> cloudOverride (anomalyOverrides (clearEffects now a s)) = None)"
  by (cases "atype a") (simp_all add: clearEffects_def)

lemma checkAnomaly_overrides:
  "(dustOverride (anomalyOverrides s) = None
      \<longrightarrow> dustOverride (anomalyOverrides (checkAnomaly now i s)) = None)
   \<and> (cloudOverride (anomalyOverrides s) = None
      \<longrightarrow> cloudOverride (anomalyOverrides (checkAnomaly now i s)) = None)"
  using clearEffects_overrides[of "announceTimeout now (anomalies s ! i)
      (modifyAnomaly i (\<lambda>a. a\<lparr>active := False, resolvedAt := Some now,
         resolvedBy := Some ByAutoTimeout\<rparr>) s)" "anomalies s ! i" now]
  by (simp add: checkAnomaly_def Let_def)

lemma sweepPrefix_overrides:
  "j \<le> k \<Longrightarrow>
   (dustOverride (anomalyOverrides (sweepPrefix now j s)) = None
      \<longrightarrow> dustOverride (anomalyOverrides (sweepPrefix now k s)) = None)
   \<and> (cloudOverride (anomalyOverrides (sweepPrefix now j s)) = None
      \<longrightarrow> cloudOverride (anomalyOverrides (sweepPrefix now k s)) = None)"
proof (induction k)
  case 0
  then show ?case by simp
next
  case (Suc k)
  show ?case
  proof (cases "j = Suc k")
    case True
    then show ?thesis by simp
  next
    case False
    then have "j \<le> k" using Suc.prems by simp
    then show ?thesis
      using Suc.IH checkAnomaly_overrides[of "sweepPrefix now k s" now k]
      by (simp add: sweepPrefix_Suc)
  qed
qed

lemma timed_out_callback:
  assumes "active (anomalies s ! i)"
    and "real_of_int (now - timestamp (anomalies s ! i)) / 1000 \<ge> 200"
  shows "checkAnomaly now i s =
     clearEffects now (anomalies s ! i)
       (announceTimeout now (anomalies s ! i)
          (modifyAnomaly i
             (\<lambda>a. a\<lparr>active := False, resolvedAt := Some now,
                     resolvedBy := Some ByAutoTimeout\<rparr>) s))"
  using assms by (simp add: checkAnomaly_def Let_def)

section \<open>Released units during the rest of a sweep\<close>

lemma restoreEquipment_keeps:
  "randomSource (rng s) \<Longrightarrow> (\<And>e. released e \<Longrightarrow> P e) \<Longrightarrow>
   (\<forall>e. map_of (equipmentHealth s) k = Some e \<longrightarrow> P e) \<Longrightarrow>
   map_of (equipmentHealth (restoreEquipment ks s)) k = Some e' \<Longrightarrow> P e'"
proof (induction ks s rule: restoreEquipment.induct)
  case (1 s)
  then show ?case by simp
next
  case (2 x rest s)
  have d: "0 \<le> draw 0 s \<and> draw 0 s < 1"
    using "2.prems"(1) by (rule randomSource_draw)
  show ?case
  proof (cases "hasEquipment s x")
    case True
    let ?f = "\<lambda>e. e\<lparr>status := Healthy, anomalyRef := None, issues := [],
        health := 96 + draw 0 s * 4\<rparr>"
    let ?s1 = "(skip 1 s)\<lparr>equipmentHealth := modifyEquipment x ?f (equipmentHealth s)\<rparr>"
    have rel: "P (?f e)" for e using d by (intro "2.prems"(2)) (simp add: released_def)
    have "\<forall>e. map_of (equipmentHealth ?s1) k = Some e \<longrightarrow> P e"
      using "2.prems"(3) rel by (auto simp: map_of_modifyEquipment)
    moreover have "randomSource (rng ?s1)" using "2.prems"(1) by simp
    moreover have "map_of (equipmentHealth (restoreEquipment rest ?s1)) k = Some e'"
      using "2.prems"(4) True by simp
    ultimately show ?thesis using "2.IH"(1)[OF True _ "2.prems"(2)] by blast
  next
    case False
    have "map_of (equipmentHealth (restoreEquipment rest s)) k = Some e'"
      using "2.prems"(4) False by simp
    then show ?thesis using "2.IH"(2)[OF False "2.prems"(1,2,3)] by blast
  qed
qed

lemma selectPanels_keeps:
  "(\<And>e. P e \<Longrightarrow> P (claim e)) \<Longrightarrow>
   (\<forall>e. map_of (equipmentHealth s) k = Some e \<longrightarrow> P e) \<Longrightarrow>
   map_of (equipmentHealth (snd (selectPanels n claim ids affected s))) k = Some e' \<Longrightarrow> P e'"
proof (induction n claim ids affected s rule: selectPanels.induct)
  case (1 claim ids affected s)
  then show ?case by simp
next
  case (2 n claim ids affected s)
  let ?j = "floorRandom (draw 0 s) (length ids)"
  let ?s1 = "skip 1 s"
  let ?s2 = "?s1\<lparr>equipmentHealth := modifyEquipment (ids ! ?j) claim (equipmentHealth ?s1)\<rparr>"
  have a: "\<forall>e. map_of (equipmentHealth ?s1) k = Some e \<longrightarrow> P e"
    using "2.prems"(2) by simp
  have b: "\<forall>e. map_of (equipmentHealth ?s2) k = Some e \<longrightarrow> P e"
    using "2.prems"(1,2) by (auto simp: map_of_modifyEquipment)
  show ?case
  proof (cases "?j < length ids \<and> ids ! ?j \<notin> set affected \<and> hasEquipment ?s1 (ids ! ?j)")
    case True
    then have "map_of (equipmentHealth (snd (selectPanels n claim ids
        (affected @ [ids ! ?j]) ?s2))) k = Some e'"
      using "2.prems"(3) by (simp add: Let_def)
    then show ?thesis using "2.IH"(1)[OF refl refl True "2.prems"(1) b] by blast
  next
    case False
    then have "map_of (equipmentHealth (snd (selectPanels n claim ids affected ?s1))) k
        = Some e'"
      using "2.prems"(3) by (auto simp: Let_def)
    then show ?thesis using "2.IH"(2)[OF refl refl False "2.prems"(1) a] by blast
  qed
qed

lemma generateDustAccumulationAfterStorm_keeps:
  assumes "\<And>e. P e \<Longrightarrow> P (claimAfterStorm now e)"
    and "\<forall>e. map_of (equipmentHealth s) k = Some e \<longrightarrow> P e"
    and "map_of (equipmentHealth (generateDustAccumulationAfterStorm now s)) k = Some e'"
  shows "P e'"
proof -
  let ?n = "min (floorRandom (draw 0 s) 5 + 4) (length (panelIds s))"
  have "equipmentHealth (generateDustAccumulationAfterStorm now s)
      = equipmentHealth (snd (selectPanels ?n (claimAfterStorm now) (panelIds s) [] (skip 1 s)))"
    by (simp add: generateDustAccumulationAfterStorm_def Let_def case_prod_beta newAnomaly_def)
  moreover have "\<forall>e. map_of (equipmentHealth (skip 1 s)) k = Some e \<longrightarrow> P e"
    using assms(2) by simp
  ultimately show ?thesis
    using selectPanels_keeps[of P "claimAfterStorm now" "skip 1 s" k ?n "panelIds s" "[]" e']
      assms(1,3) by simp
qed

text \<open>The callback keeps a property of the unit \<open>k\<close> that a release establishes, provided
  the cascade's claim keeps it too whenever the anomaly at \<open>i\<close> is a dust storm that times
  out.\<close>

lemma checkAnomaly_keeps:
  assumes src: "randomSource (rng s)"
    and rel: "\<And>e. released e \<Longrightarrow> P e"
    and claim: "atype (anomalies s ! i) = DustStorm \<Longrightarrow> active (anomalies s ! i)
        \<Longrightarrow> real_of_int (now - timestamp (anomalies s ! i)) / 1000 \<ge> 200
        \<Longrightarrow> (\<And>e. P e \<Longrightarrow> P (claimAfterStorm now e))"
    and before: "\<forall>e. map_of (equipmentHealth s) k = Some e \<longrightarrow> P e"
    and after: "map_of (equipmentHealth (checkAnomaly now i s)) k = Some e'"
  shows "P e'"
proof -
  let ?a = "anomalies s ! i"
  let ?m = "announceTimeout now ?a
      (modifyAnomaly i (\<lambda>a. a\<lparr>active := False, resolvedAt := Some now,
         resolvedBy := Some ByAutoTimeout\<rparr>) s)"
  show ?thesis
  proof (cases "active ?a \<and> real_of_int (now - timestamp ?a) / 1000 \<ge> 200")
    case False
    then have "equipmentHealth (checkAnomaly now i s) = equipmentHealth s"
      by (auto simp: checkAnomaly_def Let_def)
    then show ?thesis using before after by simp
  next
    case True
    then have c: "checkAnomaly now i s = clearEffects now ?a ?m"
      by (simp add: timed_out_callback)
    have m: "\<forall>e. map_of (equipmentHealth ?m) k = Some e \<longrightarrow> P e" using before by simp
    have srcm: "randomSource (rng ?m)" using src by simp
    show ?thesis
    proof (cases "atype ?a")
      case DustStorm
      let ?u = "updateSimulation now
          (?m\<lparr>anomalyOverrides := (anomalyOverrides ?m)\<lparr>dustOverride := None\<rparr>\<rparr>)"
      have "checkAnomaly now i s = generateDustAccumulationAfterStorm now ?u"
        using c DustStorm by (simp add: clearEffects_def)
      moreover have "\<forall>e. map_of (equipmentHealth ?u) k = Some e \<longrightarrow> P e" using m by simp
      ultimately show ?thesis
        using generateDustAccumulationAfterStorm_keeps[of P now ?u k e']
          claim[OF DustStorm] True after by simp
    next
      case CloudCover
      then have "equipmentHealth (checkAnomaly now i s) = equipmentHealth ?m"
        using c by (simp add: clearEffects_def)
      then show ?thesis using m after by simp
    next
      case PanelFault
      then have "checkAnomaly now i s = restoreEquipment (affectedEquipment ?a) ?m"
        using c by (simp add: clearEffects_def)
      then show ?thesis
        using restoreEquipment_keeps[OF srcm rel m, of "affectedEquipment ?a" e'] after by simp
    next
      case DustAccumulation
      then have "checkAnomaly now i s = restoreEquipment (affectedEquipment ?a) ?m"
        using c by (simp add: clearEffects_def)
      then show ?thesis
        using restoreEquipment_keeps[OF srcm rel m, of "affectedEquipment ?a" e'] after by simp
    next
      case InverterOverload
      then have "checkAnomaly now i s = restoreEquipment (affectedEquipment ?a) ?m"
        using c by (simp add: clearEffects_def)
      then show ?thesis
        using restoreEquipment_keeps[OF srcm rel m, of "affectedEquipment ?a" e'] after by simp
    qed
  qed
qed

lemma reclaim_closed:
  "released e \<or> reclaimed now e \<Longrightarrow>
   released (claimAfterStorm now e) \<or> reclaimed now (claimAfterStorm now e)"
  by (auto simp: released_def reclaimed_def claimAfterStorm_def)

lemma sweepPrefix_keeps:
  assumes src: "randomSource (rng s)"
    and rel: "\<And>e. released e \<Longrightarrow> P e"
    and claim: "\<And>j. i \<le> j \<Longrightarrow> j < k \<Longrightarrow> atype (anomalies s ! j) = DustStorm
        \<Longrightarrow> active (anomalies s ! j)
        \<Longrightarrow> real_of_int (now - timestamp (anomalies s ! j)) / 1000 \<ge> 200
        \<Longrightarrow> (\<forall>e. P e \<longrightarrow> P (claimAfterStorm now e))"
    and le: "i \<le> k" and len: "k \<le> length (anomalies s)"
    and before: "\<forall>e. map_of (equipmentHealth (sweepPrefix now i s)) k' = Some e \<longrightarrow> P e"
  shows "\<forall>e. map_of (equipmentHealth (sweepPrefix now k s)) k' = Some e \<longrightarrow> P e"
  using le len claim
proof (induction k)
  case 0
  then show ?case using before by simp
next
  case (Suc k)
  show ?case
  proof (cases "i = Suc k")
    case True
    then show ?thesis using before by simp
  next
    case False
    then have ik: "i \<le> k" using Suc.prems(1) by simp
    have kl: "k < length (anomalies s)" using Suc.prems(2) by simp
    let ?p = "sweepPrefix now k s"
    have IH: "\<forall>e. map_of (equipmentHealth ?p) k' = Some e \<longrightarrow> P e"
      using Suc.IH[OF ik] kl Suc.prems(3) by simp
    have pend: "anomalies ?p ! k = anomalies s ! k"
      using kl by (intro sweepPrefix_nth_pending) simp_all
    have srcp: "randomSource (rng ?p)" using src by simp
    show ?thesis
    proof (intro allI impI)
      fix e assume e: "map_of (equipmentHealth (sweepPrefix now (Suc k) s)) k' = Some e"
      show "P e"
      proof (rule checkAnomaly_keeps[OF srcp rel _ IH, of k now e])
        show "map_of (equipmentHealth (checkAnomaly now k ?p)) k' = Some e"
          using e by (simp add: sweepPrefix_Suc)
      next
        fix x
        assume "atype (anomalies ?p ! k) = DustStorm" "active (anomalies ?p ! k)"
          "real_of_int (now - timestamp (anomalies ?p ! k)) / 1000 \<ge> 200" "P x"
        then show "P (claimAfterStorm now x)"
          using Suc.prems(3)[of k] ik pend by simp
      qed
    qed
  qed
qed

section \<open>Passive degradation\<close>

lemma degradeLoop_effect:
  "randomSource (rng s) \<Longrightarrow> distinct ks \<Longrightarrow> map_of (equipmentHealth s) k = Some e \<Longrightarrow>
   \<exists>e'. map_of (equipmentHealth (degradeLoop ks s)) k = Some e'
      \<and> (if k \<in> set ks
          then \<exists>d. 0.1 \<le> d \<and> d < 0.5 \<and> health e' = max 75 (health e - d)
          else e' = e)"
proof (induction ks s arbitrary: e rule: degradeLoop.induct)
  case (1 s)
  then show ?case by simp
next
  case (2 x rest s)
  have d: "0 \<le> draw 0 s \<and> draw 0 s < 1"
    using "2.prems"(1) by (rule randomSource_draw)
  let ?d = "0.1 + draw 0 s * 0.4"
  let ?f = "\<lambda>e. e\<lparr>health := max 75 (health e - ?d)\<rparr>"
  let ?s1 = "(skip 1 s)\<lparr>equipmentHealth := modifyEquipment x ?f (equipmentHealth s)\<rparr>"
  have r: "randomSource (rng ?s1)" using "2.prems"(1) by simp
  have dist: "distinct rest" "x \<notin> set rest" using "2.prems"(2) by simp_all
  have dr: "0.1 \<le> ?d \<and> ?d < 0.5" using d by simp
  show ?case
  proof (cases "k = x")
    case True
    have m: "map_of (equipmentHealth ?s1) k = Some (?f e)"
      using True "2.prems"(3) by (simp add: map_of_modifyEquipment)
    obtain e' where "map_of (equipmentHealth (degradeLoop rest ?s1)) k = Some e'"
      and "e' = ?f e"
      using "2.IH"[OF r dist(1) m] True dist(2) by auto
    then have "health e' = max 75 (health e - ?d)" by simp
    then have "\<exists>d. 0.1 \<le> d \<and> d < 0.5 \<and> health e' = max 75 (health e - d)"
      using dr by (intro exI[of _ ?d]) simp
    then show ?thesis
      using True \<open>map_of (equipmentHealth (degradeLoop rest ?s1)) k = Some e'\<close>
      by (intro exI[of _ e']) simp
  next
    case False
    have m: "map_of (equipmentHealth ?s1) k = Some e"
      using False "2.prems"(3) by (simp add: map_of_modifyEquipment)
    show ?thesis using "2.IH"[OF r dist(1) m] False by simp
  qed
qed

lemma degradeEquipmentHealth_effect:
  assumes "randomSource (rng s)" and "distinct shuffled"
    and "map_of (equipmentHealth s) k = Some e"
  shows "\<exists>e'. map_of (equipmentHealth (degradeEquipmentHealth shuffled comparisons s)) k = Some e'
      \<and> health e - 0.5 \<le> health e' \<and> (health e' = health e \<or> 75 \<le> health e')"
proof -
  let ?ks = "take (nat \<lceil>real (length (degradable s)) * 0.25\<rceil>) shuffled"
  have "distinct ?ks" using assms(2) by simp
  moreover have "randomSource (rng (skip comparisons s))" using assms(1) by simp
  moreover have "map_of (equipmentHealth (skip comparisons s)) k = Some e"
    using assms(3) by simp
  ultimately obtain e' where
    e': "map_of (equipmentHealth (degradeLoop ?ks (skip comparisons s))) k = Some e'"
    and eff: "if k \<in> set ?ks
          then \<exists>d. 0.1 \<le> d \<and> d < 0.5 \<and> health e' = max 75 (health e - d)
          else e' = e"
    using degradeLoop_effect by blast
  have "health e - 0.5 \<le> health e' \<and> (health e' = health e \<or> 75 \<le> health e')"
    using eff by (auto split: if_splits)
  then show ?thesis using e'
    by (intro exI[of _ e']) (simp add: degradeEquipmentHealth_def Let_def)
qed

section \<open>Bounds of the generation formula\<close>

lemma impactOf_range: "0 \<le> impactOf t \<and> impactOf t \<le> 100"
  by (cases t) (simp_all add: impactOf_def anomalyTypes_def)

lemma anomalyFactor_range:
  "\<forall>a \<in> set xs. 0 \<le> impact a \<and> impact a \<le> 100 \<Longrightarrow> 0 \<le> f \<Longrightarrow> f \<le> 1
    \<Longrightarrow> 0 \<le> anomalyFactor f xs \<and> anomalyFactor f xs \<le> 1"
proof (induction xs arbitrary: f)
  case Nil
  then show ?case by simp
next
  case (Cons a xs)
  have a: "0 \<le> 1 - impact a / 100" "1 - impact a / 100 \<le> 1"
    using Cons.prems(1) by simp_all
  have "0 \<le> f * (1 - impact a / 100)"
    using Cons.prems(2) a(1) by (rule mult_nonneg_nonneg)
  moreover have "f * (1 - impact a / 100) \<le> 1"
    using Cons.prems(2,3) a by (simp add: mult_le_one)
  ultimately show ?case
    using Cons.IH[of "f * (1 - impact a / 100)"] Cons.IH[of f] Cons.prems by simp
qed

lemma scaled_within:
  fixes b c x :: real
  assumes "0 \<le> b" "b \<le> c" "0 \<le> x" "x \<le> 1"
  shows "0 \<le> b * x \<and> b * x \<le> c"
proof -
  have "b * x \<le> b * 1" using assms by (intro mult_left_mono) auto
  then show ?thesis using assms by (simp add: mult_nonneg_nonneg)
qed

section \<open>Lookup by id; generation at night\<close>

lemma findIndex_find:
  "find P xs = (case findIndex P xs of None \<Rightarrow> None | Some i \<Rightarrow> Some (xs ! i))"
  by (induction xs) (auto split: option.splits)

lemma findIndex_None: "(findIndex P xs = None) = (\<forall>x \<in> set xs. \<not> P x)"
  by (induction xs) auto

lemma night_generation:
  "getHours t < 6 \<Longrightarrow> calculateSolarGeneration t s = 0"
proof -
  assume h: "getHours t < 6"
  have "getMinutes t < 60" by (simp add: getMinutes_def)
  then have "real (getMinutes t) / 60 < 1" by simp
  moreover have "real (getHours t) \<le> 5" using h by simp
  ultimately have "\<not> (real (getHours t) + real (getMinutes t) / 60 \<ge> 6)" by linarith
  then show ?thesis by (simp add: calculateSolarGeneration_def Let_def)
qed

lemma updateSimulation_cumulative:
  "dailyCumulative (updateSimulation now s) =
     (if getHours (lastUpdateTime s) = 23 \<and> getHours (getCurrentTime now s) = 0 then 0
      else dailyCumulative s
             + currentGeneration (updateSimulation now s)
                 * (real_of_int (getCurrentTime now s - lastUpdateTime s) / 3600000))"
  by (simp add: updateSimulation_def Let_def)

lemma updateSimulation_generation:
  "currentGeneration (updateSimulation now s)
     = calculateSolarGeneration (getCurrentTime now s) s"
  by (simp add: updateSimulation_def Let_def)

section \<open>Evaluation on the concrete plants\<close>

lemma randomSource_zeros: "randomSource zeros"
  by (simp add: randomSource_def zeros_def)

lemma createEquipment_zeros:
  "rng s = zeros \<Longrightarrow>
   createEquipment ks s
     = s\<lparr>rpos := rpos s + length ks,
          equipmentHealth := equipmentHealth s @ map (healthyUnit 95) ks\<rparr>"
  by (induction ks arbitrary: s) (simp_all add: draw_def skip_def zeros_def healthyUnit_def)

lemma freshPlant_eq:
  "freshPlant =
     (initialState 39600000 zeros)
       \<lparr>rpos := 30, equipmentHealth := map (healthyUnit 95) equipmentIds,
        logs := [\<lparr>logTimestamp = 39600000, logMessage = [Txt ''System initialized''],
                  logType = LogInfo\<rparr>]\<rparr>"
  by (simp add: freshPlant_def init_def initializeEquipment_def createEquipment_zeros
      initialState_def log'_def equipmentIds_def)

lemma freshPlant_fields [simp]:
  "anomalies freshPlant = []"
  "rng freshPlant = zeros"
  "rpos freshPlant = 30"
  "equipmentHealth freshPlant = map (healthyUnit 95) equipmentIds"
  "simulationTime freshPlant = None"
  "capacity freshPlant = 100"
  "dailyCumulative freshPlant = 0"
  "lastUpdateTime freshPlant = 39600000"
  "environmentalFactors freshPlant
     = \<lparr>temperature = 30, dustLevel = 5, cloudCover = 7, humidity = 10\<rparr>"
  "anomalyOverrides freshPlant = \<lparr>dustOverride = None, cloudOverride = None\<rparr>"
  by (simp_all add: freshPlant_eq initialState_def)

lemma reachable_freshPlant: "reachable freshPlant"
  unfolding freshPlant_def by (rule reachable_init[OF randomSource_zeros])

lemma draw_zeros [simp]: "rng s = zeros \<Longrightarrow> draw k s = 0"
  by (simp add: draw_def zeros_def)

lemma floorRandom_0 [simp]: "floorRandom 0 n = 0"
  by (simp add: floorRandom_def)

lemma stormPlant_anomalies:
  "anomalies stormPlant =
     [newAnomaly 39600100 DustStorm (''Dust Storm'', EntireFacility, 30, Warning) 39600100]"
  by (simp add: stormPlant_def generateAnomaly_def Let_def anomalyTypes_def affectEquipment_def)

lemma stormPlant_fields [simp]:
  "rng stormPlant = zeros"
  "equipmentHealth stormPlant = map (healthyUnit 95) equipmentIds"
  by (simp_all add: stormPlant_def generateAnomaly_def Let_def affectEquipment_def)

lemma hasEquipment_iff: "hasEquipment s k = (k \<in> set (map fst (equipmentHealth s)))"
  by (simp add: hasEquipment_def map_of_eq_None_iff)

lemma panelIds_has: "panelIds s = p # ps \<Longrightarrow> hasEquipment s p"
proof -
  assume "panelIds s = p # ps"
  then have "p \<in> set (panelIds s)" by simp
  then show ?thesis by (simp add: panelIds_def hasEquipment_iff)
qed

lemma selectPanels_zeros_spent:
  "rng s = zeros \<Longrightarrow> p \<in> set affected
   \<Longrightarrow> selectPanels n claim (p # ps) affected s = (affected, skip n s)"
proof (induction n arbitrary: s)
  case 0
  then show ?case by (simp add: skip_def)
next
  case (Suc n)
  have "selectPanels n claim (p # ps) affected (skip 1 s) = (affected, skip n (skip 1 s))"
    using Suc by simp
  then show ?case using Suc.prems by (simp add: Let_def skip_def)
qed

lemma selectPanels_zeros:
  assumes "rng s = zeros" and "hasEquipment s p"
  shows "selectPanels (Suc n) claim (p # ps) [] s
     = ([p], (skip (Suc n) s)\<lparr>equipmentHealth := modifyEquipment p claim (equipmentHealth s)\<rparr>)"
proof -
  let ?s1 = "(skip 1 s)\<lparr>equipmentHealth := modifyEquipment p claim (equipmentHealth s)\<rparr>"
  have "selectPanels (Suc n) claim (p # ps) [] s = selectPanels n claim (p # ps) [p] ?s1"
    using assms by (simp add: Let_def)
  also have "\<dots> = ([p], skip n ?s1)"
    using assms(1) by (intro selectPanels_zeros_spent) simp_all
  finally show ?thesis by (simp add: skip_def)
qed

lemma selectPanels_zeros_fst:
  assumes "rng s = zeros" and "hasEquipment s p" and "0 < n"
  shows "fst (selectPanels n claim (p # ps) [] s) = [p]"
proof -
  obtain m where "n = Suc m" using assms(3) by (cases n) auto
  then show ?thesis using selectPanels_zeros[OF assms(1,2), of m claim ps] by simp
qed

lemma panelIds_frame [simp]:
  "panelIds (skip n s) = panelIds s"
  "panelIds (s\<lparr>anomalies := xs\<rparr>) = panelIds s"
  "panelIds (s\<lparr>anomalyOverrides := ov\<rparr>) = panelIds s"
  "panelIds (updateSimulation now s) = panelIds s"
  "panelIds (announceTimeout now a s) = panelIds s"
  "panelIds (modifyAnomaly i f s) = panelIds s"
  by (simp_all add: panelIds_def)

lemma hasEquipment_frame2 [simp]:
  "hasEquipment (s\<lparr>anomalies := xs\<rparr>) k = hasEquipment s k"
  "hasEquipment (s\<lparr>anomalyOverrides := ov\<rparr>) k = hasEquipment s k"
  "hasEquipment (announceTimeout now a s) k = hasEquipment s k"
  "hasEquipment (modifyAnomaly i f s) k = hasEquipment s k"
  by (simp_all add: hasEquipment_def)

lemma generateDustAccumulationAfterStorm_zeros:
  assumes "rng s = zeros" and "panelIds s = p # ps"
  shows "anomalies (generateDustAccumulationAfterStorm now s) =
     anomalies s
       @ [(newAnomaly now DustAccumulation
             (''Dust Accumulation'', MultipleSections, 10, Warning) now)
          \<lparr>affectedEquipment := [p], causedBy := Some DustStorm\<rparr>]"
  using assms panelIds_has[OF assms(2)]
  by (simp add: generateDustAccumulationAfterStorm_anomalies selectPanels_zeros_fst
      del: selectPanels.simps)

lemma generateAnomaly_PanelFault_zeros:
  assumes "rng s = zeros" and "panelIds s = p # ps"
  shows "anomalies (generateAnomaly now (Some PanelFault) s) =
     anomalies s
       @ [(newAnomaly now PanelFault (''Panel Fault'', Section 1, 15, Critical) now)
          \<lparr>affectedEquipment := [p], location := SectionCell 1 1\<rparr>]"
  using assms panelIds_has[OF assms(2)]
  by (simp add: generateAnomaly_def Let_def anomalyTypes_def applyEnvironmentOverride_def
      affectEquipment_def case_prod_beta selectPanels_zeros_fst
      del: selectPanels.simps)

lemma panelIds_freshPlant: "panelIds freshPlant = (Panel, 1) # map (Pair Panel) [2..<21]"
proof -
  have "panelIds freshPlant = map (Pair Panel) [1..<21]"
    by (simp add: panelIds_def equipmentIds_def healthyUnit_def o_def)
  also have "[1..<21] = 1 # [2..<21]" by (simp add: upt_conv_Cons)
  finally show ?thesis by simp
qed

lemma panelIds_keys: "map fst (equipmentHealth s') = map fst (equipmentHealth s)
  \<Longrightarrow> panelIds s' = panelIds s"
  by (simp add: panelIds_def)

lemma faultPlant_fields [simp]:
  "rng faultPlant = zeros"
  "panelIds faultPlant = (Panel, 1) # map (Pair Panel) [2..<21]"
  "anomalies faultPlant =
     [(newAnomaly 39600100 PanelFault (''Panel Fault'', Section 1, 15, Critical) 39600100)
      \<lparr>affectedEquipment := [(Panel, 1)], location := SectionCell 1 1\<rparr>]"
proof -
  show "rng faultPlant = zeros" by (simp add: faultPlant_def)
  have "panelIds faultPlant = panelIds freshPlant"
    by (rule panelIds_keys) (simp add: faultPlant_def)
  then show "panelIds faultPlant = (Panel, 1) # map (Pair Panel) [2..<21]"
    by (simp add: panelIds_freshPlant)
  show "anomalies faultPlant =
     [(newAnomaly 39600100 PanelFault (''Panel Fault'', Section 1, 15, Critical) 39600100)
      \<lparr>affectedEquipment := [(Panel, 1)], location := SectionCell 1 1\<rparr>]"
    using generateAnomaly_PanelFault_zeros[of freshPlant "(Panel, 1)"
        "map (Pair Panel) [2..<21]" 39600100]
    by (simp add: faultPlant_def panelIds_freshPlant)
qed

lemma reachable_faultPlant: "reachable faultPlant"
  unfolding faultPlant_def by (rule reachable_handle[OF reachable_freshPlant]) simp

lemma reachable_doubleFaultPlant: "reachable doubleFaultPlant"
  unfolding doubleFaultPlant_def by (rule reachable_handle[OF reachable_faultPlant]) simp

lemma stormPlant_panelIds [simp]:
  "panelIds stormPlant = (Panel, 1) # map (Pair Panel) [2..<21]"
proof -
  have "panelIds stormPlant = panelIds freshPlant"
    by (rule panelIds_keys) (simp add: stormPlant_def)
  then show ?thesis by (simp add: panelIds_freshPlant)
qed

lemma reachable_stormPlant: "reachable stormPlant"
  unfolding stormPlant_def by (rule reachable_handle[OF reachable_freshPlant]) simp

lemma reachable_afterStormPlant: "reachable afterStormPlant"
  unfolding afterStormPlant_def by (rule reachable_handle[OF reachable_stormPlant]) simp

lemma reachable_escalatedPlant: "reachable escalatedPlant"
  unfolding escalatedPlant_def by (rule reachable_handle[OF reachable_stormPlant]) simp

lemma afterStormPlant_anomalies:
  "anomalies afterStormPlant =
     [(newAnomaly 39600100 DustStorm (''Dust Storm'', EntireFacility, 30, Warning) 39600100)
      \<lparr>active := False, resolvedAt := Some 39800100, resolvedBy := Some ByAutoTimeout\<rparr>,
      (newAnomaly 39800100 DustAccumulation
         (''Dust Accumulation'', MultipleSections, 10, Warning) 39800100)
      \<lparr>affectedEquipment := [(Panel, 1)], causedBy := Some DustStorm\<rparr>]"
proof -
  let ?storm = "newAnomaly 39600100 DustStorm (''Dust Storm'', EntireFacility, 30, Warning)
      39600100"
  have a: "anomalies stormPlant ! 0 = ?storm" by (simp add: stormPlant_anomalies)
  have "checkAnomaly 39800100 0 stormPlant =
     clearEffects 39800100 (anomalies stormPlant ! 0)
       (announceTimeout 39800100 (anomalies stormPlant ! 0)
          (modifyAnomaly 0
             (\<lambda>a. a\<lparr>active := False, resolvedAt := Some 39800100,
                     resolvedBy := Some ByAutoTimeout\<rparr>) stormPlant))"
    by (rule timed_out_callback) (simp_all add: a newAnomaly_def)
  then have "anomalies (checkAnomaly 39800100 0 stormPlant) =
     [?storm\<lparr>active := False, resolvedAt := Some 39800100, resolvedBy := Some ByAutoTimeout\<rparr>,
      (newAnomaly 39800100 DustAccumulation
         (''Dust Accumulation'', MultipleSections, 10, Warning) 39800100)
      \<lparr>affectedEquipment := [(Panel, 1)], causedBy := Some DustStorm\<rparr>]"
    using generateDustAccumulationAfterStorm_zeros[of
        "updateSimulation 39800100
           ((announceTimeout 39800100 ?storm
              (modifyAnomaly 0
                 (\<lambda>a. a\<lparr>active := False, resolvedAt := Some 39800100,
                         resolvedBy := Some ByAutoTimeout\<rparr>) stormPlant))
            \<lparr>anomalyOverrides :=
               (anomalyOverrides (announceTimeout 39800100 ?storm
                  (modifyAnomaly 0
                     (\<lambda>a. a\<lparr>active := False, resolvedAt := Some 39800100,
                             resolvedBy := Some ByAutoTimeout\<rparr>) stormPlant)))
               \<lparr>dustOverride := None\<rparr>\<rparr>)"
        "(Panel, 1)" "map (Pair Panel) [2..<21]" 39800100]
    by (simp add: a clearEffects_def newAnomaly_def stormPlant_anomalies)
  then show ?thesis
    by (simp add: afterStormPlant_def checkAnomalies_def stormPlant_anomalies
        sweepPrefix_Suc[of _ 0, simplified])
qed

lemma randomSource_stormPlant: "randomSource (rng stormPlant)"
  by (simp add: randomSource_zeros)

lemma getHours_values [simp]:
  "getHours 39600000 = 11" "getHours 43200000 = 12" "getHours 82799900 = 22"
  "getHours 82800100 = 23" "getHours 86400100 = 0"
  "getMinutes 43200000 = 0" "getMinutes 82799900 = 59" "getMinutes 86400100 = 0"
  by (simp_all add: getHours_def getMinutes_def)

lemma noon_generation:
  "calculateSolarGeneration 43200000 freshPlant = 100 * (98 / 100) * (985 / 1000) * (965 / 1000)"
  by (simp add: calculateSolarGeneration_def Let_def)

lemma eveningPlant_fields:
  "simulationTime eveningPlant = None"
  "lastUpdateTime eveningPlant = 82799900"
  "dailyCumulative eveningPlant = 100 * (98 / 100) * (985 / 1000) * (965 / 1000)"
proof -
  let ?noon = "tick 43200000 freshPlant"
  have g: "calculateSolarGeneration 43200000 freshPlant
      = 100 * (98 / 100) * (985 / 1000) * (965 / 1000)"
    by (rule noon_generation)
  have n: "simulationTime ?noon = None" "lastUpdateTime ?noon = 43200000"
    "dailyCumulative ?noon = 100 * (98 / 100) * (985 / 1000) * (965 / 1000)"
    using g by (simp_all add: tick_def updateSimulation_def Let_def getCurrentTime_def)
  have night: "calculateSolarGeneration 82799900 ?noon = 0"
    by (simp add: calculateSolarGeneration_def Let_def)
  show "simulationTime eveningPlant = None"
    using n by (simp add: eveningPlant_def tick_def)
  show "lastUpdateTime eveningPlant = 82799900"
    using n night
    by (simp add: eveningPlant_def tick_def updateSimulation_def Let_def getCurrentTime_def)
  show "dailyCumulative eveningPlant = 100 * (98 / 100) * (985 / 1000) * (965 / 1000)"
    using n night
    by (simp add: eveningPlant_def tick_def updateSimulation_def Let_def getCurrentTime_def)
qed

lemma reachable_eveningPlant: "reachable eveningPlant"
  unfolding eveningPlant_def
  by (intro reachable_handle reachable_freshPlant) simp_all

lemma fst_healthyUnit [simp]: "fst (healthyUnit h k) = k"
  by (simp add: healthyUnit_def)

lemma fst_comp_healthyUnit [simp]: "fst \<circ> healthyUnit h = id"
  by (rule ext) simp

lemma map_of_healthyUnit:
  "k \<in> set ks \<Longrightarrow> map_of (map (healthyUnit h) ks) k = Some (snd (healthyUnit h k))"
  by (induction ks) (auto simp: healthyUnit_def)

lemma selectPanels_zeros_equipment:
  assumes "rng s = zeros" and "hasEquipment s p" and "0 < n"
  shows "equipmentHealth (snd (selectPanels n claim (p # ps) [] s))
     = modifyEquipment p claim (equipmentHealth s)"
proof -
  obtain m where "n = Suc m" using assms(3) by (cases n) auto
  then show ?thesis using selectPanels_zeros[OF assms(1,2), of m claim ps] by simp
qed

lemma generateDustAccumulationAfterStorm_zeros_equipment:
  assumes "rng s = zeros" and "panelIds s = p # ps"
  shows "equipmentHealth (generateDustAccumulationAfterStorm now s)
     = modifyEquipment p (claimAfterStorm now) (equipmentHealth s)"
  using assms panelIds_has[OF assms(2)]
  by (simp add: generateDustAccumulationAfterStorm_def Let_def case_prod_beta newAnomaly_def
      selectPanels_zeros_equipment del: selectPanels.simps)

lemma generateAnomaly_PanelFault_zeros_equipment:
  assumes "rng s = zeros" and "panelIds s = p # ps"
  shows "equipmentHealth (generateAnomaly now (Some PanelFault) s)
     = modifyEquipment p (claimPanel PanelFault now) (equipmentHealth s)"
  using assms panelIds_has[OF assms(2)]
  by (simp add: generateAnomaly_def Let_def anomalyTypes_def applyEnvironmentOverride_def
      affectEquipment_def case_prod_beta selectPanels_zeros_equipment newAnomaly_def
      del: selectPanels.simps)

lemma generateAnomaly_DustStorm_fields:
  "anomalies (generateAnomaly now (Some DustStorm) s)
     = anomalies s
         @ [newAnomaly now DustStorm (''Dust Storm'', EntireFacility, 30, Warning) now]"
  "equipmentHealth (generateAnomaly now (Some DustStorm) s) = equipmentHealth s"
  by (simp_all add: generateAnomaly_def Let_def anomalyTypes_def affectEquipment_def)

lemma restoreEquipment_single_zeros:
  assumes "rng s = zeros" and "hasEquipment s k"
  shows "equipmentHealth (restoreEquipment [k] s)
     = modifyEquipment k
         (\<lambda>e. e\<lparr>status := Healthy, anomalyRef := None, issues := [], health := 96\<rparr>)
         (equipmentHealth s)"
  using assms by simp

lemma checkAnomaly_storm_zeros:
  assumes z: "rng s = zeros" and p: "panelIds s = p # ps"
    and ty: "atype (anomalies s ! i) = DustStorm" and act: "active (anomalies s ! i)"
    and old: "real_of_int (now - timestamp (anomalies s ! i)) / 1000 \<ge> 200"
  shows "equipmentHealth (checkAnomaly now i s)
       = modifyEquipment p (claimAfterStorm now) (equipmentHealth s)"
    and "anomalies (checkAnomaly now i s)
       = (anomalies s)[i := (anomalies s ! i)
            \<lparr>active := False, resolvedAt := Some now, resolvedBy := Some ByAutoTimeout\<rparr>]
         @ [(newAnomaly now DustAccumulation
               (''Dust Accumulation'', MultipleSections, 10, Warning) now)
            \<lparr>affectedEquipment := [p], causedBy := Some DustStorm\<rparr>]"
proof -
  let ?a = "anomalies s ! i"
  let ?m = "announceTimeout now ?a
      (modifyAnomaly i (\<lambda>a. a\<lparr>active := False, resolvedAt := Some now,
         resolvedBy := Some ByAutoTimeout\<rparr>) s)"
  let ?u = "updateSimulation now
      (?m\<lparr>anomalyOverrides := (anomalyOverrides ?m)\<lparr>dustOverride := None\<rparr>\<rparr>)"
  have c: "checkAnomaly now i s = generateDustAccumulationAfterStorm now ?u"
    using timed_out_callback[OF act old] ty by (simp add: clearEffects_def)
  have zu: "rng ?u = zeros" using z by simp
  have pu: "panelIds ?u = p # ps" using p by simp
  show "equipmentHealth (checkAnomaly now i s)
       = modifyEquipment p (claimAfterStorm now) (equipmentHealth s)"
    using generateDustAccumulationAfterStorm_zeros_equipment[OF zu pu, of now] c by simp
  show "anomalies (checkAnomaly now i s)
       = (anomalies s)[i := (anomalies s ! i)
            \<lparr>active := False, resolvedAt := Some now, resolvedBy := Some ByAutoTimeout\<rparr>]
         @ [(newAnomaly now DustAccumulation
               (''Dust Accumulation'', MultipleSections, 10, Warning) now)
            \<lparr>affectedEquipment := [p], causedBy := Some DustStorm\<rparr>]"
    using generateDustAccumulationAfterStorm_zeros[OF zu pu, of now] c
    by (simp add: modifyAnomaly_def)
qed

lemma checkAnomaly_fault_zeros:
  assumes z: "rng s = zeros" and k: "affectedEquipment (anomalies s ! i) = [k]"
    and has: "hasEquipment s k"
    and ty: "atype (anomalies s ! i) = PanelFault" and act: "active (anomalies s ! i)"
    and old: "real_of_int (now - timestamp (anomalies s ! i)) / 1000 \<ge> 200"
  shows "equipmentHealth (checkAnomaly now i s)
       = modifyEquipment k
           (\<lambda>e. e\<lparr>status := Healthy, anomalyRef := None, issues := [], health := 96\<rparr>)
           (equipmentHealth s)"
    and "anomalies (checkAnomaly now i s)
       = (anomalies s)[i := (anomalies s ! i)
            \<lparr>active := False, resolvedAt := Some now, resolvedBy := Some ByAutoTimeout\<rparr>]"
proof -
  let ?a = "anomalies s ! i"
  let ?m = "announceTimeout now ?a
      (modifyAnomaly i (\<lambda>a. a\<lparr>active := False, resolvedAt := Some now,
         resolvedBy := Some ByAutoTimeout\<rparr>) s)"
  have c: "checkAnomaly now i s = restoreEquipment [k] ?m"
    using timed_out_callback[OF act old] ty k by (simp add: clearEffects_def)
  have zm: "rng ?m = zeros" using z by simp
  have hm: "hasEquipment ?m k" using has by simp
  show "equipmentHealth (checkAnomaly now i s)
       = modifyEquipment k
           (\<lambda>e. e\<lparr>status := Healthy, anomalyRef := None, issues := [], health := 96\<rparr>)
           (equipmentHealth s)"
    using restoreEquipment_single_zeros[OF zm hm] c by simp
  show "anomalies (checkAnomaly now i s)
       = (anomalies s)[i := (anomalies s ! i)
            \<lparr>active := False, resolvedAt := Some now, resolvedBy := Some ByAutoTimeout\<rparr>]"
    using c by (simp add: modifyAnomaly_def)
qed

lemma checkAnomaly_panelIds [simp]: "panelIds (checkAnomaly now i s) = panelIds s"
  by (rule panelIds_keys) simp

lemma sweepPrefix_2:
  "sweepPrefix now (Suc (Suc 0)) s = checkAnomaly now (Suc 0) (checkAnomaly now 0 s)"
  by (simp add: sweepPrefix_Suc)

lemma equipmentHealth_faultPlant:
  "equipmentHealth faultPlant
     = modifyEquipment (Panel, 1) (claimPanel PanelFault 39600100)
         (map (healthyUnit 95) equipmentIds)"
  using generateAnomaly_PanelFault_zeros_equipment[of freshPlant "(Panel, 1)"
      "map (Pair Panel) [2..<21]" 39600100]
  by (simp add: faultPlant_def panelIds_freshPlant)

lemma faultStormPlant_fields:
  "rng faultStormPlant = zeros"
  "panelIds faultStormPlant = (Panel, 1) # map (Pair Panel) [2..<21]"
  "anomalies faultStormPlant =
     [(newAnomaly 39600100 PanelFault (''Panel Fault'', Section 1, 15, Critical) 39600100)
      \<lparr>affectedEquipment := [(Panel, 1)], location := SectionCell 1 1\<rparr>,
      newAnomaly 39600200 DustStorm (''Dust Storm'', EntireFacility, 30, Warning) 39600200]"
  "equipmentHealth faultStormPlant
     = modifyEquipment (Panel, 1) (claimPanel PanelFault 39600100)
         (map (healthyUnit 95) equipmentIds)"
proof -
  show "rng faultStormPlant = zeros" by (simp add: faultStormPlant_def)
  have "panelIds faultStormPlant = panelIds faultPlant"
    by (rule panelIds_keys) (simp add: faultStormPlant_def)
  then show "panelIds faultStormPlant = (Panel, 1) # map (Pair Panel) [2..<21]" by simp
  show "anomalies faultStormPlant =
     [(newAnomaly 39600100 PanelFault (''Panel Fault'', Section 1, 15, Critical) 39600100)
      \<lparr>affectedEquipment := [(Panel, 1)], location := SectionCell 1 1\<rparr>,
      newAnomaly 39600200 DustStorm (''Dust Storm'', EntireFacility, 30, Warning) 39600200]"
    by (simp add: faultStormPlant_def generateAnomaly_DustStorm_fields)
  show "equipmentHealth faultStormPlant
     = modifyEquipment (Panel, 1) (claimPanel PanelFault 39600100)
         (map (healthyUnit 95) equipmentIds)"
    by (simp add: faultStormPlant_def generateAnomaly_DustStorm_fields
        equipmentHealth_faultPlant)
qed

lemma reachable_faultStormPlant: "reachable faultStormPlant"
  unfolding faultStormPlant_def by (rule reachable_handle[OF reachable_faultPlant]) simp

lemma map_of_panel1:
  "map_of (map (healthyUnit h) equipmentIds) (Panel, Suc 0)
     = Some (snd (healthyUnit h (Panel, Suc 0)))"
  by (rule map_of_healthyUnit) (simp add: equipmentIds_def)

lemma faultStormPlant_swept:
  "map_of (equipmentHealth (checkAnomalies 39800200 faultStormPlant)) (Panel, 1)
     = Some \<lparr>ename = (Panel, 1), health = 71, status = Degraded,
             issues = [''dust accumulation''], anomalyRef = Some 39800200\<rparr>"
proof -
  let ?s = faultStormPlant
  let ?p1 = "checkAnomaly 39800200 0 ?s"
  have has: "hasEquipment ?s (Panel, 1)"
    by (rule panelIds_has) (rule faultStormPlant_fields(2))
  have e1: "equipmentHealth ?p1
      = modifyEquipment (Panel, 1)
          (\<lambda>e. e\<lparr>status := Healthy, anomalyRef := None, issues := [], health := 96\<rparr>)
          (equipmentHealth ?s)"
    by (rule checkAnomaly_fault_zeros(1)[OF faultStormPlant_fields(1) _ has])
      (simp_all add: faultStormPlant_fields(3) newAnomaly_def)
  have a1: "anomalies ?p1 ! Suc 0
      = newAnomaly 39600200 DustStorm (''Dust Storm'', EntireFacility, 30, Warning) 39600200"
    using sweepPrefix_nth_pending[of 1 1 ?s 39800200]
    by (simp add: faultStormPlant_fields(3) sweepPrefix_Suc[of _ 0, simplified])
  have z1: "rng ?p1 = zeros" by (simp add: faultStormPlant_fields(1))
  have p1: "panelIds ?p1 = (Panel, 1) # map (Pair Panel) [2..<21]"
    by (simp add: faultStormPlant_fields(2))
  have e2: "equipmentHealth (checkAnomaly 39800200 (Suc 0) ?p1)
      = modifyEquipment (Panel, 1) (claimAfterStorm 39800200) (equipmentHealth ?p1)"
    by (rule checkAnomaly_storm_zeros(1)[OF z1 p1]) (simp_all add: a1 newAnomaly_def)
  have "equipmentHealth (checkAnomalies 39800200 ?s)
      = equipmentHealth (checkAnomaly 39800200 (Suc 0) ?p1)"
    by (simp add: checkAnomalies_def faultStormPlant_fields(3) sweepPrefix_2)
  then show ?thesis
    by (simp add: e2 e1 faultStormPlant_fields(4) map_of_modifyEquipment
        map_of_panel1 healthyUnit_def claimPanel_def claimAfterStorm_def)
qed

lemma doubleFaultPlant_fields:
  "rng doubleFaultPlant = zeros"
  "anomalies doubleFaultPlant =
     [(newAnomaly 39600100 PanelFault (''Panel Fault'', Section 1, 15, Critical) 39600100)
      \<lparr>affectedEquipment := [(Panel, 1)], location := SectionCell 1 1\<rparr>,
      (newAnomaly 39600200 PanelFault (''Panel Fault'', Section 1, 15, Critical) 39600200)
      \<lparr>affectedEquipment := [(Panel, 1)], location := SectionCell 1 1\<rparr>]"
  "map fst (equipmentHealth doubleFaultPlant) = equipmentIds"
proof -
  show "rng doubleFaultPlant = zeros" by (simp add: doubleFaultPlant_def)
  show "anomalies doubleFaultPlant =
     [(newAnomaly 39600100 PanelFault (''Panel Fault'', Section 1, 15, Critical) 39600100)
      \<lparr>affectedEquipment := [(Panel, 1)], location := SectionCell 1 1\<rparr>,
      (newAnomaly 39600200 PanelFault (''Panel Fault'', Section 1, 15, Critical) 39600200)
      \<lparr>affectedEquipment := [(Panel, 1)], location := SectionCell 1 1\<rparr>]"
    using generateAnomaly_PanelFault_zeros[of faultPlant "(Panel, 1)"
        "map (Pair Panel) [2..<21]" 39600200]
    by (simp add: doubleFaultPlant_def)
  show "map fst (equipmentHealth doubleFaultPlant) = equipmentIds"
    by (simp add: doubleFaultPlant_def faultPlant_def)
qed

lemma twoStormsPlant_fields:
  "rng twoStormsPlant = zeros"
  "panelIds twoStormsPlant = (Panel, 1) # map (Pair Panel) [2..<21]"
  "anomalies twoStormsPlant =
     [newAnomaly 39600100 DustStorm (''Dust Storm'', EntireFacility, 30, Warning) 39600100,
      newAnomaly 39600200 DustStorm (''Dust Storm'', EntireFacility, 30, Warning) 39600200]"
proof -
  show "rng twoStormsPlant = zeros" by (simp add: twoStormsPlant_def)
  have "panelIds twoStormsPlant = panelIds stormPlant"
    by (rule panelIds_keys) (simp add: twoStormsPlant_def)
  then show "panelIds twoStormsPlant = (Panel, 1) # map (Pair Panel) [2..<21]" by simp
  show "anomalies twoStormsPlant =
     [newAnomaly 39600100 DustStorm (''Dust Storm'', EntireFacility, 30, Warning) 39600100,
      newAnomaly 39600200 DustStorm (''Dust Storm'', EntireFacility, 30, Warning) 39600200]"
    by (simp add: twoStormsPlant_def generateAnomaly_DustStorm_fields stormPlant_anomalies)
qed

lemma reachable_afterTwoStormsPlant: "reachable afterTwoStormsPlant"
  unfolding afterTwoStormsPlant_def twoStormsPlant_def
  by (intro reachable_handle reachable_stormPlant) simp_all

lemma afterTwoStormsPlant_anomalies:
  "anomalies afterTwoStormsPlant =
     [(newAnomaly 39600100 DustStorm (''Dust Storm'', EntireFacility, 30, Warning) 39600100)
      \<lparr>active := False, resolvedAt := Some 39800200, resolvedBy := Some ByAutoTimeout\<rparr>,
      (newAnomaly 39600200 DustStorm (''Dust Storm'', EntireFacility, 30, Warning) 39600200)
      \<lparr>active := False, resolvedAt := Some 39800200, resolvedBy := Some ByAutoTimeout\<rparr>,
      (newAnomaly 39800200 DustAccumulation
         (''Dust Accumulation'', MultipleSections, 10, Warning) 39800200)
      \<lparr>affectedEquipment := [(Panel, 1)], causedBy := Some DustStorm\<rparr>,
      (newAnomaly 39800200 DustAccumulation
         (''Dust Accumulation'', MultipleSections, 10, Warning) 39800200)
      \<lparr>affectedEquipment := [(Panel, 1)], causedBy := Some DustStorm\<rparr>]"
proof -
  let ?s = twoStormsPlant
  let ?p1 = "checkAnomaly 39800200 0 ?s"
  have a1: "anomalies ?p1
      = (anomalies ?s)[0 := (anomalies ?s ! 0)
            \<lparr>active := False, resolvedAt := Some 39800200, resolvedBy := Some ByAutoTimeout\<rparr>]
         @ [(newAnomaly 39800200 DustAccumulation
               (''Dust Accumulation'', MultipleSections, 10, Warning) 39800200)
            \<lparr>affectedEquipment := [(Panel, 1)], causedBy := Some DustStorm\<rparr>]"
    by (rule checkAnomaly_storm_zeros(2)[OF twoStormsPlant_fields(1,2)])
      (simp_all add: twoStormsPlant_fields(3) newAnomaly_def)
  have z1: "rng ?p1 = zeros" by (simp add: twoStormsPlant_fields(1))
  have p1: "panelIds ?p1 = (Panel, 1) # map (Pair Panel) [2..<21]"
    by (simp add: twoStormsPlant_fields(2))
  have a2: "anomalies (checkAnomaly 39800200 (Suc 0) ?p1)
      = (anomalies ?p1)[Suc 0 := (anomalies ?p1 ! Suc 0)
            \<lparr>active := False, resolvedAt := Some 39800200, resolvedBy := Some ByAutoTimeout\<rparr>]
         @ [(newAnomaly 39800200 DustAccumulation
               (''Dust Accumulation'', MultipleSections, 10, Warning) 39800200)
            \<lparr>affectedEquipment := [(Panel, 1)], causedBy := Some DustStorm\<rparr>]"
    by (rule checkAnomaly_storm_zeros(2)[OF z1 p1])
      (simp_all add: a1 twoStormsPlant_fields(3) newAnomaly_def)
  have "anomalies afterTwoStormsPlant = anomalies (checkAnomaly 39800200 (Suc 0) ?p1)"
    by (simp add: afterTwoStormsPlant_def checkAnomalies_def twoStormsPlant_fields(3)
        sweepPrefix_2)
  then show ?thesis
    by (simp add: a2 a1 twoStormsPlant_fields(3))
qed

section \<open>Generation\<close>

text \<open>
  Claim C1. For every time of day, when the capacity is not negative, dust level, cloud cover
  and humidity lie in [0, 100] (the overrides too, where an anomaly has set one), the
  temperature lies in [15, 55] and every anomaly carries the impact percentage of its type,
  \<open>calculateSolarGeneration\<close> returns a value between 0 and the capacity.
\<close>

theorem generation_within_capacity:
  assumes cap: "0 \<le> capacity s"
    and dust: "0 \<le> dustLevel (environmentalFactors s)" "dustLevel (environmentalFactors s) \<le> 100"
    and cloud: "0 \<le> cloudCover (environmentalFactors s)"
      "cloudCover (environmentalFactors s) \<le> 100"
    and hum: "0 \<le> humidity (environmentalFactors s)" "humidity (environmentalFactors s) \<le> 100"
    and temp: "15 \<le> temperature (environmentalFactors s)"
      "temperature (environmentalFactors s) \<le> 55"
    and odust: "\<And>d. dustOverride (anomalyOverrides s) = Some d \<Longrightarrow> 0 \<le> d \<and> d \<le> 100"
    and ocloud: "\<And>c. cloudOverride (anomalyOverrides s) = Some c \<Longrightarrow> 0 \<le> c \<and> c \<le> 100"
    and imp: "\<And>a. a \<in> set (anomalies s) \<Longrightarrow> impact a = impactOf (atype a)"
  shows "0 \<le> calculateSolarGeneration time s \<and> calculateSolarGeneration time s \<le> capacity s"
proof -
  define hour where "hour = real (getHours time) + real (getMinutes time) / 60"
  define base where
    "base = (if hour \<ge> 6 \<and> hour \<le> 18 then sin (((hour - 6) / 12) * pi) * capacity s else 0)"
  define effectiveDust where
    "effectiveDust = (case dustOverride (anomalyOverrides s) of
       Some d \<Rightarrow> d | None \<Rightarrow> dustLevel (environmentalFactors s))"
  define effectiveCloud where
    "effectiveCloud = (case cloudOverride (anomalyOverrides s) of
       Some c \<Rightarrow> c | None \<Rightarrow> cloudCover (environmentalFactors s))"
  define tempFactor where
    "tempFactor = 1 - max 0 ((temperature (environmentalFactors s) - 25) * 0.004)"
  define dustFactor where "dustFactor = 1 - (effectiveDust / 100) * 0.3"
  define cloudFactor where "cloudFactor = 1 - (effectiveCloud / 100) * 0.5"
  define af where "af = anomalyFactor 1 (anomalies s)"
  have gen: "calculateSolarGeneration time s = base * tempFactor * dustFactor * cloudFactor * af"
    by (simp add: calculateSolarGeneration_def Let_def hour_def base_def effectiveDust_def
        effectiveCloud_def tempFactor_def dustFactor_def cloudFactor_def af_def)
  have base: "0 \<le> base \<and> base \<le> capacity s"
  proof (cases "hour \<ge> 6 \<and> hour \<le> 18")
    case True
    have "0 \<le> (hour - 6) / 12 * pi" using True by simp
    moreover have "(hour - 6) / 12 * pi \<le> pi"
    proof -
      have "(hour - 6) / 12 \<le> 1" using True by simp
      then have "(hour - 6) / 12 * pi \<le> 1 * pi"
        by (intro mult_right_mono) (auto simp: pi_ge_zero)
      then show ?thesis by simp
    qed
    ultimately have "0 \<le> sin ((hour - 6) / 12 * pi)"
      by (rule sin_ge_zero)
    moreover have "sin ((hour - 6) / 12 * pi) \<le> 1" by (rule sin_le_one)
    ultimately have "0 \<le> sin ((hour - 6) / 12 * pi) * capacity s
        \<and> sin ((hour - 6) / 12 * pi) * capacity s \<le> capacity s"
      using cap by (simp add: mult_nonneg_nonneg mult_left_le_one_le)
    then show ?thesis using True by (simp add: base_def)
  next
    case False
    then have "base = 0" unfolding base_def by (simp only: if_False)
    then show ?thesis using cap by simp
  qed
  have ed: "0 \<le> effectiveDust \<and> effectiveDust \<le> 100"
    using dust odust by (auto simp: effectiveDust_def split: option.splits)
  have ec: "0 \<le> effectiveCloud \<and> effectiveCloud \<le> 100"
    using cloud ocloud by (auto simp: effectiveCloud_def split: option.splits)
  have tf: "0 \<le> tempFactor \<and> tempFactor \<le> 1"
    using temp by (simp add: tempFactor_def max_def)
  have df: "0 \<le> dustFactor \<and> dustFactor \<le> 1"
    using ed by (simp add: dustFactor_def)
  have cf: "0 \<le> cloudFactor \<and> cloudFactor \<le> 1"
    using ec by (simp add: cloudFactor_def)
  have "\<forall>a \<in> set (anomalies s). 0 \<le> impact a \<and> impact a \<le> 100"
    using imp impactOf_range by simp
  then have aff: "0 \<le> af \<and> af \<le> 1"
    unfolding af_def by (intro anomalyFactor_range) simp_all
  have s1: "0 \<le> base * tempFactor \<and> base * tempFactor \<le> capacity s"
    using base tf by (intro scaled_within) simp_all
  have s2: "0 \<le> base * tempFactor * dustFactor \<and> base * tempFactor * dustFactor \<le> capacity s"
    using s1 df by (intro scaled_within) simp_all
  have s3: "0 \<le> base * tempFactor * dustFactor * cloudFactor
      \<and> base * tempFactor * dustFactor * cloudFactor \<le> capacity s"
    using s2 cf by (intro scaled_within) simp_all
  have "0 \<le> base * tempFactor * dustFactor * cloudFactor * af
      \<and> base * tempFactor * dustFactor * cloudFactor * af \<le> capacity s"
    using s3 aff by (intro scaled_within) simp_all
  then show ?thesis by (simp add: gen)
qed

text \<open>At noon, on the plant with one panel fault.\<close>

theorem generation_within_capacity_witness:
  "capacity faultPlant = 100
   \<and> 0 \<le> calculateSolarGeneration 43200000 faultPlant
   \<and> calculateSolarGeneration 43200000 faultPlant \<le> 100"
proof -
  have env: "environmentalFactors faultPlant
      = \<lparr>temperature = 30, dustLevel = 5, cloudCover = 7, humidity = 10\<rparr>"
    by (simp add: faultPlant_def)
  have ov: "anomalyOverrides faultPlant = \<lparr>dustOverride = None, cloudOverride = None\<rparr>"
    by (simp add: faultPlant_def)
  have cap: "capacity faultPlant = 100"
    by (simp add: faultPlant_def)
  have imp: "\<And>a. a \<in> set (anomalies faultPlant) \<Longrightarrow> impact a = impactOf (atype a)"
    by (simp add: newAnomaly_def impactOf_def anomalyTypes_def)
  show ?thesis
    using generation_within_capacity[of faultPlant 43200000] env ov cap imp by simp
qed

section \<open>Claims on equipment\<close>

text \<open>
  Claim C2 does not hold of \<open>generateAnomaly\<close>: it draws among all panels, also those that an
  active anomaly already lists. Two panel faults raised by hand, with a random source that
  returns 0, are both active and both list panel 1.
\<close>

theorem two_active_anomalies_claim_one_panel:
  "reachable doubleFaultPlant
   \<and> map (\<lambda>a. (active a, affectedEquipment a)) (anomalies doubleFaultPlant)
       = [(True, [(Panel, 1)]), (True, [(Panel, 1)])]"
proof -
  have "anomalies doubleFaultPlant =
     anomalies faultPlant
       @ [(newAnomaly 39600200 PanelFault (''Panel Fault'', Section 1, 15, Critical) 39600200)
          \<lparr>affectedEquipment := [(Panel, 1)], location := SectionCell 1 1\<rparr>]"
    using generateAnomaly_PanelFault_zeros[of faultPlant "(Panel, 1)"
        "map (Pair Panel) [2..<21]" 39600200]
    by (simp add: doubleFaultPlant_def)
  then have "map (\<lambda>a. (active a, affectedEquipment a)) (anomalies doubleFaultPlant)
       = [(True, [(Panel, 1)]), (True, [(Panel, 1)])]"
    by (simp add: newAnomaly_def)
  then show ?thesis using reachable_doubleFaultPlant by simp
qed

section \<open>Automatic resolution\<close>

text \<open>
  Claim C3, as amended. In one sweep of \<open>checkAnomalies\<close> at \<open>now\<close>, an anomaly that is active
  and whose creation lies 200 seconds or more back is inactive afterwards, resolved by the
  timeout at \<open>now\<close>, and its escalation level and escalation stamp are the ones it had: the
  escalation test is not reached for it. For a dust storm or a cloud spike the override of its
  kind is cleared right after its callback and still at the end of the sweep. For an equipment
  anomaly every unit it claimed is released, healthy with a health in [96, 100], in the state
  \<open>transition\<close> right after its callback. At the end of the sweep such a unit is either still
  released or has been claimed again by the dust accumulation that follows a dust storm
  resolved later in the same sweep; it is still released whenever no dust storm that comes
  after the anomaly in the array times out in that sweep.
\<close>

theorem timeout_resolves_before_escalation:
  assumes src: "randomSource (rng s)"
    and i: "i < length (anomalies s)"
    and act: "active (anomalies s ! i)"
    and old: "real_of_int (now - timestamp (anomalies s ! i)) / 1000 \<ge> 200"
  shows "(let a = anomalies s ! i;
              a' = anomalies (checkAnomalies now s) ! i;
              transition = sweepPrefix now (Suc i) s;
              final = checkAnomalies now s
          in \<not> active a' \<and> resolvedBy a' = Some ByAutoTimeout \<and> resolvedAt a' = Some now
             \<and> escalationLevel a' = escalationLevel a \<and> lastEscalation a' = lastEscalation a
             \<and> (atype a = PanelFault \<or> atype a = DustAccumulation \<or> atype a = InverterOverload
                  \<longrightarrow> (\<forall>k \<in> set (affectedEquipment a). \<forall>e.
                         (map_of (equipmentHealth transition) k = Some e \<longrightarrow> released e)
                         \<and> (map_of (equipmentHealth final) k = Some e \<longrightarrow>
                              released e \<or> reclaimed now e)
                         \<and> (map_of (equipmentHealth final) k = Some e
                              \<and> (\<forall>j. i < j \<and> j < length (anomalies s)
                                     \<and> atype (anomalies s ! j) = DustStorm
                                     \<and> active (anomalies s ! j) \<longrightarrow>
                                     real_of_int (now - timestamp (anomalies s ! j)) / 1000 < 200)
                              \<longrightarrow> released e)))
             \<and> (atype a = DustStorm
                  \<longrightarrow> dustOverride (anomalyOverrides transition) = None
                      \<and> dustOverride (anomalyOverrides final) = None)
             \<and> (atype a = CloudCover
                  \<longrightarrow> cloudOverride (anomalyOverrides transition) = None
                      \<and> cloudOverride (anomalyOverrides final) = None))"
proof -
  let ?a = "anomalies s ! i"
  let ?p = "sweepPrefix now i s"
  let ?t = "sweepPrefix now (Suc i) s"
  let ?n = "length (anomalies s)"
  let ?m = "announceTimeout now ?a
      (modifyAnomaly i (\<lambda>a. a\<lparr>active := False, resolvedAt := Some now,
         resolvedBy := Some ByAutoTimeout\<rparr>) ?p)"
  have after: "anomalies (checkAnomalies now s) ! i
      = ?a\<lparr>active := False, resolvedAt := Some now, resolvedBy := Some ByAutoTimeout\<rparr>"
    using act old by (simp add: checkAnomalies_nth[OF i] anomalyAfterCheck_def)
  have pend: "anomalies ?p ! i = ?a"
    using i by (intro sweepPrefix_nth_pending) simp_all
  have t: "?t = clearEffects now ?a ?m"
    using timed_out_callback[of ?p i now] act old pend by (simp add: sweepPrefix_Suc)
  have fin: "checkAnomalies now s = updateSimulation now (sweepPrefix now ?n s)"
    by (simp add: checkAnomalies_def)
  have le: "Suc i \<le> ?n" using i by simp
  have equip: "\<forall>k \<in> set (affectedEquipment ?a). \<forall>e.
      (map_of (equipmentHealth ?t) k = Some e \<longrightarrow> released e)
      \<and> (map_of (equipmentHealth (checkAnomalies now s)) k = Some e \<longrightarrow>
           released e \<or> reclaimed now e)
      \<and> (map_of (equipmentHealth (checkAnomalies now s)) k = Some e
           \<and> (\<forall>j. i < j \<and> j < ?n \<and> atype (anomalies s ! j) = DustStorm
                  \<and> active (anomalies s ! j) \<longrightarrow>
                  real_of_int (now - timestamp (anomalies s ! j)) / 1000 < 200)
           \<longrightarrow> released e)"
    if ty: "atype ?a = PanelFault \<or> atype ?a = DustAccumulation \<or> atype ?a = InverterOverload"
  proof (intro ballI allI)
    fix k e
    assume k: "k \<in> set (affectedEquipment ?a)"
    have tr: "?t = restoreEquipment (affectedEquipment ?a) ?m"
      using t ty by (simp add: clearEffects_def)
    have srcm: "randomSource (rng ?m)" using src by simp
    have first: "\<forall>e. map_of (equipmentHealth ?t) k = Some e \<longrightarrow> released e"
      using restoreEquipment_released[OF srcm disjI1[OF k]] tr by simp
    have either: "\<forall>e. map_of (equipmentHealth (sweepPrefix now ?n s)) k = Some e \<longrightarrow>
        released e \<or> reclaimed now e"
    proof (rule sweepPrefix_keeps[OF src _ _ le order_refl])
      show "\<And>e. released e \<Longrightarrow> released e \<or> reclaimed now e" by simp
      show "\<forall>e. released e \<or> reclaimed now e \<longrightarrow>
          released (claimAfterStorm now e) \<or> reclaimed now (claimAfterStorm now e)"
        using reclaim_closed by blast
      show "\<forall>e. map_of (equipmentHealth ?t) k = Some e \<longrightarrow> released e \<or> reclaimed now e"
        using first by blast
    qed
    have still: "\<forall>e. map_of (equipmentHealth (sweepPrefix now ?n s)) k = Some e \<longrightarrow> released e"
      if quiet: "\<forall>j. i < j \<and> j < ?n \<and> atype (anomalies s ! j) = DustStorm
          \<and> active (anomalies s ! j) \<longrightarrow>
          real_of_int (now - timestamp (anomalies s ! j)) / 1000 < 200"
    proof (rule sweepPrefix_keeps[OF src _ _ le order_refl first])
      show "\<And>e. released e \<Longrightarrow> released e" by simp
      fix j
      assume "Suc i \<le> j" "j < ?n" "atype (anomalies s ! j) = DustStorm"
        "active (anomalies s ! j)" "real_of_int (now - timestamp (anomalies s ! j)) / 1000 \<ge> 200"
      moreover from this have "real_of_int (now - timestamp (anomalies s ! j)) / 1000 < 200"
        using quiet[rule_format, of j] by simp
      ultimately have False by simp
      then show "\<forall>e. released e \<longrightarrow> released (claimAfterStorm now e)" by simp
    qed
    show "(map_of (equipmentHealth ?t) k = Some e \<longrightarrow> released e)
      \<and> (map_of (equipmentHealth (checkAnomalies now s)) k = Some e \<longrightarrow>
           released e \<or> reclaimed now e)
      \<and> (map_of (equipmentHealth (checkAnomalies now s)) k = Some e
           \<and> (\<forall>j. i < j \<and> j < ?n \<and> atype (anomalies s ! j) = DustStorm
                  \<and> active (anomalies s ! j) \<longrightarrow>
                  real_of_int (now - timestamp (anomalies s ! j)) / 1000 < 200)
           \<longrightarrow> released e)"
      using first either still by (simp add: fin)
  qed
  have dust: "dustOverride (anomalyOverrides ?t) = None
      \<and> dustOverride (anomalyOverrides (checkAnomalies now s)) = None"
    if ty: "atype ?a = DustStorm"
  proof -
    have "dustOverride (anomalyOverrides ?t) = None"
      using t ty clearEffects_overrides[of ?m ?a now] by simp
    then show ?thesis using sweepPrefix_overrides[OF le, of now s] fin by simp
  qed
  have cloud: "cloudOverride (anomalyOverrides ?t) = None
      \<and> cloudOverride (anomalyOverrides (checkAnomalies now s)) = None"
    if ty: "atype ?a = CloudCover"
  proof -
    have "cloudOverride (anomalyOverrides ?t) = None"
      using t ty clearEffects_overrides[of ?m ?a now] by simp
    then show ?thesis using sweepPrefix_overrides[OF le, of now s] fin by simp
  qed
  show ?thesis
    unfolding Let_def using after equip dust cloud by simp
qed


text \<open>The dust storm of \<open>stormPlant\<close>, swept 200 seconds after it was raised; and the first of
  the two panel faults of \<open>doubleFaultPlant\<close>, swept when both are 200 seconds old: the
  anomaly after it in the array is a panel fault, and panel 1 is released at the end.\<close>

theorem timeout_resolves_before_escalation_witness:
  "active (anomalies stormPlant ! 0)
   \<and> atype (anomalies stormPlant ! 0) = DustStorm
   \<and> \<not> active (anomalies (checkAnomalies 39800100 stormPlant) ! 0)
   \<and> resolvedBy (anomalies (checkAnomalies 39800100 stormPlant) ! 0) = Some ByAutoTimeout
   \<and> escalationLevel (anomalies (checkAnomalies 39800100 stormPlant) ! 0) = 0
   \<and> dustOverride (anomalyOverrides (checkAnomalies 39800100 stormPlant)) = None
   \<and> active (anomalies doubleFaultPlant ! 0)
   \<and> atype (anomalies doubleFaultPlant ! 0) = PanelFault
   \<and> affectedEquipment (anomalies doubleFaultPlant ! 0) = [(Panel, 1)]
   \<and> \<not> active (anomalies (checkAnomalies 39800200 doubleFaultPlant) ! 0)
   \<and> resolvedBy (anomalies (checkAnomalies 39800200 doubleFaultPlant) ! 0)
        = Some ByAutoTimeout
   \<and> escalationLevel (anomalies (checkAnomalies 39800200 doubleFaultPlant) ! 0) = 0
   \<and> (\<exists>e. map_of (equipmentHealth (checkAnomalies 39800200 doubleFaultPlant)) (Panel, 1)
            = Some e \<and> released e)"
proof -
  have a: "anomalies stormPlant ! 0
      = newAnomaly 39600100 DustStorm (''Dust Storm'', EntireFacility, 30, Warning) 39600100"
    by (simp add: stormPlant_anomalies)
  have i: "0 < length (anomalies stormPlant)" by (simp add: stormPlant_anomalies)
  have act: "active (anomalies stormPlant ! 0)" by (simp add: a newAnomaly_def)
  have old: "real_of_int (39800100 - timestamp (anomalies stormPlant ! 0)) / 1000 \<ge> 200"
    by (simp add: a newAnomaly_def)
  have ty: "atype (anomalies stormPlant ! 0) = DustStorm" by (simp add: a newAnomaly_def)
  have lv: "escalationLevel (anomalies stormPlant ! 0) = 0" by (simp add: a newAnomaly_def)
  have storm: "\<not> active (anomalies (checkAnomalies 39800100 stormPlant) ! 0)
      \<and> resolvedBy (anomalies (checkAnomalies 39800100 stormPlant) ! 0) = Some ByAutoTimeout
      \<and> escalationLevel (anomalies (checkAnomalies 39800100 stormPlant) ! 0) = 0
      \<and> dustOverride (anomalyOverrides (checkAnomalies 39800100 stormPlant)) = None"
    using timeout_resolves_before_escalation[OF randomSource_stormPlant i act old]
      act ty lv
    by (simp add: Let_def)
  let ?d = doubleFaultPlant
  let ?f = "checkAnomalies 39800200 ?d"
  have src': "randomSource (rng ?d)"
    by (simp add: doubleFaultPlant_fields(1) randomSource_zeros)
  have i': "0 < length (anomalies ?d)" by (simp add: doubleFaultPlant_fields(2))
  have act': "active (anomalies ?d ! 0)"
    by (simp add: doubleFaultPlant_fields(2) newAnomaly_def)
  have old': "real_of_int (39800200 - timestamp (anomalies ?d ! 0)) / 1000 \<ge> 200"
    by (simp add: doubleFaultPlant_fields(2) newAnomaly_def)
  have ty': "atype (anomalies ?d ! 0) = PanelFault"
    by (simp add: doubleFaultPlant_fields(2) newAnomaly_def)
  have lv': "escalationLevel (anomalies ?d ! 0) = 0"
    by (simp add: doubleFaultPlant_fields(2) newAnomaly_def)
  have eq': "affectedEquipment (anomalies ?d ! 0) = [(Panel, 1)]"
    by (simp add: doubleFaultPlant_fields(2) newAnomaly_def)
  have quiet: "\<forall>j. 0 < j \<and> j < length (anomalies ?d) \<and> atype (anomalies ?d ! j) = DustStorm
      \<and> active (anomalies ?d ! j) \<longrightarrow>
      real_of_int (39800200 - timestamp (anomalies ?d ! j)) / 1000 < 200"
    by (auto simp: doubleFaultPlant_fields(2) newAnomaly_def less_Suc_eq)
  have "hasEquipment ?f (Panel, 1)"
    by (simp add: hasEquipment_iff doubleFaultPlant_fields(3) equipmentIds_def)
  then obtain e where e: "map_of (equipmentHealth ?f) (Panel, 1) = Some e"
    by (auto simp: hasEquipment_def)
  have fault: "\<not> active (anomalies ?f ! 0) \<and> resolvedBy (anomalies ?f ! 0) = Some ByAutoTimeout
      \<and> escalationLevel (anomalies ?f ! 0) = 0 \<and> released e"
    using timeout_resolves_before_escalation[OF src' i' act' old'] ty' lv' eq' quiet e
    by (simp add: Let_def)
  then have ex: "\<exists>e. map_of (equipmentHealth ?f) (Panel, 1) = Some e \<and> released e"
    using e by blast
  show ?thesis
    using act ty storm act' ty' eq' fault ex by simp
qed

text \<open>
  The claim as stated fails for the units. The plant holds a panel fault on panel 1 and, after
  it in the array, a dust storm, both raised by hand and both 200 seconds old at the sweep.
  The sweep resolves the panel fault and releases panel 1, then resolves the storm, whose
  cascade claims panel 1: when \<open>checkAnomalies\<close> returns, the panel is degraded with a health
  of 71 and not healthy with a health in [96, 100].
\<close>

theorem released_panel_claimed_again_in_sweep:
  "reachable faultStormPlant
   \<and> map (\<lambda>a. (atype a, active a, affectedEquipment a)) (anomalies faultStormPlant)
       = [(PanelFault, True, [(Panel, 1)]), (DustStorm, True, [])]
   \<and> real_of_int (39800200 - timestamp (anomalies faultStormPlant ! 0)) / 1000 \<ge> 200
   \<and> map (\<lambda>a. (atype a, active a, resolvedBy a))
         (take 2 (anomalies (checkAnomalies 39800200 faultStormPlant)))
       = [(PanelFault, False, Some ByAutoTimeout), (DustStorm, False, Some ByAutoTimeout)]
   \<and> map_of (equipmentHealth (checkAnomalies 39800200 faultStormPlant)) (Panel, 1)
       = Some \<lparr>ename = (Panel, 1), health = 71, status = Degraded,
               issues = [''dust accumulation''], anomalyRef = Some 39800200\<rparr>"
proof -
  let ?s = faultStormPlant
  obtain ext where "anomalies (checkAnomalies 39800200 ?s)
      = map (anomalyAfterCheck 39800200) (anomalies ?s) @ ext"
    using checkAnomalies_anomalies by blast
  then have "take 2 (anomalies (checkAnomalies 39800200 ?s))
      = map (anomalyAfterCheck 39800200) (anomalies ?s)"
    by (simp add: faultStormPlant_fields(3))
  then have swept: "map (\<lambda>a. (atype a, active a, resolvedBy a))
         (take 2 (anomalies (checkAnomalies 39800200 ?s)))
       = [(PanelFault, False, Some ByAutoTimeout), (DustStorm, False, Some ByAutoTimeout)]"
    by (simp add: faultStormPlant_fields(3) anomalyAfterCheck_def newAnomaly_def)
  have before: "map (\<lambda>a. (atype a, active a, affectedEquipment a)) (anomalies ?s)
       = [(PanelFault, True, [(Panel, 1)]), (DustStorm, True, [])]"
    by (simp add: faultStormPlant_fields(3) newAnomaly_def)
  have old: "real_of_int (39800200 - timestamp (anomalies ?s ! 0)) / 1000 \<ge> 200"
    by (simp add: faultStormPlant_fields(3) newAnomaly_def)
  show ?thesis
    using reachable_faultStormPlant before old swept faultStormPlant_swept by simp
qed

section \<open>Escalation\<close>

text \<open>
  Claim C4. In every reachable state, no anomaly has an escalation level above 3, nor above 1
  when its type is dust storm or cloud cover. A sweep of \<open>checkAnomalies\<close> leaves the level of an
  anomaly as it was or raises it by one, and a raise stamps \<open>lastEscalation\<close> with the time of
  the sweep. No other handler changes a level.
\<close>

theorem escalation_capped:
  assumes "reachable s"
  shows "(\<forall>a \<in> set (anomalies s).
            escalationLevel a \<le> (if atype a = DustStorm \<or> atype a = CloudCover then 1 else 3))
         \<and> (\<forall>now i. i < length (anomalies s) \<longrightarrow>
               (let a = anomalies s ! i; a' = anomalies (checkAnomalies now s) ! i
                in escalationLevel a' = escalationLevel a
                   \<or> (escalationLevel a' = escalationLevel a + 1 \<and> lastEscalation a' = now)))"
proof -
  have "list_all escalationWithinCap (anomalies s)"
    using assms by (rule reachable_withinCap)
  then have cap: "\<forall>a \<in> set (anomalies s).
      escalationLevel a \<le> (if atype a = DustStorm \<or> atype a = CloudCover then 1 else 3)"
    by (simp add: list_all_iff escalationWithinCap_def maxEscalation_def)
  have stamp: "escalationLevel (anomalyAfterCheck now a) = escalationLevel a
      \<or> (escalationLevel (anomalyAfterCheck now a) = escalationLevel a + 1
          \<and> lastEscalation (anomalyAfterCheck now a) = now)" for now a
    by (simp add: anomalyAfterCheck_def)
  show ?thesis
    using cap stamp by (simp add: checkAnomalies_nth Let_def)
qed

text \<open>The dust storm of \<open>stormPlant\<close>, swept one minute after it was raised: level 1, the cap
  of its type.\<close>

theorem escalation_capped_witness:
  "reachable escalatedPlant
   \<and> atype (anomalies escalatedPlant ! 0) = DustStorm
   \<and> escalationLevel (anomalies escalatedPlant ! 0) = 1
   \<and> escalationLevel (anomalies escalatedPlant ! 0) \<le> 1
   \<and> lastEscalation (anomalies escalatedPlant ! 0) = 39660100"
proof -
  let ?storm = "newAnomaly 39600100 DustStorm (''Dust Storm'', EntireFacility, 30, Warning)
      39600100"
  have n: "anomalies escalatedPlant ! 0 = anomalyAfterCheck 39660100 ?storm"
    using checkAnomalies_nth[of 0 stormPlant 39660100]
    by (simp add: escalatedPlant_def stormPlant_anomalies)
  have e: "atype (anomalies escalatedPlant ! 0) = DustStorm"
    "escalationLevel (anomalies escalatedPlant ! 0) = 1"
    "lastEscalation (anomalies escalatedPlant ! 0) = 39660100"
    by (simp_all add: n anomalyAfterCheck_def newAnomaly_def maxEscalation_def)
  have len: "0 < length (anomalies escalatedPlant)"
  proof -
    obtain ext where "anomalies (checkAnomalies 39660100 stormPlant)
        = map (anomalyAfterCheck 39660100) (anomalies stormPlant) @ ext"
      using checkAnomalies_anomalies by blast
    then show ?thesis by (simp add: escalatedPlant_def stormPlant_anomalies)
  qed
  then have mem: "anomalies escalatedPlant ! 0 \<in> set (anomalies escalatedPlant)"
    by simp
  have "escalationLevel (anomalies escalatedPlant ! 0)
      \<le> (if atype (anomalies escalatedPlant ! 0) = DustStorm
            \<or> atype (anomalies escalatedPlant ! 0) = CloudCover then 1 else 3)"
    using escalation_capped[OF reachable_escalatedPlant] mem by blast
  then show ?thesis
    using reachable_escalatedPlant by (simp add: e)
qed

section \<open>Storm cascade\<close>

text \<open>
  Claim C5 does not hold of \<open>generateDustAccumulationAfterStorm\<close>: the loop runs 4 to 8 times,
  and an iteration that draws a panel already selected selects nothing. With a random source
  that returns 0, the dust storm resolved by the timeout is followed by a dust accumulation
  that lists one panel.
\<close>

theorem storm_cascade_claims_one_panel:
  "reachable afterStormPlant
   \<and> map (\<lambda>a. (atype a, active a, resolvedBy a, causedBy a, affectedEquipment a))
         (anomalies afterStormPlant)
       = [(DustStorm, False, Some ByAutoTimeout, None, []),
          (DustAccumulation, True, None, Some DustStorm, [(Panel, 1)])]"
  using reachable_afterStormPlant by (simp add: afterStormPlant_anomalies newAnomaly_def)

section \<open>Daily cumulative\<close>

text \<open>
  Claim C6, as amended. \<open>updateSimulation\<close> sets \<open>dailyCumulative\<close> to 0 when the hour of the last
  update is 23 and the current hour is 0, and otherwise adds the new \<open>currentGeneration\<close> times
  the hours elapsed since the last update. \<open>advanceTime\<close> leaves \<open>dailyCumulative\<close> at 0 whenever
  the hour of the advanced time is 0, whatever the hour of the last update, and otherwise
  adds the new \<open>currentGeneration\<close> times the hours elapsed.
\<close>

theorem cumulative_update_and_reset:
  "dailyCumulative (updateSimulation now s) =
     (if getHours (lastUpdateTime s) = 23 \<and> getHours (getCurrentTime now s) = 0 then 0
      else dailyCumulative s
             + currentGeneration (updateSimulation now s)
                 * (real_of_int (getCurrentTime now s - lastUpdateTime s) / 3600000))
   \<and> dailyCumulative (advanceTime now s) =
       (if getHours (getCurrentTime now s + 3600000) = 0 then 0
        else dailyCumulative s
               + currentGeneration (advanceTime now s)
                   * (real_of_int (getCurrentTime now s + 3600000 - lastUpdateTime s) / 3600000))"
proof -
  let ?new = "getCurrentTime now s + 3600000"
  have adv: "dailyCumulative (advanceTime now s) =
       (if getHours ?new = 0 then 0
        else dailyCumulative s
               + currentGeneration (advanceTime now s)
                   * (real_of_int (?new - lastUpdateTime s) / 3600000))"
  proof (cases "getHours ?new = 0")
    case True
    have "calculateSolarGeneration ?new s' = 0" for s'
      using True by (intro night_generation) simp
    then show ?thesis using True
      by (simp add: advanceTime_def Let_def updateSimulation_cumulative
          updateSimulation_generation getCurrentTime_def)
  next
    case False
    then show ?thesis
      by (simp add: advanceTime_def Let_def updateSimulation_cumulative
          updateSimulation_generation getCurrentTime_def)
  qed
  show ?thesis using updateSimulation_cumulative adv by blast
qed

text \<open>
  The claim as stated fails on \<open>advanceTime\<close>. The plant was last updated at 22:59:59.900 with
  a positive cumulative; the button is pressed in real-time mode at 23:00:00.100. The hour of
  the last update is 22, not 23, and the generation at the advanced time is 0, so the claim
  leaves the cumulative as it was; the code sets it to 0.
\<close>

theorem cumulative_reset_without_crossing:
  "reachable eveningPlant
   \<and> getHours (lastUpdateTime eveningPlant) = 22
   \<and> getHours (getCurrentTime 82800100 eveningPlant) = 23
   \<and> 0 < dailyCumulative eveningPlant
   \<and> currentGeneration (advanceTime 82800100 eveningPlant) = 0
   \<and> dailyCumulative (advanceTime 82800100 eveningPlant) = 0"
proof -
  have new: "getCurrentTime 82800100 eveningPlant + 3600000 = 86400100"
    by (simp add: getCurrentTime_def eveningPlant_fields)
  have h: "getHours (86400100::int) = 0" by simp
  have "calculateSolarGeneration 86400100 s' = 0" for s'
    by (intro night_generation) simp
  then have gen: "currentGeneration (advanceTime 82800100 eveningPlant) = 0"
    by (simp add: advanceTime_def Let_def updateSimulation_generation getCurrentTime_def
        eveningPlant_fields)
  have c: "dailyCumulative (advanceTime 82800100 eveningPlant) =
       (if getHours (getCurrentTime 82800100 eveningPlant + 3600000) = 0 then 0
        else dailyCumulative eveningPlant
               + currentGeneration (advanceTime 82800100 eveningPlant)
                   * (real_of_int (getCurrentTime 82800100 eveningPlant + 3600000
                        - lastUpdateTime eveningPlant) / 3600000))"
    by (simp add: advanceTime_def Let_def updateSimulation_cumulative
          updateSimulation_generation getCurrentTime_def eveningPlant_fields
          night_generation)
  then have dc: "dailyCumulative (advanceTime 82800100 eveningPlant) = 0"
    by (simp add: new)
  show ?thesis
    using reachable_eveningPlant gen dc
    by (simp add: eveningPlant_fields getCurrentTime_def)
qed

section \<open>Manual correction\<close>

text \<open>
  Claim C7. When no anomaly of the state has the id, or the anomaly that \<open>find\<close> returns for
  the id (the first with that id) is not active, \<open>correctAnomaly\<close> returns the state it was
  given: anomalies, equipment, overrides, log and alerts are all unchanged.
\<close>

theorem correctAnomaly_noop:
  assumes "(\<forall>a \<in> set (anomalies s). aid a \<noteq> anomalyId)
           \<or> (\<exists>a. find (\<lambda>a. aid a = anomalyId) (anomalies s) = Some a \<and> \<not> active a)"
  shows "correctAnomaly now anomalyId s = s"
proof (cases "findIndex (\<lambda>a. aid a = anomalyId) (anomalies s)")
  case None
  then show ?thesis by (simp add: correctAnomaly_def)
next
  case (Some i)
  then have "\<not> (\<forall>a \<in> set (anomalies s). aid a \<noteq> anomalyId)"
    using findIndex_None[of "\<lambda>a. aid a = anomalyId" "anomalies s"] by auto
  with assms obtain a where
    "find (\<lambda>a. aid a = anomalyId) (anomalies s) = Some a" and na: "\<not> active a"
    by blast
  then have "a = anomalies s ! i"
    using Some by (simp add: findIndex_find)
  then show ?thesis using Some na by (simp add: correctAnomaly_def)
qed

text \<open>After the sweep that resolved the storm: its id, and an id that no anomaly has.\<close>

theorem correctAnomaly_noop_witness:
  "correctAnomaly 39900000 39600100 afterStormPlant = afterStormPlant
   \<and> correctAnomaly 39900000 7 afterStormPlant = afterStormPlant"
proof -
  have "\<exists>a. find (\<lambda>a. aid a = 39600100) (anomalies afterStormPlant) = Some a \<and> \<not> active a"
    by (simp add: afterStormPlant_anomalies newAnomaly_def)
  then have a: "correctAnomaly 39900000 39600100 afterStormPlant = afterStormPlant"
    by (intro correctAnomaly_noop) simp
  have "\<forall>a \<in> set (anomalies afterStormPlant). aid a \<noteq> 7"
    by (simp add: afterStormPlant_anomalies newAnomaly_def)
  then have b: "correctAnomaly 39900000 7 afterStormPlant = afterStormPlant"
    by (intro correctAnomaly_noop) simp
  show ?thesis using a b by simp
qed

section \<open>Properties of the conversation history\<close>

lemma strictAlternation_append:
  "strictAlternation xs \<Longrightarrow> strictAlternation ys \<Longrightarrow> strictAlternation (xs @ ys)"
  by (induction xs rule: strictAlternation.induct) auto

lemma strictAlternation_last:
  "strictAlternation xs \<Longrightarrow> xs \<noteq> [] \<Longrightarrow> role (last xs) = ''assistant''"
  by (induction xs rule: strictAlternation.induct) auto

lemma strictAlternation_hd:
  "strictAlternation xs \<Longrightarrow> xs \<noteq> [] \<Longrightarrow> role (hd xs) = ''user''"
  by (induction xs rule: strictAlternation.induct) auto

lemma pendingUser_close:
  assumes "pendingUser fixed" and "role m = ''assistant''"
  shows "strictAlternation (fixed @ [m])"
proof -
  from assms obtain P u where f: "fixed = P @ [u]" and P: "strictAlternation P"
    and u: "role u = ''user''"
    by (auto simp: pendingUser_def)
  have "strictAlternation (P @ [u, m])"
    using P u assms(2) by (intro strictAlternation_append) auto
  then show ?thesis using f by simp
qed

lemma pendingUser_open:
  assumes "strictAlternation fixed" and "role m = ''user''"
  shows "pendingUser (fixed @ [m])"
  using assms by (auto simp: pendingUser_def)

lemma validateLoop_shape:
  "(strictAlternation fixed \<longrightarrow>
      strictAlternation (validateLoop xs ''user'' fixed)
      \<or> pendingUser (validateLoop xs ''user'' fixed))
   \<and> (pendingUser fixed \<longrightarrow>
      strictAlternation (validateLoop xs ''assistant'' fixed)
      \<or> pendingUser (validateLoop xs ''assistant'' fixed))"
proof (induction xs arbitrary: fixed)
  case Nil
  show ?case by simp
next
  case (Cons msg rest)
  let ?ph = "\<lparr>role = ''assistant'', content = ''I understand.''\<rparr>"
  have fill: "pendingUser fixed \<Longrightarrow> role msg = ''user'' \<Longrightarrow> pendingUser (fixed @ [?ph, msg])"
  proof -
    assume p: "pendingUser fixed" and r: "role msg = ''user''"
    have "strictAlternation (fixed @ [?ph])"
      using p by (rule pendingUser_close) simp
    then have "pendingUser ((fixed @ [?ph]) @ [msg])"
      using r by (rule pendingUser_open)
    then show ?thesis by simp
  qed
  show ?case
    using Cons.IH[of fixed] Cons.IH[of "fixed @ [msg]"] Cons.IH[of "fixed @ [?ph, msg]"]
      pendingUser_open[of fixed msg] pendingUser_close[of fixed msg] fill
    by auto
qed

lemma validate_strictAlternation: "strictAlternation (validateConversationHistory h)"
proof (cases "h = []")
  case True
  then show ?thesis by (simp add: validateConversationHistory_def)
next
  case False
  let ?R = "validateLoop h ''user'' []"
  have "strictAlternation ?R \<or> pendingUser ?R"
    using validateLoop_shape[of "[]" h] by simp
  then show ?thesis
  proof
    assume a: "strictAlternation ?R"
    then have "?R \<noteq> [] \<Longrightarrow> role (last ?R) \<noteq> ''user''"
      using strictAlternation_last[of ?R] by auto
    then show ?thesis using a False by (auto simp: validateConversationHistory_def Let_def)
  next
    assume p: "pendingUser ?R"
    then have u: "?R \<noteq> [] \<and> role (last ?R) = ''user''"
      by (auto simp: pendingUser_def)
    have "strictAlternation
        (?R @ [\<lparr>role = ''assistant'', content = ''I understand. Please continue.''\<rparr>])"
      using p by (rule pendingUser_close) simp
    then show ?thesis using u False by (simp add: validateConversationHistory_def Let_def)
  qed
qed

lemma validateLoop_users:
  "expectedRole = ''user'' \<or> expectedRole = ''assistant'' \<Longrightarrow>
   filter (\<lambda>m. role m = ''user'') (validateLoop xs expectedRole fixed)
     = filter (\<lambda>m. role m = ''user'') fixed @ filter (\<lambda>m. role m = ''user'') xs"
  by (induction xs expectedRole fixed rule: validateLoop.induct) auto

lemma validate_users:
  "filter (\<lambda>m. role m = ''user'') (validateConversationHistory h)
     = filter (\<lambda>m. role m = ''user'') h"
  by (simp add: validateConversationHistory_def Let_def validateLoop_users)

lemma validateLoop_set:
  "set (validateLoop xs expectedRole fixed)
     \<subseteq> set fixed \<union> set xs \<union> {\<lparr>role = ''assistant'', content = ''I understand.''\<rparr>}"
  by (induction xs expectedRole fixed rule: validateLoop.induct) auto

lemma validate_set:
  "set (validateConversationHistory h)
     \<subseteq> set h \<union> {\<lparr>role = ''assistant'', content = ''I understand.''\<rparr>,
                  \<lparr>role = ''assistant'', content = ''I understand. Please continue.''\<rparr>}"
  using validateLoop_set[of h "''user''" "[]"]
  by (auto simp: validateConversationHistory_def Let_def)

lemma validateLoop_valid:
  "strictAlternation xs \<Longrightarrow> validateLoop xs ''user'' fixed = fixed @ xs"
  by (induction xs arbitrary: fixed rule: strictAlternation.induct) auto

lemma validate_valid:
  assumes "strictAlternation h"
  shows "validateConversationHistory h = h"
proof (cases "h = []")
  case True
  then show ?thesis by (simp add: validateConversationHistory_def)
next
  case False
  then have "role (last h) = ''assistant''" using assms by (rule strictAlternation_last[rotated])
  then show ?thesis
    using assms by (simp add: validateConversationHistory_def Let_def validateLoop_valid)
qed

lemma validateLoop_extends: "\<exists>zs. validateLoop xs expectedRole fixed = fixed @ zs"
  by (induction xs expectedRole fixed rule: validateLoop.induct) auto

lemma validateLoop_answered:
  assumes "role u = ''user''" and "role a = ''assistant''"
  shows "expectedRole = ''user'' \<or> expectedRole = ''assistant'' \<Longrightarrow>
    \<exists>before after. validateLoop (xs @ u # a # ys) expectedRole fixed = before @ u # a # after"
proof (induction xs arbitrary: expectedRole fixed)
  case Nil
  obtain zs where z: "validateLoop ys ''user'' (fixed @ [u, a]) = (fixed @ [u, a]) @ zs"
    using validateLoop_extends by blast
  obtain zs' where z': "validateLoop ys ''user''
        (fixed @ [\<lparr>role = ''assistant'', content = ''I understand.''\<rparr>, u, a])
      = (fixed @ [\<lparr>role = ''assistant'', content = ''I understand.''\<rparr>, u, a]) @ zs'"
    using validateLoop_extends by blast
  from Nil show ?case
  proof
    assume "expectedRole = ''user''"
    then have "validateLoop ([] @ u # a # ys) expectedRole fixed = fixed @ u # a # zs"
      using assms z by simp
    then show ?thesis by blast
  next
    assume "expectedRole = ''assistant''"
    then have "validateLoop ([] @ u # a # ys) expectedRole fixed
        = (fixed @ [\<lparr>role = ''assistant'', content = ''I understand.''\<rparr>]) @ u # a # zs'"
      using assms z' by simp
    then show ?thesis by blast
  qed
next
  case (Cons x xs)
  show ?case
    using Cons.prems Cons.IH[of "''user''"] Cons.IH[of "''assistant''"] by auto
qed

lemma validate_answered:
  assumes "role u = ''user''" and "role a = ''assistant''"
  shows "\<exists>before after. validateConversationHistory (xs @ u # a # ys) = before @ u # a # after"
proof -
  obtain b c where "validateLoop (xs @ u # a # ys) ''user'' [] = b @ u # a # c"
    using validateLoop_answered[OF assms, of "''user''" xs ys "[]"] by blast
  then show ?thesis
    by (auto simp: validateConversationHistory_def Let_def intro: exI[of _ b])
qed

lemma validate_corruptedHistory:
  "validateConversationHistory corruptedHistory =
     [\<lparr>role = ''user'', content = ''first''\<rparr>,
      \<lparr>role = ''assistant'', content = ''answer''\<rparr>,
      \<lparr>role = ''user'', content = ''second''\<rparr>,
      \<lparr>role = ''assistant'', content = ''I understand.''\<rparr>,
      \<lparr>role = ''user'', content = ''third''\<rparr>,
      \<lparr>role = ''assistant'', content = ''I understand. Please continue.''\<rparr>]"
  by (simp add: validateConversationHistory_def corruptedHistory_def)

lemma validate_longHistory:
  "validateConversationHistory longHistory
     = concat (replicate 12 [\<lparr>role = ''user'', content = ''question''\<rparr>,
                             \<lparr>role = ''assistant'', content = ''reply''\<rparr>])"
  by (simp add: longHistory_def validateConversationHistory_def numeral_eq_Suc)

text \<open>
  Claim C8. Whatever the stored history holds, \<open>validateConversationHistory\<close> leaves it in
  strict alternation: user, assistant, user, assistant, ..., so that a history that is not
  empty starts with a user message and ends with an assistant message. The repair keeps every
  user message, in the order of the input; every message of the result is a message of the
  input or one of the two placeholder assistant messages; an assistant message that directly
  follows a user message is kept right after it, so only orphaned assistant messages are
  dropped; and a history that alternates already is returned as it is. A send that succeeds
  stores the validated history followed by the prompt and the reply, cut to its last 25
  entries, so at most 25 entries are kept.
\<close>

theorem history_repaired_and_bounded:
  "strictAlternation (validateConversationHistory h)
   \<and> (validateConversationHistory h \<noteq> [] \<longrightarrow>
        role (hd (validateConversationHistory h)) = ''user''
        \<and> role (last (validateConversationHistory h)) = ''assistant'')
   \<and> filter (\<lambda>m. role m = ''user'') (validateConversationHistory h)
        = filter (\<lambda>m. role m = ''user'') h
   \<and> set (validateConversationHistory h)
        \<subseteq> set h \<union> {\<lparr>role = ''assistant'', content = ''I understand.''\<rparr>,
                     \<lparr>role = ''assistant'', content = ''I understand. Please continue.''\<rparr>}
   \<and> (h = xs @ u # a # ys \<and> role u = ''user'' \<and> role a = ''assistant'' \<longrightarrow>
        (\<exists>before after. validateConversationHistory h = before @ u # a # after))
   \<and> (strictAlternation h \<longrightarrow> validateConversationHistory h = h)
   \<and> (sendMessage isConnected response prompt h = (Message reply, h') \<longrightarrow>
        length h' \<le> 25
        \<and> h' = (let pushed = validateConversationHistory h
                       @ [\<lparr>role = ''user'', content = prompt\<rparr>,
                          \<lparr>role = ''assistant'', content = reply\<rparr>]
                in drop (length pushed - 25) pushed))"
proof -
  have a: "strictAlternation (validateConversationHistory h)"
    by (rule validate_strictAlternation)
  have b: "validateConversationHistory h \<noteq> [] \<longrightarrow>
        role (hd (validateConversationHistory h)) = ''user''
        \<and> role (last (validateConversationHistory h)) = ''assistant''"
    using a strictAlternation_hd strictAlternation_last by blast
  have c: "filter (\<lambda>m. role m = ''user'') (validateConversationHistory h)
        = filter (\<lambda>m. role m = ''user'') h"
    by (rule validate_users)
  have d: "set (validateConversationHistory h)
        \<subseteq> set h \<union> {\<lparr>role = ''assistant'', content = ''I understand.''\<rparr>,
                     \<lparr>role = ''assistant'', content = ''I understand. Please continue.''\<rparr>}"
    by (rule validate_set)
  have e: "h = xs @ u # a # ys \<and> role u = ''user'' \<and> role a = ''assistant'' \<longrightarrow>
        (\<exists>before after. validateConversationHistory h = before @ u # a # after)"
    using validate_answered[of u a xs ys] by blast
  have f: "strictAlternation h \<longrightarrow> validateConversationHistory h = h"
    using validate_valid by blast
  have g: "sendMessage isConnected response prompt h = (Message reply, h') \<longrightarrow>
        length h' \<le> 25
        \<and> h' = (let pushed = validateConversationHistory h
                       @ [\<lparr>role = ''user'', content = prompt\<rparr>,
                          \<lparr>role = ''assistant'', content = reply\<rparr>]
                in drop (length pushed - 25) pushed)"
    by (auto simp: sendMessage_def Let_def split: if_splits sum.splits)
  show ?thesis
    by (rule conjI[OF a conjI[OF b conjI[OF c conjI[OF d conjI[OF e conjI[OF f g]]]]]])
qed

text \<open>The repair on the corrupted history: the orphan is dropped, the answered user message
  keeps its answer, the two gaps are filled, and validating the result again changes nothing.
  A successful send from the long history: the orphan at its head is dropped, prompt and reply
  make 26 entries, and the first of them is cut off.\<close>

theorem history_repaired_and_bounded_witness:
  "validateConversationHistory corruptedHistory \<noteq> []
   \<and> strictAlternation (validateConversationHistory corruptedHistory)
   \<and> role (hd (validateConversationHistory corruptedHistory)) = ''user''
   \<and> role (last (validateConversationHistory corruptedHistory)) = ''assistant''
   \<and> filter (\<lambda>m. role m = ''user'') (validateConversationHistory corruptedHistory)
        = [\<lparr>role = ''user'', content = ''first''\<rparr>, \<lparr>role = ''user'', content = ''second''\<rparr>,
           \<lparr>role = ''user'', content = ''third''\<rparr>]
   \<and> (\<exists>before after. validateConversationHistory corruptedHistory
          = before @ \<lparr>role = ''user'', content = ''first''\<rparr>
              # \<lparr>role = ''assistant'', content = ''answer''\<rparr> # after)
   \<and> validateConversationHistory (validateConversationHistory corruptedHistory)
        = validateConversationHistory corruptedHistory
   \<and> length (validateConversationHistory longHistory) = 24
   \<and> sendMessage True (Inr ''ok'') ''q'' longHistory
        = (Message ''ok'',
           tl (validateConversationHistory longHistory)
             @ [\<lparr>role = ''user'', content = ''q''\<rparr>, \<lparr>role = ''assistant'', content = ''ok''\<rparr>])
   \<and> length (tl (validateConversationHistory longHistory)
             @ [\<lparr>role = ''user'', content = ''q''\<rparr>, \<lparr>role = ''assistant'', content = ''ok''\<rparr>])
        \<le> 25"
proof -
  let ?v = "validateConversationHistory corruptedHistory"
  let ?stored = "tl (validateConversationHistory longHistory)
      @ [\<lparr>role = ''user'', content = ''q''\<rparr>, \<lparr>role = ''assistant'', content = ''ok''\<rparr>]"
  have ne: "?v \<noteq> []" by (simp add: validate_corruptedHistory)
  have split: "corruptedHistory
      = [\<lparr>role = ''assistant'', content = ''orphan''\<rparr>]
        @ \<lparr>role = ''user'', content = ''first''\<rparr> # \<lparr>role = ''assistant'', content = ''answer''\<rparr>
        # [\<lparr>role = ''user'', content = ''second''\<rparr>, \<lparr>role = ''user'', content = ''third''\<rparr>]"
    by (simp add: corruptedHistory_def)
  have users: "filter (\<lambda>m. role m = ''user'') corruptedHistory
      = [\<lparr>role = ''user'', content = ''first''\<rparr>, \<lparr>role = ''user'', content = ''second''\<rparr>,
         \<lparr>role = ''user'', content = ''third''\<rparr>]"
    by (simp add: corruptedHistory_def)
  have len: "length (validateConversationHistory longHistory) = 24"
    by (simp add: validate_longHistory length_concat sum_list_replicate)
  have sent: "sendMessage True (Inr ''ok'') ''q'' longHistory = (Message ''ok'', ?stored)"
    using len by (simp add: sendMessage_def Let_def drop_Suc)
  note repaired = history_repaired_and_bounded[of corruptedHistory
      "[\<lparr>role = ''assistant'', content = ''orphan''\<rparr>]"
      "\<lparr>role = ''user'', content = ''first''\<rparr>" "\<lparr>role = ''assistant'', content = ''answer''\<rparr>"
      "[\<lparr>role = ''user'', content = ''second''\<rparr>, \<lparr>role = ''user'', content = ''third''\<rparr>]"]
  note again = history_repaired_and_bounded[of ?v]
  note stored = history_repaired_and_bounded[of longHistory _ _ _ _ True "Inr ''ok''" "''q''"
      "''ok''" ?stored]
  have one: "strictAlternation ?v \<and> role (hd ?v) = ''user'' \<and> role (last ?v) = ''assistant''
      \<and> filter (\<lambda>m. role m = ''user'') ?v
          = [\<lparr>role = ''user'', content = ''first''\<rparr>, \<lparr>role = ''user'', content = ''second''\<rparr>,
             \<lparr>role = ''user'', content = ''third''\<rparr>]
      \<and> (\<exists>before after. ?v = before @ \<lparr>role = ''user'', content = ''first''\<rparr>
              # \<lparr>role = ''assistant'', content = ''answer''\<rparr> # after)"
    using repaired ne split users by simp
  then have two: "validateConversationHistory ?v = ?v"
    using again by blast
  have three: "length ?stored \<le> 25"
    using stored sent by blast
  show ?thesis
    using ne one two len sent three by blast
qed
section \<open>Anomaly ids\<close>

text \<open>
  Claim C9 does not hold of the code: an anomaly's id is the clock reading of its creation
  (\<open>generateAnomaly\<close>, \<open>generateDustAccumulationAfterStorm\<close>) or the number of anomalies plus
  one (\<open>generateAnomalyForEquipment\<close>), and nothing compares it with the ids present. Two dust
  storms raised by hand 100 ms apart time out in the same sweep; each cascade appends a dust
  accumulation with the clock reading of the sweep as its id. The two are active and share the
  id 39800200, and the second id is not greater than the first. \<open>correctAnomaly\<close> finds an
  anomaly by its id: called with 39800200 it resolves the first of the two, and called again
  it finds the first, now inactive, and does nothing, so the second stays active.
\<close>

theorem cascades_of_one_sweep_share_an_id:
  "reachable afterTwoStormsPlant
   \<and> map (\<lambda>a. (aid a, atype a, active a)) (anomalies afterTwoStormsPlant)
       = [(39600100, DustStorm, False), (39600200, DustStorm, False),
          (39800200, DustAccumulation, True), (39800200, DustAccumulation, True)]
   \<and> map (\<lambda>a. (aid a, active a))
         (anomalies (correctAnomaly 39900000 39800200 afterTwoStormsPlant))
       = [(39600100, False), (39600200, False), (39800200, False), (39800200, True)]
   \<and> correctAnomaly 39900100 39800200 (correctAnomaly 39900000 39800200 afterTwoStormsPlant)
       = correctAnomaly 39900000 39800200 afterTwoStormsPlant"
proof -
  let ?s = afterTwoStormsPlant
  let ?c = "correctAnomaly 39900000 39800200 ?s"
  have ids: "map (\<lambda>a. (aid a, atype a, active a)) (anomalies ?s)
       = [(39600100, DustStorm, False), (39600200, DustStorm, False),
          (39800200, DustAccumulation, True), (39800200, DustAccumulation, True)]"
    by (simp add: afterTwoStormsPlant_anomalies newAnomaly_def)
  have found: "findIndex (\<lambda>a. aid a = 39800200) (anomalies ?s) = Some 2"
    by (simp add: afterTwoStormsPlant_anomalies newAnomaly_def)
  have c: "anomalies ?c
      = (anomalies ?s)[2 := (anomalies ?s ! 2)
           \<lparr>active := False, resolvedAt := Some 39900000, resolvedBy := Some ByUser\<rparr>]"
    using found
    by (simp add: correctAnomaly_def Let_def clearEffects_def modifyAnomaly_def
        afterTwoStormsPlant_anomalies newAnomaly_def)
  have first: "map (\<lambda>a. (aid a, active a)) (anomalies ?c)
       = [(39600100, False), (39600200, False), (39800200, False), (39800200, True)]"
    by (simp add: c afterTwoStormsPlant_anomalies newAnomaly_def)
  have found': "findIndex (\<lambda>a. aid a = 39800200) (anomalies ?c) = Some 2"
    by (simp add: c afterTwoStormsPlant_anomalies newAnomaly_def)
  have "\<not> active (anomalies ?c ! 2)"
    by (simp add: c afterTwoStormsPlant_anomalies newAnomaly_def)
  then have again: "correctAnomaly 39900100 39800200 ?c = ?c"
    using found' by (simp add: correctAnomaly_def[of 39900100 39800200 ?c] Let_def)
  show ?thesis
    using reachable_afterTwoStormsPlant ids first again by simp
qed

section \<open>Equipment health bounds\<close>

text \<open>
  Claim C10. In every reachable state the health of every unit lies in [20, 100]. The
  operations that write a health keep it there: a degradation pass lowers the health of a unit
  by at most 0.5 and leaves it unchanged or at 75 or more; the claims of the anomaly
  generators floor it at 20, and at 30 for an inverter overload raised by the health monitor;
  a resolution sets the health of every unit it releases into [96, 100].
\<close>

theorem equipment_health_bounds:
  assumes "reachable s"
  shows "(\<forall>entry \<in> set (equipmentHealth s).
            20 \<le> health (snd entry) \<and> health (snd entry) \<le> 100)
         \<and> (\<forall>shuffled comparisons k e.
               admissible (Degradation shuffled comparisons) s
               \<and> map_of (equipmentHealth s) k = Some e \<longrightarrow>
               (\<exists>e'. map_of (equipmentHealth (degradeEquipmentHealth shuffled comparisons s)) k
                       = Some e'
                    \<and> health e - 0.5 \<le> health e'
                    \<and> (health e' = health e \<or> 75 \<le> health e')))
         \<and> (\<forall>t ident e.
               20 \<le> health (claimPanel t ident e) \<and> 20 \<le> health (claimAfterStorm ident e)
               \<and> 30 \<le> health (claimForEquipment InverterOverload ident e)
               \<and> (20 \<le> health e \<longrightarrow> 20 \<le> health (claimForEquipment t ident e)))
         \<and> (\<forall>ks k e'.
               k \<in> set ks \<and> map_of (equipmentHealth (restoreEquipment ks s)) k = Some e'
               \<longrightarrow> 96 \<le> health e' \<and> health e' \<le> 100)"
proof -
  have src: "randomSource (rng s)" using assms by (rule reachable_randomSource)
  have "allHealthInRange s" using assms by (rule reachable_allHealthInRange)
  then have inv: "\<forall>entry \<in> set (equipmentHealth s).
      20 \<le> health (snd entry) \<and> health (snd entry) \<le> 100"
    by (simp add: allHealthInRange_def list_all_iff healthInRange_def)
  have deg: "\<forall>shuffled comparisons k e.
      admissible (Degradation shuffled comparisons) s
      \<and> map_of (equipmentHealth s) k = Some e \<longrightarrow>
      (\<exists>e'. map_of (equipmentHealth (degradeEquipmentHealth shuffled comparisons s)) k = Some e'
           \<and> health e - 0.5 \<le> health e' \<and> (health e' = health e \<or> 75 \<le> health e'))"
    using degradeEquipmentHealth_effect[OF src] by simp
  have claim: "\<forall>t ident e.
      20 \<le> health (claimPanel t ident e) \<and> 20 \<le> health (claimAfterStorm ident e)
      \<and> 30 \<le> health (claimForEquipment InverterOverload ident e)
      \<and> (20 \<le> health e \<longrightarrow> 20 \<le> health (claimForEquipment t ident e))"
    by (simp add: claimPanel_def claimAfterStorm_def claimForEquipment_def Let_def
        le_max_iff_disj)
  have rel: "\<forall>ks k e'.
      k \<in> set ks \<and> map_of (equipmentHealth (restoreEquipment ks s)) k = Some e'
      \<longrightarrow> 96 \<le> health e' \<and> health e' \<le> 100"
  proof (intro allI impI)
    fix ks k e'
    assume h: "k \<in> set ks \<and> map_of (equipmentHealth (restoreEquipment ks s)) k = Some e'"
    then have "released e'"
      using restoreEquipment_released[OF src disjI1, of k ks e'] by simp
    then show "96 \<le> health e' \<and> health e' \<le> 100" by (simp add: released_def)
  qed
  show ?thesis by (rule conjI[OF inv conjI[OF deg conjI[OF claim rel]]])
qed

text \<open>The plant with one panel fault, where panel 1 has dropped to 45.\<close>

theorem equipment_health_bounds_witness:
  "reachable faultPlant
   \<and> list_all (\<lambda>entry. 20 \<le> health (snd entry) \<and> health (snd entry) \<le> 100)
        (equipmentHealth faultPlant)
   \<and> 20 \<le> health (claimPanel PanelFault 1 (snd (healthyUnit 21 (Panel, 1))))"
  using equipment_health_bounds[OF reachable_faultPlant] reachable_faultPlant
  by (simp add: list_all_iff)

end
